(* ===== verification/Prelude.thy ===== *)
theory Prelude
  imports Main "HOL-Library.Word"
begin

unbundle bit_operations_syntax

section \<open>Shared types, automation and word lemmas\<close>

text \<open>
  The machine types of the SDK's C code, the results a C function can have, and the generic
  lemmas on machine words and lists that several components use. \<open>u8\<close> to \<open>u64\<close> are the
  fixed-width types of \<open>stdint.h\<close>; all arithmetic on them wraps, as the C standard says
  for unsigned types.
\<close>

type_synonym u8 = "8 word"
type_synonym u16 = "16 word"
type_synonym u32 = "32 word"
type_synonym u64 = "64 word"

text \<open>Bus addresses: the physical address space of every target is 32 bits wide.\<close>

type_synonym addr = "32 word"

text \<open>
  The collections: \<open>bus_defs\<close> holds the definitions of the bus accesses, \<open>bus_simps\<close> the
  equations that read a register back, \<open>reg_offsets\<close> the register and address constants.
\<close>

named_theorems bus_defs \<open>definitions of single bus accesses\<close>
named_theorems bus_simps \<open>what an access leaves in the machine\<close>
named_theorems reg_offsets \<open>register offsets and base addresses\<close>

text \<open>
  Operations the C standard leaves undefined are values of this type, so that a model never
  continues past one: an integer division by zero, a signed overflow, a pointer that was never assigned.
\<close>

datatype c_fault = DivisionByZero | UninitialisedPointer | InvalidPointer | OutOfBounds | SignedOverflow

datatype 'a outcome = Ret 'a | Fault c_fault

subsection \<open>Words\<close>

lemma unat_add_no_wrap:
  fixes a b :: "'a::len word"
  assumes "unat a + unat b < 2 ^ LENGTH('a)"
  shows "unat (a + b) = unat a + unat b"
  using assms by (simp add: unat_word_ariths)

lemma unat_mult_no_wrap:
  fixes a b :: "'a::len word"
  assumes "unat a * unat b < 2 ^ LENGTH('a)"
  shows "unat (a * b) = unat a * unat b"
  using assms by (simp add: unat_word_ariths)

lemma unat_ucast_up:
  fixes x :: "'a::len word"
  assumes "LENGTH('a) \<le> LENGTH('b)"
  shows "unat (ucast x :: 'b::len word) = unat x"
proof -
  have "unat x < 2 ^ LENGTH('b)"
    using unsigned_less power_increasing [OF assms, of "2 :: nat"] by (rule less_le_trans) simp
  then show ?thesis
    by (simp add: unsigned_ucast_eq take_bit_nat_eq_self)
qed

lemma uint_int_unat: "uint w = int (unat w)"
  by simp

lemma sint_small:
  fixes w :: u32
  assumes "unat w < 2 ^ 31"
  shows "sint w = int (unat w)"
proof -
  have "int (unat w) < int (2 ^ 31)"
    using assms by (simp only: of_nat_less_iff)
  then have "uint w < 2 ^ 31" by simp
  moreover have "- (2 ^ 31) \<le> uint w"
    by (rule order_trans [of _ 0]) simp_all
  ultimately have "signed_take_bit 31 (uint w) = uint w"
    by (intro signed_take_bit_int_eq_self)
  then show ?thesis
    by (simp add: sint_uint)
qed

lemma unat_sub_le:
  fixes a b :: "'a::len word"
  assumes "b \<le> a"
  shows "unat (a - b) = unat a - unat b"
  using assms by (simp add: unat_sub)

lemma word_eq_iff_unat:
  fixes a b :: "'a::len word"
  shows "a = b \<longleftrightarrow> unat a = unat b"
  by (simp add: word_unat_eq_iff)

text \<open>\<open>x & ~(2^k - 1)\<close> rounds down to a multiple of \<open>2^k\<close>.\<close>

lemma and_not_mask_unat:
  fixes x :: "'a::len word"
  shows "unat (x AND NOT (mask k)) = unat x div 2 ^ k * 2 ^ k"
proof -
  have "x AND NOT (mask k) = push_bit k (drop_bit k x)"
    by (rule bit_word_eqI) (auto simp: bit_simps)
  moreover have "unat x div 2 ^ k * 2 ^ k < 2 ^ LENGTH('a)"
    using unsigned_less [of x] by (rule le_less_trans [OF div_times_less_eq_dividend])
  moreover have "unat (push_bit k (drop_bit k x)) = take_bit LENGTH('a) (unat x div 2 ^ k * 2 ^ k)"
    unfolding unsigned_push_bit_eq unsigned_drop_bit_eq
    by (simp add: push_bit_eq_mult drop_bit_eq_div take_bit_nat_eq_self [OF unsigned_less])
  ultimately show ?thesis
    by (simp only: take_bit_nat_eq_self)
qed

lemma and_not_mask_le:
  fixes x :: "'a::len word"
  shows "x AND NOT (mask k) \<le> x"
  by (simp add: word_le_nat_alt and_not_mask_unat)

lemma and_not_mask_dvd:
  fixes x :: "'a::len word"
  shows "2 ^ k dvd unat (x AND NOT (mask k))"
  by (simp add: and_not_mask_unat)

lemma and_not_mask_gt:
  fixes x :: "'a::len word"
  shows "unat x < unat (x AND NOT (mask k)) + 2 ^ k"
proof -
  have "unat x = unat x div 2 ^ k * 2 ^ k + unat x mod 2 ^ k"
    by (rule div_mult_mod_eq [symmetric])
  moreover have "unat x mod 2 ^ k < 2 ^ k"
    by simp
  ultimately show ?thesis
    by (simp only: and_not_mask_unat)
qed

end
