(* ===== verification/WordMem.thy ===== *)
theory WordMem
  imports Prelude
begin

section \<open>Pointer-sized loads and stores on a byte memory\<close>

text \<open>
  The byte memory of a hart whose pointers, like its \<open>size_t\<close>, are \<open>'w word\<close>s: the
  32-bit host of chimera-convolve and the 64-bit host of chimera-open. \<open>load_word\<close> and
  \<open>store_word\<close> are the loads and stores of a pointer-sized field; the lemmas say that a field
  reads back what was stored and that stores elsewhere leave it.
\<close>

type_synonym 'w bytes = "'w word \<Rightarrow> u8"

definition ptr_bytes :: "'w::len itself \<Rightarrow> nat" where
  "ptr_bytes T = LENGTH('w) div 8"

abbreviation PB :: "'w::len word \<Rightarrow> nat" where
  "PB (a :: 'w word) \<equiv> ptr_bytes TYPE('w)"

primrec load_bytes :: "'w::len bytes \<Rightarrow> 'w word \<Rightarrow> nat \<Rightarrow> 'w word" where
  "load_bytes m a 0 = 0"
| "load_bytes m a (Suc n) = ucast (m a) OR push_bit 8 (load_bytes m (a + 1) n)"

definition load_word :: "'w::len bytes \<Rightarrow> 'w word \<Rightarrow> 'w word" where
  "load_word m a = load_bytes m a (PB a)"

definition store_word :: "'w::len bytes \<Rightarrow> 'w word \<Rightarrow> 'w word \<Rightarrow> 'w bytes" where
  "store_word m a v = (\<lambda>x. if unat (x - a) < PB a
     then ucast (drop_bit (8 * unat (x - a)) v) else m x)"

text \<open>The pointer widths of the two targets.\<close>

definition xlen_ok :: "'w::len itself \<Rightarrow> bool" where
  "xlen_ok T \<longleftrightarrow> LENGTH('w) = 32 \<or> LENGTH('w) = 64"

lemma xlen_okD:
  assumes "xlen_ok TYPE('w::len)"
  shows "8 * ptr_bytes TYPE('w) = LENGTH('w)" and "4 dvd ptr_bytes TYPE('w)"
    and "4 \<le> ptr_bytes TYPE('w)" and "ptr_bytes TYPE('w) \<le> 8"
    and "2 ^ 32 \<le> (2 :: nat) ^ LENGTH('w)"
  using assms by (auto simp: xlen_ok_def ptr_bytes_def)

lemma bit_load_bytes:
  fixes m :: "'w::len bytes"
  shows "bit (load_bytes m a n) j \<longleftrightarrow>
    j < 8 * n \<and> j < LENGTH('w) \<and> bit (m (a + of_nat (j div 8))) (j mod 8)"
proof (induction n arbitrary: a j)
  case 0
  then show ?case by simp
next
  case (Suc n)
  show ?case
  proof (cases "j < 8")
    case True
    then show ?thesis
      by (auto simp: bit_simps dest: bit_imp_le_length)
  next
    case False
    then have j: "j div 8 = Suc ((j - 8) div 8)" "j mod 8 = (j - 8) mod 8" "8 \<le> j"
      by (simp_all add: le_div_geq le_mod_geq)
    have "\<not> bit (m a) j"
      using False by (auto dest: bit_imp_le_length)
    then show ?thesis
      using j by (auto simp: bit_simps Suc.IH add.assoc)
  qed
qed

lemma load_word_cong:
  fixes m m' :: "'w::len bytes"
  assumes "\<And>i. i < PB a \<Longrightarrow> m (a + of_nat i) = m' (a + of_nat i)"
  shows "load_word m a = load_word m' a"
proof -
  have "load_bytes m b n = load_bytes m' b n"
    if "\<And>i. i < n \<Longrightarrow> m (b + of_nat i) = m' (b + of_nat i)" for n b
    using that
  proof (induction n arbitrary: b)
    case (Suc n)
    from Suc.prems [of 0] Suc.prems [of "Suc i" for i] Suc.IH [of "b + 1"] show ?case
      by (simp add: add.assoc)
  qed simp
  with assms show ?thesis by (simp add: load_word_def)
qed

lemma load_store_same:
  fixes m :: "'w::len bytes"
  assumes "xlen_ok TYPE('w)"
  shows "load_word (store_word m a v) a = v"
proof (rule bit_word_eqI)
  fix n
  assume n: "n < LENGTH('w)"
  have len: "8 * ptr_bytes TYPE('w) = LENGTH('w)" "ptr_bytes TYPE('w) \<le> 8"
      "2 ^ 32 \<le> (2 :: nat) ^ LENGTH('w)"
    using xlen_okD [OF assms] by auto
  from n len have q: "n div 8 < ptr_bytes TYPE('w)"
    by linarith
  then have u: "unat (of_nat (n div 8) :: 'w word) = n div 8"
    using len by (simp add: unat_of_nat)
  show "bit (load_word (store_word m a v) a) n = bit v n"
    using n len q u
    by (simp add: load_word_def bit_load_bytes store_word_def bit_simps)
qed

lemma store_word_other:
  fixes m :: "'w::len bytes"
  assumes "unat x < unat a \<or> unat a + PB a \<le> unat x" and "unat a + PB a \<le> 2 ^ LENGTH('w)"
  shows "store_word m a v x = m x"
proof -
  have "\<not> unat (x - a) < PB a"
    using assms unsigned_less [of x] by (auto simp: unat_sub_if' word_le_nat_alt)
  then show ?thesis by (simp add: store_word_def)
qed

lemma load_store_sep:
  fixes m :: "'w::len bytes"
  assumes "unat b + PB b \<le> unat a \<or> unat a + PB a \<le> unat b"
    and "unat a + PB a \<le> 2 ^ LENGTH('w)" and "unat b + PB b \<le> 2 ^ LENGTH('w)"
  shows "load_word (store_word m a v) b = load_word m b"
proof (rule load_word_cong)
  fix i
  assume i: "i < PB b"
  with assms(3) have "unat (b + of_nat i) = unat b + i"
    by (simp add: unat_word_ariths unat_of_nat)
  with i assms show "store_word m a v (b + of_nat i) = m (b + of_nat i)"
    by (intro store_word_other) auto
qed

end
