(* ===== verification/Loops.thy ===== *)
theory Loops
  imports Prelude
begin

section \<open>Loops that may run forever\<close>

text \<open>
  The SDK's busy-wait and retry loops. \<open>loop body\<close> runs \<open>body\<close> until it yields a result:
  \<open>body s\<close> is \<open>Some (None, s1)\<close> when the loop goes on in state \<open>s1\<close>, \<open>Some (Some r, s1)\<close>
  when it leaves with \<open>r\<close>, and \<open>None\<close> when the body itself does not return. A loop that never
  leaves is \<open>None\<close> too, so that termination is the statement that the value is a \<open>Some\<close>.
  The lemmas are the rules the components use: the value after finitely many rounds, an
  invariant rule, and a rule for termination by a measure.
\<close>

partial_function (option) loop ::
  "('s \<Rightarrow> ('r option \<times> 's) option) \<Rightarrow> 's \<Rightarrow> ('r \<times> 's) option" where
  "loop body s = (case body s of
     None \<Rightarrow> None
   | Some (x, s1) \<Rightarrow> (case x of None \<Rightarrow> loop body s1 | Some r \<Rightarrow> Some (r, s1)))"

primrec iter :: "('s \<Rightarrow> ('r option \<times> 's) option) \<Rightarrow> nat \<Rightarrow> 's \<Rightarrow> 's option" where
  "iter body 0 s = Some s"
| "iter body (Suc k) s = (case body s of
     None \<Rightarrow> None
   | Some (x, s1) \<Rightarrow> (case x of None \<Rightarrow> iter body k s1 | Some r \<Rightarrow> None))"

lemma loop_unfold:
  "body s = None \<Longrightarrow> loop body s = None"
  "body s = Some (None, s1) \<Longrightarrow> loop body s = loop body s1"
  "body s = Some (Some r, s1) \<Longrightarrow> loop body s = Some (r, s1)"
  by (subst loop.simps, simp)+

lemma loop_iter:
  "iter body k s = Some s1 \<Longrightarrow> loop body s = loop body s1"
  by (induction k arbitrary: s) (auto split: option.splits simp: loop_unfold)

lemma loop_returns:
  "iter body k s = Some s1 \<Longrightarrow> body s1 = Some (Some r, s') \<Longrightarrow> loop body s = Some (r, s')"
  by (simp add: loop_iter loop_unfold)

lemma loop_SomeD:
  "loop body s = Some y \<Longrightarrow>
    \<exists>k s1. iter body k s = Some s1 \<and> body s1 = Some (Some (fst y), snd y)"
proof (induction rule: loop.raw_induct [rotated, consumes 1])
  case (1 f body s y)
  then obtain x s1 where b: "body s = Some (x, s1)"
    by (cases "body s") auto
  show ?case
  proof (cases x)
    case None
    with 1(2) b have "f body s1 = Some y" by simp
    from 1(1) [OF this] obtain k s2 where "iter body k s1 = Some s2"
      and "body s2 = Some (Some (fst y), snd y)"
      by blast
    with b None show ?thesis
      by (intro exI [of _ "Suc k"] exI [of _ s2]) simp
  next
    case (Some r)
    with 1(2) b show ?thesis
      by (intro exI [of _ 0] exI [of _ s]) auto
  qed
qed

lemma iter_inv:
  "iter body k s = Some s1 \<Longrightarrow> I s \<Longrightarrow>
    (\<And>t t'. I t \<Longrightarrow> body t = Some (None, t') \<Longrightarrow> I t') \<Longrightarrow> I s1"
proof (induction k arbitrary: s)
  case 0
  then show ?case by simp
next
  case (Suc k)
  then obtain t where "body s = Some (None, t)" and "iter body k t = Some s1"
    by (auto split: option.splits)
  with Suc.IH [of t] Suc.prems show ?case by blast
qed

lemma loop_inv:
  assumes "loop body s = Some (r, s')" and "I s"
    and "\<And>t t'. I t \<Longrightarrow> body t = Some (None, t') \<Longrightarrow> I t'"
  shows "\<exists>t. I t \<and> body t = Some (Some r, s')"
  using loop_SomeD [OF assms(1)] iter_inv [where I = I, OF _ assms(2,3)] by fastforce

lemma loop_terminates:
  assumes "I s"
    and "\<And>t. I t \<Longrightarrow> \<exists>x t'. body t = Some (x, t') \<and> (x = None \<longrightarrow> I t' \<and> m t' < (m t :: nat))"
  shows "\<exists>r s'. loop body s = Some (r, s')"
  using assms(1)
proof (induction "m s" arbitrary: s rule: less_induct)
  case less
  from assms(2) [OF less.prems] obtain x t'
    where b: "body s = Some (x, t')" and step: "x = None \<longrightarrow> I t' \<and> m t' < m s"
    by blast
  show ?case
    using less.hyps [of t'] b step by (cases x) (simp_all add: loop_unfold)
qed

text \<open>A body that never fails and never leaves keeps the loop running forever.\<close>

lemma loop_diverges:
  assumes "I s" and "\<And>t. I t \<Longrightarrow> \<exists>t'. body t = Some (None, t') \<and> I t'"
  shows "loop body s = None"
proof (cases "loop body s")
  case (Some y)
  then obtain r s' where "loop body s = Some (r, s')" by (cases y) simp
  from loop_inv [where I = I, OF this assms(1)] assms(2) show ?thesis
    by fastforce
qed simp

text \<open>A body that always returns: the loop diverges exactly when no round leaves.\<close>

lemma iter_total:
  assumes "\<And>t. body t = Some (f t, g t)"
  shows "iter body k s = Some s1 \<longleftrightarrow> (\<forall>i<k. f ((g ^^ i) s) = None) \<and> s1 = (g ^^ k) s"
proof (induction k arbitrary: s)
  case (Suc k)
  have "(g ^^ k) (g s) = g ((g ^^ k) s)" for k s by (simp add: funpow_swap1)
  with Suc show ?case
    by (auto simp: assms less_Suc_eq_0_disj split: option.splits)
qed auto

lemma loop_total_None:
  assumes "\<And>t. body t = Some (f t, g t)"
  shows "loop body s = None \<longleftrightarrow> (\<forall>k. f ((g ^^ k) s) = None)"
proof
  assume None: "loop body s = None"
  show "\<forall>k. f ((g ^^ k) s) = None"
  proof (rule ccontr)
    assume "\<not> ?thesis"
    then obtain k where "f ((g ^^ k) s) \<noteq> None" and "\<forall>i<k. f ((g ^^ i) s) = None"
      using exists_least_iff [of "\<lambda>k. f ((g ^^ k) s) \<noteq> None"] by blast
    then obtain r where "iter body k s = Some ((g ^^ k) s)" and "body ((g ^^ k) s) = Some (Some r, g ((g ^^ k) s))"
      by (auto simp: iter_total [OF assms] assms)
    from loop_returns [OF this] None show False by simp
  qed
next
  assume "\<forall>k. f ((g ^^ k) s) = None"
  then show "loop body s = None"
    by (intro loop_diverges [where I = "\<lambda>t. \<exists>k. t = (g ^^ k) s"])
      (auto simp: assms intro: exI [of _ 0] exI [of _ "Suc _"])
qed

end
