(* ===== verification/Alloc.thy ===== *)
theory Alloc
  imports WordMem Loops
begin

section \<open>The memory-island allocator (host/runtime/src/alloc.c)\<close>

text \<open>
  A first-fit free-list allocator over a bump pointer. The state holds the byte memory with the
  \<open>MemoryBlock\<close> headers in it and the three static variables of alloc.c; the width of
  \<open>size_t\<close> is the type parameter. The walk of the free list is a loop that may not end (a
  cyclic list), so \<open>region_malloc\<close> is \<open>None\<close> when it does not return. The second half is the
  abstract allocator, the representation relation and the simulation; the allocator contract
  is the locale \<open>allocator\<close>, interpreted on the code's model at the end.
\<close>

subsection \<open>Headers and state\<close>

record (overloaded) 'w heap =
  hmem :: "'w bytes"
  memory_island_heap_start :: "'w word"
  memory_island_heap_end :: "'w word"
  memory_island_freelist :: "'w word"

definition sizeof_MemoryBlock :: "'w::len word" where
  "sizeof_MemoryBlock = of_nat (2 * ptr_bytes TYPE('w))"

definition ALLOC_ALIGN :: "'w::len word \<Rightarrow> 'w word" where
  "ALLOC_ALIGN sz = (sz + (4 - 1)) AND NOT (4 - 1)"

definition block_next :: "'w::len bytes \<Rightarrow> 'w word \<Rightarrow> 'w word" where
  "block_next m b = load_word m b"

definition block_size :: "'w::len bytes \<Rightarrow> 'w word \<Rightarrow> 'w word" where
  "block_size m b = load_word m (b + of_nat (PB b))"

definition set_block_next :: "'w::len bytes \<Rightarrow> 'w word \<Rightarrow> 'w word \<Rightarrow> 'w bytes" where
  "set_block_next m b v = store_word m b v"

definition set_block_size :: "'w::len bytes \<Rightarrow> 'w word \<Rightarrow> 'w word \<Rightarrow> 'w bytes" where
  "set_block_size m b v = store_word m (b + of_nat (PB b)) v"

subsection \<open>region\_malloc and region\_free\<close>

text \<open>
  The loop's state is \<open>(prev, cur)\<close>, where \<open>prev\<close> is the \<open>MemoryBlock **\<close>: \<open>None\<close> is
  the address of the free-list variable, \<open>Some b\<close> is \<open>&b->next\<close>.
\<close>

definition walk_body :: "'w::len bytes \<Rightarrow> 'w word \<Rightarrow> 'w word option \<times> 'w word
    \<Rightarrow> (('w word option \<times> 'w word) option option \<times> 'w word option \<times> 'w word) option" where
  "walk_body m sz pc = (case pc of (prev, cur) \<Rightarrow>
     if cur = 0 then Some (Some None, pc)
     else if block_size m cur \<ge> sz then Some (Some (Some (prev, cur)), pc)
     else Some (None, (Some cur, block_next m cur)))"

definition unlink :: "'w::len word option \<Rightarrow> 'w word \<Rightarrow> 'w heap \<Rightarrow> 'w heap" where
  "unlink prev cur h = (case prev of
     None \<Rightarrow> h\<lparr>memory_island_freelist := block_next (hmem h) cur\<rparr>
   | Some p \<Rightarrow> h\<lparr>hmem := set_block_next (hmem h) p (block_next (hmem h) cur)\<rparr>)"

definition region_malloc :: "'w::len word \<Rightarrow> 'w heap \<Rightarrow> ('w word \<times> 'w heap) option" where
  "region_malloc sz h =
     (let total_size = ALLOC_ALIGN (sz + sizeof_MemoryBlock) in
      case loop (walk_body (hmem h) sz) (None, memory_island_freelist h) of
        None \<Rightarrow> None
      | Some (found, _) \<Rightarrow> (case found of
          Some (prev, cur) \<Rightarrow> Some (cur + sizeof_MemoryBlock, unlink prev cur h)
        | None \<Rightarrow>
            if memory_island_heap_start h + total_size > memory_island_heap_end h then Some (0, h)
            else (let b = memory_island_heap_start h in
              Some (b + sizeof_MemoryBlock,
                h\<lparr>hmem := set_block_size (hmem h) b sz,
                  memory_island_heap_start := b + total_size\<rparr>))))"

definition region_free :: "'w::len word \<Rightarrow> 'w heap \<Rightarrow> 'w heap" where
  "region_free ptr h =
     (if ptr = 0 then h
      else let b = ptr - sizeof_MemoryBlock in
        h\<lparr>hmem := set_block_next (hmem h) b (memory_island_freelist h),
          memory_island_freelist := b\<rparr>)"

definition memory_island_malloc :: "'w::len word \<Rightarrow> 'w heap \<Rightarrow> ('w word \<times> 'w heap) option" where
  "memory_island_malloc sz h = region_malloc sz h"

definition memory_island_free :: "'w::len word \<Rightarrow> 'w heap \<Rightarrow> 'w heap" where
  "memory_island_free ptr h = region_free ptr h"

subsection \<open>The abstract allocator\<close>

text \<open>
  All blocks ever carved, in address order, with the size their header holds; the free list;
  and the bump pointer. A block of size \<open>n\<close> spans \<open>span n\<close> bytes, header included.
\<close>

record (overloaded) 'w aheap =
  blocks :: "('w word \<times> 'w word) list"
  free :: "'w word list"
  brk :: "'w word"

abbreviation hdr :: "'w::len word \<Rightarrow> nat" where
  "hdr x \<equiv> 2 * PB x"

definition span :: "'w::len word \<Rightarrow> nat" where
  "span n = (unat n + hdr n + 3) div 4 * 4"

definition asize :: "'w::len aheap \<Rightarrow> 'w word \<Rightarrow> 'w word" where
  "asize a b = the (map_of (blocks a) b)"

definition abs_malloc :: "'w::len word \<Rightarrow> 'w word \<Rightarrow> 'w aheap \<Rightarrow> 'w word \<times> 'w aheap" where
  "abs_malloc lim sz a = (case find (\<lambda>b. sz \<le> asize a b) (free a) of
     Some b \<Rightarrow> (b + sizeof_MemoryBlock, a\<lparr>free := remove1 b (free a)\<rparr>)
   | None \<Rightarrow> if unat lim < unat (brk a) + span sz then (0, a)
       else (brk a + sizeof_MemoryBlock,
         a\<lparr>blocks := blocks a @ [(brk a, sz)], brk := brk a + of_nat (span sz)\<rparr>))"

definition abs_free :: "'w::len word \<Rightarrow> 'w aheap \<Rightarrow> 'w aheap" where
  "abs_free p a = (if p = 0 then a else a\<lparr>free := (p - sizeof_MemoryBlock) # free a\<rparr>)"

subsection \<open>The representation relation\<close>

primrec tiles :: "nat \<Rightarrow> ('w::len word \<times> 'w word) list \<Rightarrow> nat \<Rightarrow> bool" where
  "tiles p [] q = (p = q)"
| "tiles p (bn # r) q = (unat (fst bn) = p \<and> tiles (p + span (snd bn)) r q)"

primrec free_path :: "'w::len bytes \<Rightarrow> 'w word \<Rightarrow> 'w word list \<Rightarrow> bool" where
  "free_path m p [] = (p = 0)"
| "free_path m p (b # bs) = (p = b \<and> b \<noteq> 0 \<and> free_path m (block_next m b) bs)"

definition heap_rel :: "'w::len word \<Rightarrow> 'w heap \<Rightarrow> 'w aheap \<Rightarrow> bool" where
  "heap_rel base h a \<longleftrightarrow> xlen_ok TYPE('w) \<and> base \<noteq> 0 \<and> 4 dvd unat base
    \<and> tiles (unat base) (blocks a) (unat (brk a))
    \<and> brk a = memory_island_heap_start h
    \<and> memory_island_heap_start h \<le> memory_island_heap_end h
    \<and> (\<forall>(b, n) \<in> set (blocks a). block_size (hmem h) b = n)
    \<and> free_path (hmem h) (memory_island_freelist h) (free a)
    \<and> distinct (free a) \<and> set (free a) \<subseteq> fst ` set (blocks a)"

text \<open>The request does not overflow \<open>size_t\<close>, nor the bump pointer.\<close>

definition request_ok :: "'w::len word \<Rightarrow> 'w heap \<Rightarrow> bool" where
  "request_ok sz h \<longleftrightarrow> unat sz + hdr sz + 3 + unat (memory_island_heap_end h) < 2 ^ LENGTH('w)"

lemma hdr_facts:
  assumes "xlen_ok TYPE('w::len)"
  shows "4 dvd hdr (x :: 'w word)" and "8 \<le> hdr (x :: 'w word)" and "hdr (x :: 'w word) \<le> 16"
  using xlen_okD [OF assms] by (auto intro: dvd_mult)

lemma hdr_small:
  assumes "xlen_ok TYPE('w::len)"
  shows "hdr (x :: 'w word) < 2 ^ LENGTH('w)" and "PB (x :: 'w word) < 2 ^ LENGTH('w)"
  using xlen_okD [OF assms] by auto

lemma unat_sizeof:
  assumes "xlen_ok TYPE('w::len)"
  shows "unat (sizeof_MemoryBlock :: 'w word) = 2 * ptr_bytes TYPE('w)"
  using hdr_small [OF assms] unfolding sizeof_MemoryBlock_def by (simp only: unat_of_nat mod_less)

lemma unat_PB:
  assumes "xlen_ok TYPE('w::len)"
  shows "unat (of_nat (ptr_bytes TYPE('w)) :: 'w word) = ptr_bytes TYPE('w)"
  using hdr_small [OF assms] by (simp only: unat_of_nat mod_less)

lemma span_ge: "unat n + hdr n \<le> span n"
  unfolding span_def by linarith

lemma span_dvd: "4 dvd span n"
  by (simp add: span_def)

lemma span_pos: "xlen_ok TYPE('w::len) \<Longrightarrow> 0 < span (n :: 'w word)"
  using span_ge [of n] hdr_facts [where 'w = 'w] by simp

lemma unat_ALLOC_ALIGN:
  fixes sz :: "'w::len word"
  assumes "xlen_ok TYPE('w)" and "unat sz + hdr sz + 3 < 2 ^ LENGTH('w)"
  shows "unat (ALLOC_ALIGN (sz + sizeof_MemoryBlock)) = span sz"
proof -
  have u: "unat (sz + sizeof_MemoryBlock) = unat sz + hdr sz"
    using assms by (subst unat_add_no_wrap) (simp_all add: unat_sizeof)
  have "4 - 1 = (mask 2 :: 'w word)"
    by (simp add: mask_eq_exp_minus_1)
  then have "unat (ALLOC_ALIGN (sz + sizeof_MemoryBlock)) =
      unat (sz + sizeof_MemoryBlock + (4 - 1)) div 4 * 4"
    unfolding ALLOC_ALIGN_def by (simp only: and_not_mask_unat) simp
  also have "unat (sz + sizeof_MemoryBlock + (4 - 1)) = unat sz + hdr sz + 3"
  proof -
    have "unat (3 :: 'w word) = 3"
      using xlen_okD(5) [OF assms(1)] by (subst unat_numeral) (simp add: take_bit_nat_eq_self)
    then show ?thesis
      using assms u by (subst unat_add_no_wrap) simp_all
  qed
  finally show ?thesis by (simp add: span_def)
qed

lemma tiles_append [simp]:
  "tiles p (xs @ ys) q \<longleftrightarrow> (\<exists>r. tiles p xs r \<and> tiles r ys q)"
  by (induction xs arbitrary: p) auto

lemma tiles_le: "tiles p bs q \<Longrightarrow> p \<le> q"
  by (induction bs arbitrary: p) fastforce+

lemma tiles_bounds: "tiles p bs q \<Longrightarrow> (b, n) \<in> set bs \<Longrightarrow> p \<le> unat b \<and> unat b + span n \<le> q"
  by (induction bs arbitrary: p) (fastforce dest: tiles_le)+

lemma tiles_disjoint:
  assumes "tiles p bs q" and "(b, n) \<in> set bs" and "(b', n') \<in> set bs" and "(b, n) \<noteq> (b', n')"
  shows "unat b + span n \<le> unat b' \<or> unat b' + span n' \<le> unat b"
  using assms
proof (induction bs arbitrary: p)
  case (Cons x xs)
  then show ?case
    by (cases x) (auto dest: tiles_bounds)
qed simp

lemma tiles_distinct:
  fixes bs :: "('w::len word \<times> 'w word) list"
  assumes "xlen_ok TYPE('w)"
  shows "tiles p bs q \<Longrightarrow> distinct (map fst bs)"
proof (induction bs arbitrary: p)
  case (Cons x xs)
  then show ?case
    using span_pos [OF assms, of "snd x"] by (force dest: tiles_bounds)
qed simp

lemma tiles_dvd: "tiles p bs q \<Longrightarrow> 4 dvd p \<Longrightarrow> (b, n) \<in> set bs \<Longrightarrow> 4 dvd unat b"
  by (induction bs arbitrary: p) (auto simp: span_dvd)

lemma tiles_dvd_end: "tiles p bs q \<Longrightarrow> 4 dvd p \<Longrightarrow> 4 dvd q"
  by (induction bs arbitrary: p) (auto simp: span_dvd)


subsection \<open>Headers stay apart\<close>

lemma hdr_addr:
  fixes b :: "'w::len word"
  assumes "xlen_ok TYPE('w)" and "unat b + hdr b \<le> q" and "q < 2 ^ LENGTH('w)"
  shows "unat (b + of_nat (PB b)) = unat b + PB b" and "unat (b + sizeof_MemoryBlock) = unat b + hdr b"
  using assms by (simp_all add: unat_add_no_wrap unat_sizeof unat_PB)

text \<open>A store to one field of a header leaves the other fields of all headers.\<close>

lemma block_size_set_next:
  fixes b b' :: "'w::len word"
  assumes x: "xlen_ok TYPE('w)" and "unat b + hdr b \<le> q" "unat b' + hdr b' \<le> q" "q < 2 ^ LENGTH('w)"
    and "b = b' \<or> unat b + hdr b \<le> unat b' \<or> unat b' + hdr b' \<le> unat b"
  shows "block_size (set_block_next m b v) b' = block_size m b'"
proof -
  note u = hdr_addr [OF x assms(2,4)] hdr_addr [OF x assms(3,4)]
  show ?thesis
    unfolding block_size_def set_block_next_def
    using assms u by (intro load_store_sep) auto
qed

lemma block_size_set_size:
  fixes b b' :: "'w::len word"
  assumes x: "xlen_ok TYPE('w)" and "unat b + hdr b \<le> q" "unat b' + hdr b' \<le> q" "q < 2 ^ LENGTH('w)"
    and "unat b + hdr b \<le> unat b' \<or> unat b' + hdr b' \<le> unat b"
  shows "block_size (set_block_size m b v) b' = block_size m b'"
proof -
  note u = hdr_addr [OF x assms(2,4)] hdr_addr [OF x assms(3,4)]
  show ?thesis
    unfolding block_size_def set_block_size_def
    using assms u by (intro load_store_sep) auto
qed

lemma block_next_set_size:
  fixes b b' :: "'w::len word"
  assumes x: "xlen_ok TYPE('w)" and "unat b + hdr b \<le> q" "unat b' + hdr b' \<le> q" "q < 2 ^ LENGTH('w)"
    and "unat b + hdr b \<le> unat b' \<or> unat b' + hdr b' \<le> unat b"
  shows "block_next (set_block_size m b v) b' = block_next m b'"
proof -
  note u = hdr_addr [OF x assms(2,4)] hdr_addr [OF x assms(3,4)]
  show ?thesis
    unfolding block_next_def set_block_size_def
    using assms u by (intro load_store_sep) auto
qed

lemma block_next_set_next:
  fixes b b' :: "'w::len word"
  assumes x: "xlen_ok TYPE('w)" and "unat b + hdr b \<le> q" "unat b' + hdr b' \<le> q" "q < 2 ^ LENGTH('w)"
    and "unat b + hdr b \<le> unat b' \<or> unat b' + hdr b' \<le> unat b"
  shows "block_next (set_block_next m b v) b' = block_next m b'"
proof -
  note u = hdr_addr [OF x assms(2,4)] hdr_addr [OF x assms(3,4)]
  show ?thesis
    unfolding block_next_def set_block_next_def
    using assms u by (intro load_store_sep) auto
qed

lemma set_get [simp]:
  fixes b :: "'w::len word"
  assumes "xlen_ok TYPE('w)"
  shows "block_next (set_block_next m b v) b = v" and "block_size (set_block_size m b v) b = v"
  using load_store_same [OF assms] by (simp_all add: block_next_def block_size_def
      set_block_next_def set_block_size_def)

lemma free_path_cong:
  "(\<And>b. b \<in> set bs \<Longrightarrow> block_next m b = block_next m' b) \<Longrightarrow> free_path m p bs = free_path m' p bs"
  by (induction bs arbitrary: p) auto

lemma free_path_nonzero: "free_path m p bs \<Longrightarrow> b \<in> set bs \<Longrightarrow> b \<noteq> 0"
  by (induction bs arbitrary: p) auto

subsection \<open>The walk of the free list\<close>

primrec first_fit ::
  "'w::len bytes \<Rightarrow> 'w word \<Rightarrow> 'w word option \<Rightarrow> 'w word list \<Rightarrow> ('w word option \<times> 'w word) option" where
  "first_fit m sz prev [] = None"
| "first_fit m sz prev (b # bs) =
    (if sz \<le> block_size m b then Some (prev, b) else first_fit m sz (Some b) bs)"

lemma loop_walk:
  "loop (walk_body m sz) (prev, 0) = Some (None, (prev, 0))"
  "b \<noteq> 0 \<Longrightarrow> sz \<le> block_size m b \<Longrightarrow>
    loop (walk_body m sz) (prev, b) = Some (Some (prev, b), (prev, b))"
  "b \<noteq> 0 \<Longrightarrow> \<not> sz \<le> block_size m b \<Longrightarrow>
    loop (walk_body m sz) (prev, b) = loop (walk_body m sz) (Some b, block_next m b)"
  by (simp_all add: walk_body_def loop.simps [of _ "(prev, 0)"] loop.simps [of _ "(prev, b)"])

lemma walk_first_fit:
  "free_path m p bs \<Longrightarrow>
    \<exists>pc. loop (walk_body m sz) (prev, p) = Some (first_fit m sz prev bs, pc)"
proof (induction bs arbitrary: p prev)
  case Nil
  then show ?case
    by (auto simp: loop_walk)
next
  case (Cons b bs)
  then show ?case
    using Cons.IH [of "block_next m b" "Some b"]
    by (cases "sz \<le> block_size m b") (simp_all add: loop_walk)
qed

lemma first_fit_None: "first_fit m sz prev bs = None \<longleftrightarrow> find (\<lambda>b. sz \<le> block_size m b) bs = None"
  by (induction bs arbitrary: prev) auto

lemma first_fit_Some:
  "first_fit m sz prev bs = Some (pr, b) \<Longrightarrow>
    find (\<lambda>b. sz \<le> block_size m b) bs = Some b \<and>
    (\<exists>xs ys. bs = xs @ b # ys \<and> (\<forall>x\<in>set xs. \<not> sz \<le> block_size m x)
      \<and> pr = (if xs = [] then prev else Some (last xs)))"
proof (induction bs arbitrary: prev)
  case (Cons c bs)
  show ?case
  proof (cases "sz \<le> block_size m c")
    case True
    with Cons.prems show ?thesis
      by (auto intro!: exI [of _ "[]"])
  next
    case False
    with Cons obtain xs ys where "bs = xs @ b # ys" "\<forall>x\<in>set xs. \<not> sz \<le> block_size m x"
      "pr = (if xs = [] then Some c else Some (last xs))" "find (\<lambda>b. sz \<le> block_size m b) bs = Some b"
      by force
    with False show ?thesis
      by (intro conjI exI [of _ "c # xs"] exI [of _ ys]) auto
  qed
qed simp

subsection \<open>The operations keep the representation\<close>

lemma heap_relD:
  assumes "heap_rel base h a"
  shows "xlen_ok TYPE('w::len)" "base \<noteq> (0 :: 'w word)" "4 dvd unat base"
    "tiles (unat base) (blocks a) (unat (brk a))" "brk a = memory_island_heap_start h"
    "memory_island_heap_start h \<le> memory_island_heap_end h"
    "\<And>b n. (b, n) \<in> set (blocks a) \<Longrightarrow> block_size (hmem h) b = n"
    "free_path (hmem h) (memory_island_freelist h) (free a)"
    "distinct (free a)" "set (free a) \<subseteq> fst ` set (blocks a)"
  using assms unfolding heap_rel_def by auto

lemma heap_rel_block:
  assumes "heap_rel base h (a :: 'w::len aheap)" and "b \<in> fst ` set (blocks a)"
  shows "unat base \<le> unat b" "b \<noteq> 0" "4 dvd unat b"
    "unat b + span (asize a b) \<le> unat (brk a)" "unat b + hdr b \<le> unat (brk a)"
    "(b, asize a b) \<in> set (blocks a)" "asize a b = block_size (hmem h) b"
proof -
  note r = heap_relD [OF assms(1)]
  obtain n where n: "(b, n) \<in> set (blocks a)" using assms(2) by auto
  moreover have "asize a b = n"
    using map_of_is_SomeI [OF tiles_distinct [OF r(1,4)] n] by (simp add: asize_def)
  ultimately show "(b, asize a b) \<in> set (blocks a)" "asize a b = block_size (hmem h) b"
    using r(7) [OF n] by simp_all
  from tiles_bounds [OF r(4) this(1)] span_ge [of "asize a b"]
  show "unat base \<le> unat b" "unat b + span (asize a b) \<le> unat (brk a)" "unat b + hdr b \<le> unat (brk a)"
    by auto
  from tiles_dvd [OF r(4,3) n] show "4 dvd unat b" .
  from \<open>unat base \<le> unat b\<close> r(2) show "b \<noteq> 0"
    by (auto simp: word_le_nat_alt [symmetric])
qed

lemma heap_rel_sep:
  assumes "heap_rel base h (a :: 'w::len aheap)" and "b \<in> fst ` set (blocks a)"
    and "b' \<in> fst ` set (blocks a)" and "b \<noteq> b'"
  shows "unat b + span (asize a b) \<le> unat b' \<or> unat b' + span (asize a b') \<le> unat b"
    and "unat b + hdr b \<le> unat b' \<or> unat b' + hdr b' \<le> unat b"
proof -
  have "(b, asize a b) \<in> set (blocks a)" "(b', asize a b') \<in> set (blocks a)"
    using heap_rel_block [OF assms(1)] assms by blast+
  from tiles_disjoint [OF heap_relD(4) [OF assms(1)] this] assms(4)
  show *: "unat b + span (asize a b) \<le> unat b' \<or> unat b' + span (asize a b') \<le> unat b"
    by auto
  then show "unat b + hdr b \<le> unat b' \<or> unat b' + hdr b' \<le> unat b"
    using span_ge [of "asize a b"] span_ge [of "asize a b'"] by auto
qed

lemma heap_rel_set_next:
  fixes h :: "'w::len heap"
  assumes "heap_rel base h a" and "b \<in> fst ` set (blocks a)" and "b' \<in> fst ` set (blocks a)"
  shows "block_size (set_block_next (hmem h) b v) b' = block_size (hmem h) b'"
    and "block_next (set_block_next (hmem h) b v) b' = (if b' = b then v else block_next (hmem h) b')"
proof -
  note x = heap_relD(1) [OF assms(1)]
  note bounds = heap_rel_block(5) [OF assms(1,2)] heap_rel_block(5) [OF assms(1,3)] unsigned_less
  have sep: "b = b' \<or> unat b + hdr b \<le> unat b' \<or> unat b' + hdr b' \<le> unat b"
    using heap_rel_sep(2) [OF assms] by blast
  show "block_size (set_block_next (hmem h) b v) b' = block_size (hmem h) b'"
    by (rule block_size_set_next [OF x bounds sep])
  show "block_next (set_block_next (hmem h) b v) b' = (if b' = b then v else block_next (hmem h) b')"
    using sep x by (auto intro: block_next_set_next [OF x bounds])
qed

lemma live_bounds:
  assumes "heap_rel base h (a :: 'w::len aheap)" and "b \<in> fst ` set (blocks a)"
  shows "unat (b + sizeof_MemoryBlock) = unat b + hdr b"
    and "unat (b + sizeof_MemoryBlock) + unat (asize a b) \<le> unat b + span (asize a b)"
proof -
  show *: "unat (b + sizeof_MemoryBlock) = unat b + hdr b"
    using heap_rel_block(5) [OF assms] by (intro hdr_addr [OF heap_relD(1) [OF assms(1)] _ unsigned_less])
  show "unat (b + sizeof_MemoryBlock) + unat (asize a b) \<le> unat b + span (asize a b)"
    using span_ge [of "asize a b"] unfolding * by simp
qed

lemma ptr_nonzero:
  assumes "heap_rel base h (a :: 'w::len aheap)" and "b \<in> fst ` set (blocks a)"
  shows "b + sizeof_MemoryBlock \<noteq> 0"
  using live_bounds(1) [OF assms] hdr_facts(2) [OF heap_relD(1) [OF assms(1)]] by auto

lemma free_path_relink:
  assumes "free_path m p (xs @ b # ys)" and "distinct (xs @ b # ys)" and "xs \<noteq> []"
    and "block_next m' (last xs) = block_next m b"
    and "\<And>c. c \<in> set (xs @ b # ys) \<Longrightarrow> c \<noteq> last xs \<Longrightarrow> block_next m' c = block_next m c"
  shows "free_path m' p (xs @ ys)"
  using assms
proof (induction xs arbitrary: p)
  case (Cons c xs)
  show ?case
  proof (cases "xs = []")
    case True
    with Cons.prems have "free_path m' (block_next m b) ys = free_path m (block_next m b) ys"
      by (intro free_path_cong) auto
    with True Cons.prems show ?thesis by simp
  next
    case False
    with Cons.prems have "c \<noteq> last xs" by auto
    with Cons.prems False have "block_next m' c = block_next m c" by simp
    with False Cons.prems show ?thesis
      by (auto intro!: Cons.IH)
  qed
qed simp

lemma heap_rel_update:
  assumes "heap_rel base h a"
    and "memory_island_heap_start h' = memory_island_heap_start h"
    and "memory_island_heap_end h' = memory_island_heap_end h"
    and "blocks a' = blocks a" and "brk a' = brk a"
    and "\<And>c. c \<in> fst ` set (blocks a) \<Longrightarrow> block_size (hmem h') c = block_size (hmem h) c"
    and "free_path (hmem h') (memory_island_freelist h') (free a')"
    and "distinct (free a')" and "set (free a') \<subseteq> fst ` set (blocks a)"
  shows "heap_rel base h' a'"
proof -
  note r = heap_relD [OF assms(1)]
  have "block_size (hmem h') c = n" if "(c, n) \<in> set (blocks a)" for c n
    using that assms(6) [of c] r(7) [OF that] by force
  then show ?thesis
    unfolding heap_rel_def assms(2-5) using r(1-6) assms(7-9) by (simp add: case_prod_beta)
qed

lemma unlink_rel:
  fixes h :: "'w::len heap"
  assumes rel: "heap_rel base h a" and fs: "free a = xs @ b # ys"
    and pr: "pr = (if xs = [] then None else Some (last xs))"
  shows "heap_rel base (unlink pr b h) (a\<lparr>free := xs @ ys\<rparr>)"
proof -
  note r = heap_relD [OF rel]
  have path: "free_path (hmem h) (memory_island_freelist h) (xs @ b # ys)"
    and d: "distinct (xs @ b # ys)" and sub: "set (xs @ b # ys) \<subseteq> fst ` set (blocks a)"
    using r(8,9,10) by (simp_all only: fs)
  show ?thesis
  proof (cases "xs = []")
    case True
    with pr path d sub show ?thesis
      by (intro heap_rel_update [OF rel]) (auto simp: unlink_def)
  next
    case False
    let ?m = "set_block_next (hmem h) (last xs) (block_next (hmem h) b)"
    have l: "last xs \<in> fst ` set (blocks a)"
      using sub last_in_set [OF False] by auto
    note keep = heap_rel_set_next [OF rel l]
    have "block_next ?m c = block_next (hmem h) c" if "c \<in> set (xs @ b # ys)" "c \<noteq> last xs" for c
    proof -
      have "c \<in> fst ` set (blocks a)" using that sub by blast
      from keep(2) [OF this] that show ?thesis by simp
    qed
    then have "free_path ?m (memory_island_freelist h) (xs @ ys)"
      using keep(2) [OF l] by (intro free_path_relink [OF path d False]) simp_all
    with False pr d sub keep(1) show ?thesis
      by (intro heap_rel_update [OF rel]) (auto simp: unlink_def)
  qed
qed

lemma free_rel:
  fixes h :: "'w::len heap"
  assumes rel: "heap_rel base h a" and b: "b \<in> fst ` set (blocks a)" "b \<notin> set (free a)"
  shows "heap_rel base (region_free (b + sizeof_MemoryBlock) h) (abs_free (b + sizeof_MemoryBlock) a)"
    and "b + sizeof_MemoryBlock \<noteq> 0"
proof -
  note r = heap_relD [OF rel]
  note keep = heap_rel_set_next [OF rel b(1)]
  show nz: "b + sizeof_MemoryBlock \<noteq> 0"
    using ptr_nonzero [OF rel b(1)] .
  let ?m = "set_block_next (hmem h) b (memory_island_freelist h)"
  have "block_next ?m c = block_next (hmem h) c" if "c \<in> set (free a)" for c
  proof -
    have "c \<in> fst ` set (blocks a)" using that r(10) by blast
    from keep(2) [OF this] that b(2) show ?thesis by auto
  qed
  then have "free_path ?m (memory_island_freelist h) (free a)"
    using r(8) free_path_cong by blast
  with r b nz keep heap_rel_block(2) [OF rel b(1)]
  show "heap_rel base (region_free (b + sizeof_MemoryBlock) h) (abs_free (b + sizeof_MemoryBlock) a)"
    by (intro heap_rel_update [OF rel]) (simp_all add: region_free_def abs_free_def Let_def)
qed

lemma carve_rel:
  fixes h :: "'w::len heap"
  assumes rel: "heap_rel base h a" and ok: "request_ok sz h"
    and room: "unat (brk a) + span sz \<le> unat (memory_island_heap_end h)"
  shows "heap_rel base
      (h\<lparr>hmem := set_block_size (hmem h) (brk a) sz,
         memory_island_heap_start := brk a + of_nat (span sz)\<rparr>)
      (a\<lparr>blocks := blocks a @ [(brk a, sz)], brk := brk a + of_nat (span sz)\<rparr>)"
proof -
  note r = heap_relD [OF rel]
  let ?q = "unat (brk a) + span sz"
  have q: "?q < 2 ^ LENGTH('w)"
    using room unsigned_less by (rule le_less_trans)
  then have brk: "unat (brk a + of_nat (span sz)) = ?q"
    by (subst unat_add_no_wrap) (simp_all add: unat_of_nat)
  have apart: "unat c + hdr c \<le> unat (brk a)" if "c \<in> fst ` set (blocks a)" for c
    using heap_rel_block(5) [OF rel that] .
  have new: "unat (brk a) + hdr (brk a) \<le> ?q"
    using span_ge [of sz] by simp
  let ?m = "set_block_size (hmem h) (brk a) sz"
  have keep: "block_size ?m c = block_size (hmem h) c" "block_next ?m c = block_next (hmem h) c"
    if "c \<in> fst ` set (blocks a)" for c
    using apart [OF that] new by (intro block_size_set_size [OF r(1) new _ q]
        block_next_set_size [OF r(1) new _ q]; simp)+
  have "block_size ?m c = n" if "(c, n) \<in> set (blocks a)" for c n
    using that keep(1) [of c] r(7) by force
  moreover have "free_path ?m (memory_island_freelist h) (free a)"
    using r(8,10) keep(2) free_path_cong [of "free a" ?m "hmem h"] by blast
  moreover have "tiles (unat base) (blocks a @ [(brk a, sz)]) (unat (brk a + of_nat (span sz)))"
    using r(4) by (simp add: brk)
  moreover have "brk a + of_nat (span sz) \<le> memory_island_heap_end h"
    using room by (simp add: word_le_nat_alt brk)
  ultimately show ?thesis
    using r set_get(2) [OF r(1)] unfolding heap_rel_def by auto
qed

subsection \<open>region\_malloc refines the abstract allocator\<close>

text \<open>The bytes of the headers of all blocks.\<close>

definition header_bytes :: "'w::len aheap \<Rightarrow> 'w word set" where
  "header_bytes a = {x. \<exists>b \<in> fst ` set (blocks a). unat b \<le> unat x \<and> unat x < unat b + hdr b}"

lemma set_block_frame:
  fixes b x :: "'w::len word"
  assumes x: "xlen_ok TYPE('w)" and "unat b + hdr b \<le> q" "q < 2 ^ LENGTH('w)"
    and "unat x < unat b \<or> unat b + hdr b \<le> unat x"
  shows "set_block_next m b v x = m x" and "set_block_size m b v x = m x"
proof -
  note u = hdr_addr [OF x assms(2,3)]
  show "set_block_next m b v x = m x"
    unfolding set_block_next_def using assms by (intro store_word_other) auto
  show "set_block_size m b v x = m x"
    unfolding set_block_size_def using assms u by (intro store_word_other) auto
qed

lemma heap_rel_frame:
  assumes "heap_rel base h (a :: 'w::len aheap)" and "b \<in> fst ` set (blocks a)" and "x \<notin> header_bytes a"
  shows "set_block_next m b v x = m x" and "set_block_size m b v x = m x"
proof -
  have "unat x < unat b \<or> unat b + hdr b \<le> unat x"
    using assms(2,3) unfolding header_bytes_def by (auto simp: not_le not_less)
  from set_block_frame [OF heap_relD(1) [OF assms(1)] heap_rel_block(5) [OF assms(1,2)] unsigned_less this]
  show "set_block_next m b v x = m x" and "set_block_size m b v x = m x"
    by blast+
qed

lemma find_first_fit:
  assumes "heap_rel base h a"
  shows "find (\<lambda>b. sz \<le> block_size (hmem h) b) (free a) = find (\<lambda>b. sz \<le> asize a b) (free a)"
proof (rule find_cong [OF refl])
  fix b
  assume "b \<in> set (free a)"
  with heap_relD(10) [OF assms] have "b \<in> fst ` set (blocks a)" by blast
  from heap_rel_block(7) [OF assms this] show "(sz \<le> block_size (hmem h) b) = (sz \<le> asize a b)"
    by simp
qed

lemma malloc_hit:
  assumes rel: "heap_rel base h a"
    and hit: "first_fit (hmem h) sz None (free a) = Some (pr, b)"
  shows "region_malloc sz h = Some (b + sizeof_MemoryBlock, unlink pr b h)"
    and "find (\<lambda>b. sz \<le> asize a b) (free a) = Some b"
    and "heap_rel base (unlink pr b h) (a\<lparr>free := remove1 b (free a)\<rparr>)"
    and "b \<in> set (free a)"
    and "x \<notin> header_bytes a \<Longrightarrow> hmem (unlink pr b h) x = hmem h x"
proof -
  note r = heap_relD [OF rel]
  show "find (\<lambda>b. sz \<le> asize a b) (free a) = Some b"
    using first_fit_Some [OF hit] find_first_fit [OF rel] by simp
  obtain xs ys where fs: "free a = xs @ b # ys" and pr: "pr = (if xs = [] then None else Some (last xs))"
    using first_fit_Some [OF hit] by blast
  have "b \<notin> set xs"
    using r(9) fs by auto
  with unlink_rel [OF rel fs pr] fs show "heap_rel base (unlink pr b h) (a\<lparr>free := remove1 b (free a)\<rparr>)"
    by (simp add: remove1_append)
  show "b \<in> set (free a)" by (simp add: fs)
  show "region_malloc sz h = Some (b + sizeof_MemoryBlock, unlink pr b h)"
    using walk_first_fit [OF r(8), of sz None] hit by (auto simp: region_malloc_def Let_def)
  show "hmem (unlink pr b h) x = hmem h x" if "x \<notin> header_bytes a"
  proof (cases pr)
    case (Some p)
    then have "p = last xs" "xs \<noteq> []" using pr by (auto split: if_splits)
    then have "p \<in> fst ` set (blocks a)"
      using r(10) fs last_in_set [of xs] by auto
    from heap_rel_frame(1) [OF rel this that] Some show ?thesis
      by (simp add: unlink_def)
  qed (simp add: unlink_def)
qed

lemma malloc_miss:
  fixes h :: "'w::len heap"
  assumes rel: "heap_rel base h a" and ok: "request_ok sz h"
    and miss: "first_fit (hmem h) sz None (free a) = None"
  shows "find (\<lambda>b. sz \<le> asize a b) (free a) = None"
    and "region_malloc sz h =
      Some (if unat (memory_island_heap_end h) < unat (brk a) + span sz then (0, h)
        else (brk a + sizeof_MemoryBlock,
          h\<lparr>hmem := set_block_size (hmem h) (brk a) sz,
            memory_island_heap_start := brk a + of_nat (span sz)\<rparr>))"
proof -
  note r = heap_relD [OF rel]
  show "find (\<lambda>b. sz \<le> asize a b) (free a) = None"
    using miss first_fit_None find_first_fit [OF rel] by metis
  have al: "unat (ALLOC_ALIGN (sz + sizeof_MemoryBlock)) = span sz"
    using ok by (intro unat_ALLOC_ALIGN [OF r(1)]) (simp add: request_ok_def)
  then have "ALLOC_ALIGN (sz + sizeof_MemoryBlock) = of_nat (span sz)"
    by (simp flip: al)
  moreover have "span sz \<le> unat sz + hdr sz + 3"
    by (simp add: span_def)
  then have "unat (brk a) + span sz < 2 ^ LENGTH('w)"
    using ok r(6) unfolding request_ok_def word_le_nat_alt r(5) by linarith
  then have "unat (brk a + of_nat (span sz)) = unat (brk a) + span sz"
    by (subst unat_add_no_wrap) (simp_all add: unat_of_nat)
  ultimately show "region_malloc sz h =
      Some (if unat (memory_island_heap_end h) < unat (brk a) + span sz then (0, h)
        else (brk a + sizeof_MemoryBlock,
          h\<lparr>hmem := set_block_size (hmem h) (brk a) sz,
            memory_island_heap_start := brk a + of_nat (span sz)\<rparr>))"
    using walk_first_fit [OF r(8), of sz None] miss r(5)
    by (auto simp: region_malloc_def Let_def word_less_nat_alt)
qed

lemma malloc_simulation:
  fixes h :: "'w::len heap"
  assumes rel: "heap_rel base h a" and ok: "request_ok sz h"
    and abs: "abs_malloc (memory_island_heap_end h) sz a = (p, a')"
  shows "\<exists>h'. region_malloc sz h = Some (p, h') \<and> heap_rel base h' a'
    \<and> memory_island_heap_end h' = memory_island_heap_end h
    \<and> (\<forall>x. x \<notin> header_bytes a' \<longrightarrow> hmem h' x = hmem h x)"
proof (cases "first_fit (hmem h) sz None (free a)")
  case (Some pb)
  then obtain pr b where hit: "first_fit (hmem h) sz None (free a) = Some (pr, b)"
    by (cases pb) auto
  note m = malloc_hit [OF rel hit]
  have "p = b + sizeof_MemoryBlock" "a' = a\<lparr>free := remove1 b (free a)\<rparr>"
    using abs m(2) by (simp_all add: abs_malloc_def)
  moreover have "memory_island_heap_end (unlink pr b h) = memory_island_heap_end h"
    by (simp add: unlink_def split: option.splits)
  ultimately show ?thesis
    using m by (auto simp: header_bytes_def)
next
  case None
  note m = malloc_miss [OF rel ok None]
  show ?thesis
  proof (cases "unat (memory_island_heap_end h) < unat (brk a) + span sz")
    case True
    with m abs rel show ?thesis
      by (auto simp: abs_malloc_def)
  next
    case False
    then have c: "heap_rel base
      (h\<lparr>hmem := set_block_size (hmem h) (brk a) sz,
         memory_island_heap_start := brk a + of_nat (span sz)\<rparr>)
      (a\<lparr>blocks := blocks a @ [(brk a, sz)], brk := brk a + of_nat (span sz)\<rparr>)"
      by (intro carve_rel [OF rel ok]) simp
    moreover have "p = brk a + sizeof_MemoryBlock"
      and "a' = a\<lparr>blocks := blocks a @ [(brk a, sz)], brk := brk a + of_nat (span sz)\<rparr>"
      using abs m(1) False by (simp_all add: abs_malloc_def)
    ultimately show ?thesis
      using m(2) False heap_rel_frame(2) [OF c, of "brk a"] by auto
  qed
qed

subsection \<open>Clients and the allocator contract\<close>

text \<open>
  A client allocates, frees blocks it holds and stores bytes into blocks it holds; \<open>L\<close> is the
  set of blocks it holds, each a pointer with the size it asked for. \<open>allocator\<close> is the contract
  such a client relies on; what it proves from it is that its blocks never overlap and that
  nothing but its own stores changes their contents.
\<close>

datatype 'p client_op = Malloc 'p | Free 'p | Poke 'p u8

definition payload :: "'w::len word \<Rightarrow> nat \<Rightarrow> 'w word set" where
  "payload p n = {x. unat p \<le> unat x \<and> unat x < unat p + n}"

inductive client_run ::
  "('w::len word \<Rightarrow> 'h \<Rightarrow> ('w word \<times> 'h) option) \<Rightarrow> ('w word \<Rightarrow> 'h \<Rightarrow> 'h) \<Rightarrow>
   ('w word \<Rightarrow> u8 \<Rightarrow> 'h \<Rightarrow> 'h) \<Rightarrow> ('w word \<Rightarrow> 'h \<Rightarrow> bool) \<Rightarrow>
   'h \<Rightarrow> ('w word \<times> nat) set \<Rightarrow> 'w word client_op list \<Rightarrow> 'h \<Rightarrow> ('w word \<times> nat) set \<Rightarrow> bool"
  for mal fre pok ok where
  run_nil: "client_run mal fre pok ok h L [] h L"
| run_malloc: "ok sz h \<Longrightarrow> mal sz h = Some (p, h1) \<Longrightarrow>
    client_run mal fre pok ok h1 (if p = 0 then L else insert (p, unat sz) L) ops h2 L2 \<Longrightarrow>
    client_run mal fre pok ok h L (Malloc sz # ops) h2 L2"
| run_free: "(p, n) \<in> L \<Longrightarrow>
    client_run mal fre pok ok (fre p h) (L - {(p, n)}) ops h2 L2 \<Longrightarrow>
    client_run mal fre pok ok h L (Free p # ops) h2 L2"
| run_poke: "(p, n) \<in> L \<Longrightarrow> x \<in> payload p n \<Longrightarrow>
    client_run mal fre pok ok (pok x v h) L ops h2 L2 \<Longrightarrow>
    client_run mal fre pok ok h L (Poke x v # ops) h2 L2"

definition disjoint_blocks :: "('w::len word \<times> nat) set \<Rightarrow> bool" where
  "disjoint_blocks L \<longleftrightarrow> (\<forall>(p, n) \<in> L. \<forall>(q, k) \<in> L. p \<noteq> q \<longrightarrow> payload p n \<inter> payload q k = {})"

locale allocator =
  fixes inv :: "'h \<Rightarrow> ('w::len word \<times> nat) set \<Rightarrow> bool"
    and mal :: "'w word \<Rightarrow> 'h \<Rightarrow> ('w word \<times> 'h) option"
    and fre :: "'w word \<Rightarrow> 'h \<Rightarrow> 'h"
    and pok :: "'w word \<Rightarrow> u8 \<Rightarrow> 'h \<Rightarrow> 'h"
    and peek :: "'h \<Rightarrow> 'w word \<Rightarrow> u8"
    and ok :: "'w word \<Rightarrow> 'h \<Rightarrow> bool"
  assumes malloc_returns: "inv h L \<Longrightarrow> ok sz h \<Longrightarrow> \<exists>p h1. mal sz h = Some (p, h1)"
    and malloc_inv: "inv h L \<Longrightarrow> ok sz h \<Longrightarrow> mal sz h = Some (p, h1) \<Longrightarrow>
      inv h1 (if p = 0 then L else insert (p, unat sz) L)"
    and malloc_keeps: "inv h L \<Longrightarrow> ok sz h \<Longrightarrow> mal sz h = Some (p, h1) \<Longrightarrow>
      (q, k) \<in> L \<Longrightarrow> x \<in> payload q k \<Longrightarrow> peek h1 x = peek h x"
    and free_inv: "inv h L \<Longrightarrow> (p, n) \<in> L \<Longrightarrow> inv (fre p h) (L - {(p, n)})"
    and free_keeps: "inv h L \<Longrightarrow> (p, n) \<in> L \<Longrightarrow> (q, k) \<in> L \<Longrightarrow> x \<in> payload q k \<Longrightarrow>
      peek (fre p h) x = peek h x"
    and poke_inv: "inv h L \<Longrightarrow> (p, n) \<in> L \<Longrightarrow> x \<in> payload p n \<Longrightarrow> inv (pok x v h) L"
    and poke_peek: "peek (pok x v h) y = (if y = x then v else peek h y)"
    and inv_disjoint: "inv h L \<Longrightarrow> disjoint_blocks L"
begin

lemma run_inv: "client_run mal fre pok ok h L ops h2 L2 \<Longrightarrow> inv h L \<Longrightarrow> inv h2 L2"
  by (induction rule: client_run.induct) (auto dest: malloc_inv free_inv poke_inv)

lemma run_disjoint: "client_run mal fre pok ok h L ops h2 L2 \<Longrightarrow> inv h L \<Longrightarrow> disjoint_blocks L2"
  by (blast dest: run_inv inv_disjoint)

lemma run_returns:
  "client_run mal fre pok ok h L ops h2 L2 \<Longrightarrow> inv h L \<Longrightarrow> ok sz h2 \<Longrightarrow> \<exists>p h3. mal sz h2 = Some (p, h3)"
  by (blast dest: run_inv malloc_returns)

lemma run_keeps:
  "client_run mal fre pok ok h L ops h2 L2 \<Longrightarrow> inv h L \<Longrightarrow> (q, k) \<in> L \<Longrightarrow> Free q \<notin> set ops \<Longrightarrow>
    (\<forall>x v. Poke x v \<in> set ops \<longrightarrow> x \<notin> payload q k) \<Longrightarrow>
    (q, k) \<in> L2 \<and> (\<forall>x \<in> payload q k. peek h2 x = peek h x)"
proof (induction rule: client_run.induct)
  case (run_nil h L)
  then show ?case by simp
next
  case (run_malloc sz h p h1 L ops h2 L2)
  have "inv h1 (if p = 0 then L else insert (p, unat sz) L)"
    using run_malloc.prems(1) run_malloc.hyps(1,2) by (rule malloc_inv)
  with run_malloc show ?case
    using malloc_keeps [OF run_malloc.prems(1) run_malloc.hyps(1,2) run_malloc.prems(2)] by simp
next
  case (run_free p n L h ops h2 L2)
  have "inv (fre p h) (L - {(p, n)})"
    using run_free.prems(1) run_free.hyps(1) by (rule free_inv)
  with run_free show ?case
    using free_keeps [OF run_free.prems(1) run_free.hyps(1) run_free.prems(2)] by auto
next
  case (run_poke p n L x v h ops h2 L2)
  have "inv (pok x v h) L"
    using run_poke.prems(1) run_poke.hyps(1,2) by (rule poke_inv)
  moreover have "x \<notin> payload q k"
    using run_poke.prems(4) by auto
  moreover have "\<forall>x v. Poke x v \<in> set ops \<longrightarrow> x \<notin> payload q k"
    using run_poke.prems(4) by auto
  ultimately have "(q, k) \<in> L2 \<and> (\<forall>y \<in> payload q k. peek h2 y = peek (pok x v h) y)"
    using run_poke by simp
  with \<open>x \<notin> payload q k\<close> show ?case
    by (auto simp: poke_peek)
qed

end

subsection \<open>The code provides the contract\<close>

definition poke :: "'w::len word \<Rightarrow> u8 \<Rightarrow> 'w heap \<Rightarrow> 'w heap" where
  "poke x v h = h\<lparr>hmem := (hmem h)(x := v)\<rparr>"

definition live_rel :: "'w::len aheap \<Rightarrow> ('w word \<times> nat) set \<Rightarrow> bool" where
  "live_rel a L \<longleftrightarrow> (\<forall>(p, n) \<in> L. \<exists>b \<in> fst ` set (blocks a).
      b \<notin> set (free a) \<and> p = b + sizeof_MemoryBlock \<and> n \<le> unat (asize a b))
    \<and> (\<forall>(p, n) \<in> L. \<forall>(q, k) \<in> L. p = q \<longrightarrow> n = k)"

definition heap_inv :: "'w::len word \<Rightarrow> 'w word \<Rightarrow> 'w heap \<Rightarrow> ('w word \<times> nat) set \<Rightarrow> bool" where
  "heap_inv base lim h L \<longleftrightarrow>
    (\<exists>a. heap_rel base h a \<and> live_rel a L \<and> memory_island_heap_end h = lim)"

lemma live_relD:
  assumes "live_rel a L" and "(p, n) \<in> L"
  obtains b where "b \<in> fst ` set (blocks a)" "b \<notin> set (free a)" "p = b + sizeof_MemoryBlock"
    "n \<le> unat (asize a b)"
  using assms unfolding live_rel_def by blast

lemma live_payload_off_headers:
  assumes rel: "heap_rel base h (a :: 'w::len aheap)" and "live_rel a L" and "(p, n) \<in> L"
    and x: "x \<in> payload p n"
  shows "x \<notin> header_bytes a"
proof
  assume "x \<in> header_bytes a"
  then obtain c where c: "c \<in> fst ` set (blocks a)" "unat c \<le> unat x" "unat x < unat c + hdr c"
    unfolding header_bytes_def by auto
  from live_relD [OF assms(2,3)] obtain b where b: "b \<in> fst ` set (blocks a)"
    "p = b + sizeof_MemoryBlock" "n \<le> unat (asize a b)" by metis
  note bb = live_bounds [OF rel b(1)]
  have in_b: "unat b + hdr b \<le> unat x" "unat x < unat b + span (asize a b)"
    using x b bb unfolding payload_def by auto
  show False
  proof (cases "b = c")
    case False
    from heap_rel_sep(1) [OF rel b(1) c(1) this] span_ge [of "asize a c"] in_b c show False
      by auto
  qed (use in_b c in simp)
qed

lemma heap_inv_disjoint:
  assumes "heap_inv base lim h L"
  shows "disjoint_blocks L"
  unfolding disjoint_blocks_def
proof clarify
  fix p n q k
  assume L: "(p, n) \<in> L" "(q, k) \<in> L" "p \<noteq> q"
  from assms obtain a where rel: "heap_rel base h a" and live: "live_rel a L"
    unfolding heap_inv_def by blast
  from live_relD [OF live L(1)] obtain b where b: "b \<in> fst ` set (blocks a)"
    "p = b + sizeof_MemoryBlock" "n \<le> unat (asize a b)" by metis
  from live_relD [OF live L(2)] obtain c where c: "c \<in> fst ` set (blocks a)"
    "q = c + sizeof_MemoryBlock" "k \<le> unat (asize a c)" by metis
  have "b \<noteq> c" using L(3) b c by auto
  from heap_rel_sep(1) [OF rel b(1) c(1) this] live_bounds [OF rel b(1)] live_bounds [OF rel c(1)] b c
  show "payload p n \<inter> payload q k = {}"
    unfolding payload_def by auto
qed

lemma live_not_free:
  assumes "live_rel a L" and "c \<in> set (free a)"
  shows "c + sizeof_MemoryBlock \<notin> fst ` L"
  using assms unfolding live_rel_def by fastforce

lemma live_insert:
  assumes "live_rel a L" and "\<And>b. b \<in> fst ` set (blocks a) \<Longrightarrow>
      b \<in> fst ` set (blocks a') \<and> asize a' b = asize a b"
    and "set (free a') \<subseteq> set (free a)"
    and "b \<in> fst ` set (blocks a')" "b \<notin> set (free a')" "unat sz \<le> unat (asize a' b)"
    and "b + sizeof_MemoryBlock \<notin> fst ` L"
  shows "live_rel a' (insert (b + sizeof_MemoryBlock, unat sz) L)"
proof -
  have "\<exists>c \<in> fst ` set (blocks a'). c \<notin> set (free a') \<and> p = c + sizeof_MemoryBlock
      \<and> n \<le> unat (asize a' c)" if "(p, n) \<in> L" for p n
    using live_relD [OF assms(1) that] assms(2,3) by (metis in_mono)
  with assms(1,4-7) show ?thesis
    unfolding live_rel_def by (auto simp: image_iff)
qed

lemma live_reuse:
  fixes h :: "'w::len heap"
  assumes rel: "heap_rel base h a" and live: "live_rel a L" and b: "b \<in> set (free a)" "sz \<le> asize a b"
  shows "live_rel (a\<lparr>free := remove1 b (free a)\<rparr>) (insert (b + sizeof_MemoryBlock, unat sz) L)"
  using heap_relD(9,10) [OF rel] b live_not_free [OF live b(1)]
  by (intro live_insert [OF live]) (auto simp: asize_def word_le_nat_alt dest: set_remove1_subset [THEN subsetD])

lemma brk_fresh:
  fixes h :: "'w::len heap"
  assumes rel: "heap_rel base h a"
  shows "brk a \<notin> fst ` set (blocks a)"
proof
  assume "brk a \<in> fst ` set (blocks a)"
  from heap_rel_block(4) [OF rel this] span_pos [OF heap_relD(1) [OF rel], of "asize a (brk a)"]
  show False by simp
qed

lemma live_carve:
  fixes h :: "'w::len heap"
  assumes rel: "heap_rel base h a" and live: "live_rel a L"
  shows "live_rel (a\<lparr>blocks := blocks a @ [(brk a, sz)], brk := e\<rparr>)
    (insert (brk a + sizeof_MemoryBlock, unat sz) L)"
    and "brk a + sizeof_MemoryBlock \<notin> fst ` L"
proof -
  note fresh = brk_fresh [OF rel]
  show out: "brk a + sizeof_MemoryBlock \<notin> fst ` L"
  proof
    assume "brk a + sizeof_MemoryBlock \<in> fst ` L"
    then obtain n where "(brk a + sizeof_MemoryBlock, n) \<in> L" by auto
    from live_relD [OF live this] fresh show False by (metis add_right_cancel)
  qed
  let ?a = "a\<lparr>blocks := blocks a @ [(brk a, sz)], brk := e\<rparr>"
  have old: "asize ?a b = asize a b" if "b \<in> fst ` set (blocks a)" for b
  proof -
    from that obtain n where "map_of (blocks a) b = Some n"
      using map_of_eq_None_iff [of "blocks a" b] by (cases "map_of (blocks a) b") simp_all
    then show ?thesis by (simp add: asize_def map_add_def)
  qed
  have "map_of (blocks a) (brk a) = None"
    using fresh by (simp add: map_of_eq_None_iff)
  then have "asize ?a (brk a) = sz"
    by (simp add: asize_def map_add_def)
  with old out heap_relD(10) [OF rel] fresh show "live_rel ?a (insert (brk a + sizeof_MemoryBlock, unat sz) L)"
    by (intro live_insert [OF live]) auto
qed

lemma abs_malloc_cases:
  assumes "abs_malloc lim sz a = (p, a')"
  obtains "p = 0" "a' = a"
  | b where "b \<in> set (free a)" "sz \<le> asize a b" "p = b + sizeof_MemoryBlock"
      "a' = a\<lparr>free := remove1 b (free a)\<rparr>"
  | "p = brk a + sizeof_MemoryBlock"
      "a' = a\<lparr>blocks := blocks a @ [(brk a, sz)], brk := brk a + of_nat (span sz)\<rparr>"
proof (cases "find (\<lambda>b. sz \<le> asize a b) (free a)")
  case None
  with assms have "(if unat lim < unat (brk a) + span sz then (0, a)
      else (brk a + sizeof_MemoryBlock,
        a\<lparr>blocks := blocks a @ [(brk a, sz)], brk := brk a + of_nat (span sz)\<rparr>)) = (p, a')"
    by (simp add: abs_malloc_def)
  then show ?thesis
    by (cases "unat lim < unat (brk a) + span sz") (auto intro: that(1,3))
next
  case (Some b)
  then have "b \<in> set (free a)" "sz \<le> asize a b"
    by (auto simp: find_Some_iff)
  with Some assms that(2) show ?thesis
    by (simp add: abs_malloc_def)
qed

lemma heap_inv_malloc:
  fixes h :: "'w::len heap"
  assumes inv: "heap_inv base lim h L" and ok: "request_ok sz h"
    and mal: "region_malloc sz h = Some (p, h1)"
  shows "heap_inv base lim h1 (if p = 0 then L else insert (p, unat sz) L)"
    and "(q, k) \<in> L \<Longrightarrow> x \<in> payload q k \<Longrightarrow> hmem h1 x = hmem h x"
proof -
  from inv obtain a where rel: "heap_rel base h a" and live: "live_rel a L"
    and lim: "memory_island_heap_end h = lim"
    unfolding heap_inv_def by blast
  obtain p' a' where abs: "abs_malloc (memory_island_heap_end h) sz a = (p', a')"
    by (cases "abs_malloc (memory_island_heap_end h) sz a")
  from malloc_simulation [OF rel ok abs] mal
  have p': "p' = p" and rel': "heap_rel base h1 a'" and lim': "memory_island_heap_end h1 = lim"
    and frame: "\<And>x. x \<notin> header_bytes a' \<Longrightarrow> hmem h1 x = hmem h x"
    using lim by auto
  have live': "live_rel a' (if p = 0 then L else insert (p, unat sz) L)"
    using abs [unfolded p']
  proof (cases rule: abs_malloc_cases)
    case 1
    with live show ?thesis by simp
  next
    case (2 b)
    then have "b \<in> fst ` set (blocks a)"
      using heap_relD(10) [OF rel] by blast
    with 2 live_reuse [OF rel live 2(1,2)] ptr_nonzero [OF rel] show ?thesis by simp
  next
    case 3
    with live_carve(1) [OF rel live] ptr_nonzero [OF rel', of "brk a"] show ?thesis by simp
  qed
  with rel' lim' show "heap_inv base lim h1 (if p = 0 then L else insert (p, unat sz) L)"
    unfolding heap_inv_def by blast
  show "hmem h1 x = hmem h x" if "(q, k) \<in> L" "x \<in> payload q k"
    using that by (intro frame live_payload_off_headers [OF rel' live', of q k]) auto
qed

lemma live_remove:
  assumes live: "live_rel a L" and p: "(b + sizeof_MemoryBlock, n) \<in> L"
  shows "live_rel (a\<lparr>free := b # free a\<rparr>) (L - {(b + sizeof_MemoryBlock, n)})"
proof -
  have uniq: "q = p \<Longrightarrow> k = m" if "(q, k) \<in> L" "(p, m) \<in> L" for q k p m
    using live that unfolding live_rel_def by blast
  have "\<exists>c \<in> fst ` set (blocks a). c \<notin> set (b # free a) \<and> q = c + sizeof_MemoryBlock
      \<and> k \<le> unat (asize a c)" if q: "(q, k) \<in> L - {(b + sizeof_MemoryBlock, n)}" for q k
  proof -
    from q have "q \<noteq> b + sizeof_MemoryBlock" using uniq p by blast
    moreover from q have "(q, k) \<in> L" by blast
    ultimately show ?thesis
      using live_relD [OF live] by (metis set_ConsD)
  qed
  then show ?thesis
    unfolding live_rel_def using uniq by (auto simp: asize_def)
qed

lemma heap_inv_free:
  fixes h :: "'w::len heap"
  assumes inv: "heap_inv base lim h L" and p: "(p, n) \<in> L"
  shows "heap_inv base lim (region_free p h) (L - {(p, n)})"
    and "(q, k) \<in> L \<Longrightarrow> x \<in> payload q k \<Longrightarrow> hmem (region_free p h) x = hmem h x"
proof -
  from inv obtain a where rel: "heap_rel base h a" and live: "live_rel a L"
    and lim: "memory_island_heap_end h = lim"
    unfolding heap_inv_def by blast
  from live_relD [OF live p] obtain b where b: "b \<in> fst ` set (blocks a)" "b \<notin> set (free a)"
    and pb: "p = b + sizeof_MemoryBlock" by metis
  note rel' = free_rel(1) [OF rel b, folded pb]
  have nz: "p \<noteq> 0" using ptr_nonzero [OF rel b(1)] pb by simp
  have "live_rel (abs_free p a) (L - {(p, n)})"
    using live_remove [OF live, of b n] p pb nz by (simp add: abs_free_def)
  moreover have "memory_island_heap_end (region_free p h) = lim"
    using lim by (simp add: region_free_def Let_def)
  ultimately show "heap_inv base lim (region_free p h) (L - {(p, n)})"
    using rel' unfolding heap_inv_def by blast
  show "hmem (region_free p h) x = hmem h x" if "(q, k) \<in> L" "x \<in> payload q k"
    using heap_rel_frame(1) [OF rel b(1) live_payload_off_headers [OF rel live that]] nz pb
    by (simp add: region_free_def Let_def)
qed

lemma hdr_offset:
  fixes c q :: "'w::len word"
  assumes "i < hdr c" and "unat c + hdr c \<le> unat q"
  shows "unat (c + of_nat i) = unat c + i"
proof -
  have "unat c + hdr c < 2 ^ LENGTH('w)"
    using assms(2) unsigned_less by (rule le_less_trans)
  with assms(1) have "unat c + i < 2 ^ LENGTH('w)" by simp
  then show ?thesis
    by (simp add: unat_word_ariths unat_of_nat mod_simps)
qed

lemma heap_inv_poke:
  fixes h :: "'w::len heap"
  assumes inv: "heap_inv base lim h L" and p: "(p, n) \<in> L" "x \<in> payload p n"
  shows "heap_inv base lim (poke x v h) L"
proof -
  from inv obtain a where rel: "heap_rel base h a" and live: "live_rel a L"
    and lim: "memory_island_heap_end h = lim"
    unfolding heap_inv_def by blast
  have off: "x \<notin> header_bytes a"
    using live_payload_off_headers [OF rel live p] .
  have keep: "block_size (hmem (poke x v h)) c = block_size (hmem h) c"
      "block_next (hmem (poke x v h)) c = block_next (hmem h) c"
    if c: "c \<in> fst ` set (blocks a)" for c
  proof -
    note b = heap_rel_block(5) [OF rel c]
    have bytes: "poke_at = c + of_nat i \<Longrightarrow> poke_at \<in> header_bytes a" if "i < hdr c" for i poke_at
    proof -
      have "unat (c + of_nat i) = unat c + i"
        using that b by (rule hdr_offset)
      with that show "poke_at = c + of_nat i \<Longrightarrow> poke_at \<in> header_bytes a"
        unfolding header_bytes_def by (intro CollectI bexI [OF _ c]) simp
    qed
    show "block_next (hmem (poke x v h)) c = block_next (hmem h) c"
      unfolding block_next_def using off bytes
      by (intro load_word_cong) (auto simp: poke_def)
    show "block_size (hmem (poke x v h)) c = block_size (hmem h) c"
      unfolding block_size_def using off bytes [of "PB c + i" for i]
      by (intro load_word_cong) (auto simp: poke_def add.assoc)
  qed
  have "free_path (hmem (poke x v h)) (memory_island_freelist h) (free a)"
    using heap_relD(8,10) [OF rel] keep(2) free_path_cong [of "free a" "hmem (poke x v h)" "hmem h"]
    by blast
  with keep(1) heap_relD(9,10) [OF rel] have "heap_rel base (poke x v h) a"
    by (intro heap_rel_update [OF rel]) (simp_all add: poke_def)
  with live lim show ?thesis
    unfolding heap_inv_def by (auto simp: poke_def)
qed

interpretation island: allocator "heap_inv base lim" region_malloc region_free poke hmem
    "request_ok :: 'w::len word \<Rightarrow> 'w heap \<Rightarrow> bool" for base lim
proof
  fix h :: "'w heap" and L sz
  assume inv: "heap_inv base lim h L" and ok: "request_ok sz h"
  then obtain a where rel: "heap_rel base h a"
    unfolding heap_inv_def by blast
  show "\<exists>p h1. region_malloc sz h = Some (p, h1)"
    using malloc_simulation [OF rel ok] surjective_pairing by metis
qed (fact heap_inv_malloc heap_inv_free heap_inv_poke heap_inv_disjoint | simp add: poke_def)+

definition heap_initial :: "'w::len heap \<Rightarrow> bool" where
  "heap_initial h \<longleftrightarrow> xlen_ok TYPE('w) \<and> memory_island_heap_start h \<noteq> 0
    \<and> 4 dvd unat (memory_island_heap_start h)
    \<and> memory_island_heap_start h \<le> memory_island_heap_end h \<and> memory_island_freelist h = 0"

lemma heap_initial_inv:
  assumes "heap_initial h"
  shows "heap_inv (memory_island_heap_start h) (memory_island_heap_end h) h {}"
  unfolding heap_inv_def
proof (intro exI conjI)
  show "heap_rel (memory_island_heap_start h) h
      \<lparr>blocks = [], free = [], brk = memory_island_heap_start h\<rparr>"
    using assms by (simp add: heap_initial_def heap_rel_def)
qed (simp_all add: live_rel_def)

lemma heap_inv_ptr:
  assumes "heap_inv base lim h (L :: ('w::len word \<times> nat) set)" and "(p, n) \<in> L"
  obtains a b where "heap_rel base h a" "b \<in> fst ` set (blocks a)" "b \<notin> set (free a)"
    "p = b + sizeof_MemoryBlock" "p \<noteq> 0" "n \<le> unat (block_size (hmem h) b)" "b \<noteq> 0"
    "4 dvd unat p" "unat base < unat p" "unat p + n \<le> unat lim"
proof -
  from assms obtain a where rel: "heap_rel base h a" and live: "live_rel a L"
    and lim: "memory_island_heap_end h = lim"
    unfolding heap_inv_def by blast
  note r = heap_relD [OF rel]
  from live_relD [OF live assms(2)] obtain b where b: "b \<in> fst ` set (blocks a)" "b \<notin> set (free a)"
    "p = b + sizeof_MemoryBlock" "n \<le> unat (asize a b)" by metis
  note rb = heap_rel_block [OF rel b(1)]
  note u = live_bounds [OF rel b(1)]
  show ?thesis
  proof (rule that [OF rel b(1,2,3)])
    show "p \<noteq> 0" "b \<noteq> 0" using ptr_nonzero [OF rel b(1)] b(3) rb(2) by auto
    show "n \<le> unat (block_size (hmem h) b)" using b(4) rb(7) by simp
    show "4 dvd unat p" using u(1) b(3) rb(3) hdr_facts(1) [OF r(1)] by simp
    show "unat base < unat p" using u(1) b(3) rb(1) hdr_facts(2) [OF r(1)] by simp
    have "unat (brk a) \<le> unat lim"
      using r(5,6) lim by (simp add: word_le_nat_alt)
    with u(2) b(3,4) rb(4) show "unat p + n \<le> unat lim" by simp
  qed
qed

lemma region_malloc_empty:
  "memory_island_freelist h = 0 \<Longrightarrow> region_malloc sz h =
    (let total_size = ALLOC_ALIGN (sz + sizeof_MemoryBlock); b = memory_island_heap_start h in
     if b + total_size > memory_island_heap_end h then Some (0, h)
     else Some (b + sizeof_MemoryBlock,
       h\<lparr>hmem := set_block_size (hmem h) b sz, memory_island_heap_start := b + total_size\<rparr>))"
  by (simp add: region_malloc_def loop_walk Let_def)

lemma region_malloc_head:
  assumes "memory_island_freelist h = b" and "b \<noteq> 0" and "sz \<le> block_size (hmem h) b"
  shows "region_malloc sz h =
    Some (b + sizeof_MemoryBlock, h\<lparr>memory_island_freelist := block_next (hmem h) b\<rparr>)"
  using assms by (simp add: region_malloc_def loop_walk Let_def unlink_def)

subsection \<open>Properties\<close>


definition example_heap :: "32 heap" where
  "example_heap = \<lparr>hmem = (\<lambda>_. 0), memory_island_heap_start = 0x48000000,
     memory_island_heap_end = 0x48000040, memory_island_freelist = 0\<rparr>"

abbreviation example_heap1 :: "32 heap" where
  "example_heap1 \<equiv> example_heap\<lparr>hmem := set_block_size (hmem example_heap) 0x48000000 10,
    memory_island_heap_start := 0x48000014\<rparr>"

abbreviation example_heap2 :: "32 heap" where
  "example_heap2 \<equiv> example_heap1\<lparr>hmem := set_block_size (hmem example_heap1) 0x48000014 4,
    memory_island_heap_start := 0x48000020\<rparr>"

lemma example_step:
  "request_ok 10 example_heap" "region_malloc 10 example_heap = Some (0x48000008, example_heap1)"
  "request_ok 4 example_heap1" "region_malloc 4 example_heap1 = Some (0x4800001C, example_heap2)"
  by (simp_all add: request_ok_def region_malloc_empty example_heap_def ALLOC_ALIGN_def
      sizeof_MemoryBlock_def ptr_bytes_def)

lemma example_run1:
  "client_run region_malloc region_free poke request_ok example_heap {}
     [Malloc 10] example_heap1 {(0x48000008, 10)}"
  using run_nil
  by (intro run_malloc [where mal = region_malloc and ok = request_ok, OF example_step(1,2)]) simp

lemma example_run2:
  "client_run region_malloc region_free poke request_ok example_heap {}
     [Malloc 10, Malloc 4] example_heap2 {(0x4800001C, 4), (0x48000008, 10)}"
proof -
  have "client_run region_malloc region_free poke request_ok example_heap1 {(0x48000008, 10)}
      [Malloc 4] example_heap2 {(0x4800001C, 4), (0x48000008, 10)}"
    using run_nil
    by (intro run_malloc [where mal = region_malloc and ok = request_ok, OF example_step(3,4)]) simp
  then show ?thesis
    by (intro run_malloc [where mal = region_malloc and ok = request_ok, OF example_step(1,2)]) simp
qed

lemma example_initial: "heap_initial example_heap"
  by (simp add: heap_initial_def example_heap_def xlen_ok_def)


text \<open>C4: \<open>region_malloc\<close> refines the abstract first-fit allocator: on a well-formed heap and a
  request that does not overflow it returns, with the pointer the abstract one gives (NULL exactly
  when no free block is large enough and the bump pointer has no room), in a heap that represents
  the abstract result; only header bytes change.\<close>

theorem region_malloc_refines:
  fixes h :: "'w::len heap"
  assumes "heap_rel base h a" and "request_ok sz h"
  shows "\<exists>h'. region_malloc sz h = Some (fst (abs_malloc (memory_island_heap_end h) sz a), h')
    \<and> heap_rel base h' (snd (abs_malloc (memory_island_heap_end h) sz a))
    \<and> (\<forall>x. x \<notin> header_bytes (snd (abs_malloc (memory_island_heap_end h) sz a)) \<longrightarrow> hmem h' x = hmem h x)"
  using malloc_simulation [OF assms] surjective_pairing by blast

theorem region_malloc_refines_witness:
  "\<exists>h'. region_malloc 10 example_heap = Some (0x48000008, h')"
proof -
  have "heap_rel 0x48000000 example_heap \<lparr>blocks = [], free = [], brk = 0x48000000\<rparr>"
    by (simp add: heap_rel_def example_heap_def xlen_ok_def)
  from region_malloc_refines [OF this, of 10] show ?thesis
    by (simp add: request_ok_def example_heap_def ptr_bytes_def abs_malloc_def span_def
        sizeof_MemoryBlock_def) blast
qed






text \<open>Freeing a block and asking for at most its size gives the same pointer back, and
  leaves the free list and the bump pointer as they were before the free.\<close>

theorem free_then_malloc:
  assumes "heap_initial h0"
    and "client_run region_malloc region_free poke request_ok h0 {} ops h L"
    and "(p, n) \<in> L" and "unat sz \<le> n"
  shows "\<exists>m. region_malloc sz (region_free p h) = Some (p, h\<lparr>hmem := m\<rparr>)"
proof -
  have inv: "heap_inv (memory_island_heap_start h0) (memory_island_heap_end h0) h L"
    using island.run_inv [OF assms(2) heap_initial_inv [OF assms(1)]] .
  from heap_inv_ptr [OF inv assms(3)] obtain a b where rel: "heap_rel (memory_island_heap_start h0) h a"
    and b: "b \<in> fst ` set (blocks a)" "p = b + sizeof_MemoryBlock" "p \<noteq> 0" "b \<noteq> 0"
      "n \<le> unat (block_size (hmem h) b)"
    by metis
  note keep = heap_rel_set_next [OF rel b(1) b(1)]
  have "sz \<le> block_size (hmem h) b"
    using b(5) assms(4) by (simp add: word_le_nat_alt)
  with b keep show ?thesis
    by (subst region_malloc_head [of _ b]) (auto simp: region_free_def Let_def)
qed

text \<open>Freeing a block twice makes the free list a cycle, and a later request that the block
  cannot serve never returns.\<close>

theorem double_free_hangs:
  assumes "heap_initial h0"
    and "client_run region_malloc region_free poke request_ok h0 {} ops h L"
    and "(p, n) \<in> L" and "block_size (hmem h) (p - sizeof_MemoryBlock) < sz"
  shows "region_malloc sz (region_free p (region_free p h)) = None"
proof -
  have inv: "heap_inv (memory_island_heap_start h0) (memory_island_heap_end h0) h L"
    using island.run_inv [OF assms(2) heap_initial_inv [OF assms(1)]] .
  from heap_inv_ptr [OF inv assms(3)] obtain a b where rel: "heap_rel (memory_island_heap_start h0) h a"
    and b: "b \<in> fst ` set (blocks a)" "p = b + sizeof_MemoryBlock" "p \<noteq> 0" "b \<noteq> 0"
    by metis
  note x = heap_relD(1) [OF rel]
  let ?h = "region_free p (region_free p h)"
  have size: "\<not> sz \<le> block_size (hmem ?h) b"
    using assms(4) b block_size_set_next [OF x heap_rel_block(5) [OF rel b(1)]
        heap_rel_block(5) [OF rel b(1)] unsigned_less]
    by (simp add: region_free_def Let_def)
  have list: "memory_island_freelist ?h = b" and link: "block_next (hmem ?h) b = b"
    using b x by (simp_all add: region_free_def Let_def)
  have "loop (walk_body (hmem ?h) sz) (None, b) = None"
  proof (rule loop_diverges)
    show "snd (None, b) = b" by simp
    fix t :: "'a word option \<times> 'a word"
    assume "snd t = b"
    then show "\<exists>t'. walk_body (hmem ?h) sz t = Some (None, t') \<and> snd t' = b"
      using size link b(4) by (cases t) (auto simp: walk_body_def)
  qed
  with list show ?thesis by (simp add: region_malloc_def Let_def)
qed


theorem free_then_malloc_witness:
  "\<exists>m. region_malloc 8 (region_free 0x48000008 example_heap1) =
    Some (0x48000008, example_heap1\<lparr>hmem := m\<rparr>)"
  by (rule free_then_malloc [OF example_initial example_run1, of _ 10]) simp_all

theorem double_free_hangs_witness:
  "region_malloc 16 (region_free 0x48000008 (region_free 0x48000008 example_heap1)) = None"
  by (rule double_free_hangs [OF example_initial example_run1, of _ 10])
     (simp_all add: sizeof_MemoryBlock_def ptr_bytes_def xlen_ok_def)



end
