(* ===== verification/Mmio.thy ===== *)
theory Mmio
  imports Prelude
begin

section \<open>The bus: memory-mapped registers, control registers and their accesses\<close>

text \<open>
  The register helpers of \<open>host/runtime/inc/util.h\<close> and
  \<open>devices/snitch_cluster/runtime/util.h\<close> on a byte-addressed, little-endian memory. The
  hardware may change memory and the read-only control registers between any two accesses:
  an environment \<open>env\<close> says how, as a function of the number of accesses made so far, and
  every volatile access first lets it act (\<open>advance\<close>). Nothing is assumed of \<open>env\<close> here;
  a property that needs the hardware to keep a register states that as a hypothesis. The
  machine also records the accesses in order, so that properties can speak of their order.
\<close>

type_synonym memory = "addr \<Rightarrow> u8"

subsection \<open>Loads and stores\<close>

definition load32 :: "memory \<Rightarrow> addr \<Rightarrow> u32" where
  "load32 m a = ucast (m a) OR push_bit 8 (ucast (m (a + 1)))
     OR push_bit 16 (ucast (m (a + 2))) OR push_bit 24 (ucast (m (a + 3)))"

definition store32 :: "memory \<Rightarrow> addr \<Rightarrow> u32 \<Rightarrow> memory" where
  "store32 m a v = m(a := ucast v, a + 1 := ucast (drop_bit 8 v),
     a + 2 := ucast (drop_bit 16 v), a + 3 := ucast (drop_bit 24 v))"

definition store64 :: "memory \<Rightarrow> addr \<Rightarrow> u64 \<Rightarrow> memory" where
  "store64 m a v = store32 (store32 m a (ucast v)) (a + 4) (ucast (drop_bit 32 v))"

text \<open>Two 32-bit registers that share no byte.\<close>

definition sep32 :: "addr \<Rightarrow> addr \<Rightarrow> bool" where
  "sep32 a b \<longleftrightarrow> 4 \<le> a - b \<and> 4 \<le> b - a"

lemma sep32_sym: "sep32 a b \<Longrightarrow> sep32 b a"
  by (auto simp: sep32_def)

lemma sep32_base [simp]: "sep32 (base + x) (base + y) = sep32 x y"
  by (simp add: sep32_def)

lemma bytes_join:
  fixes v :: u32
  shows "ucast (ucast v :: u8) OR push_bit 8 (ucast (ucast (drop_bit 8 v) :: u8))
    OR push_bit 16 (ucast (ucast (drop_bit 16 v) :: u8))
    OR push_bit 24 (ucast (ucast (drop_bit 24 v) :: u8)) = v" (is "?l = v")
proof (rule bit_word_eqI)
  fix n
  assume "n < LENGTH(32)"
  then consider "n < 8" | "8 \<le> n" "n < 16" | "16 \<le> n" "n < 24" | "24 \<le> n" "n < 32"
    by fastforce
  then show "bit ?l n = bit v n"
    by cases (auto simp: bit_simps)
qed

lemma load32_store32_same [bus_simps]: "load32 (store32 m a v) a = v"
  unfolding load32_def store32_def by (simp add: bytes_join)

lemma word_offset_eq:
  fixes a b :: addr
  assumes "a + i = b + j"
  shows "a - b = j - i" and "b - a = i - j"
  using assms by (simp_all add: algebra_simps)

lemma sep32_bytes:
  assumes "sep32 a b" and "i \<in> {0, 1, 2, 3}" and "j \<in> {0, 1, 2, 3}"
  shows "a + i \<noteq> b + j"
proof
  assume "a + i = b + j"
  then have "a - b = j - i" and "b - a = i - j"
    by (rule word_offset_eq)+
  with assms show False
    by (auto simp: sep32_def word_le_nat_alt)
qed

lemma sep32_of_nat:
  assumes "x + 4 \<le> y" and "y < 2 ^ 31"
  shows "sep32 (of_nat x) (of_nat y)"
  using assms by (auto simp: sep32_def word_le_nat_alt unat_sub_if' unat_of_nat)

text \<open>Registers at increasing offsets, four bytes apart, are pairwise separate.\<close>

lemma sorted_sep32:
  assumes "sorted_wrt (\<lambda>x y. x + 4 \<le> y) ns" and "\<forall>n \<in> set ns. n < 2 ^ 31"
  shows "sorted_wrt sep32 (map of_nat ns)"
proof -
  have "sorted_wrt (\<lambda>x y. sep32 (of_nat x) (of_nat y)) ns"
    using assms by (induction ns) (auto intro: sep32_of_nat)
  then show ?thesis by (simp add: sorted_wrt_map)
qed

lemma load32_store32_sep [bus_simps]:
  assumes "sep32 a b"
  shows "load32 (store32 m b v) a = load32 m a"
  using sep32_bytes [OF assms, of 0 0] sep32_bytes [OF assms, of 0 1]
    sep32_bytes [OF assms, of 0 2] sep32_bytes [OF assms, of 0 3]
    sep32_bytes [OF assms, of 1 0] sep32_bytes [OF assms, of 1 1]
    sep32_bytes [OF assms, of 1 2] sep32_bytes [OF assms, of 1 3]
    sep32_bytes [OF assms, of 2 0] sep32_bytes [OF assms, of 2 1]
    sep32_bytes [OF assms, of 2 2] sep32_bytes [OF assms, of 2 3]
    sep32_bytes [OF assms, of 3 0] sep32_bytes [OF assms, of 3 1]
    sep32_bytes [OF assms, of 3 2] sep32_bytes [OF assms, of 3 3]
  unfolding load32_def store32_def by simp

definition store8 :: "memory \<Rightarrow> addr \<Rightarrow> u8 \<Rightarrow> memory" where
  "store8 m a v = m(a := v)"

subsection \<open>The machine and its environment\<close>

text \<open>
  \<open>hw_state\<close> is what the hardware can change on its own; \<open>mip\<close> and \<open>mcycle\<close> are the
  read-only control registers the runtime reads.
\<close>

record hw_state =
  mem :: memory
  mip :: u64
  mcycle :: u64

type_synonym env = "nat \<Rightarrow> hw_state \<Rightarrow> hw_state"

datatype csr = MIE | MIP | MSTATUS | MCYCLE

datatype event =
    Load8 addr u8 | Load32 addr u32
  | Store8 addr u8 | Store32 addr u32 | Store64 addr u64
  | CsrRead csr u64 | CsrSet csr u64 | CsrClear csr u64
  | Fence | FenceI | Wfi | Nops nat

record machine =
  hw :: hw_state
  mie :: u64
  mstatus :: u64
  now :: nat
  trace :: "event list"

definition advance :: "env \<Rightarrow> machine \<Rightarrow> machine" where
  "advance env s = s\<lparr>hw := env (now s) (hw s), now := Suc (now s)\<rparr>"

definition emit :: "event \<Rightarrow> machine \<Rightarrow> machine" where
  "emit e s = s\<lparr>trace := trace s @ [e]\<rparr>"

definition peek32 :: "machine \<Rightarrow> addr \<Rightarrow> u32" where
  "peek32 s a = load32 (mem (hw s)) a"

lemma advance_sel [simp]:
  "hw (advance env s) = env (now s) (hw s)"
  "now (advance env s) = Suc (now s)"
  "trace (advance env s) = trace s"
  "mie (advance env s) = mie s"
  "mstatus (advance env s) = mstatus s"
  by (simp_all add: advance_def)

lemma emit_sel [simp]:
  "hw (emit e s) = hw s"
  "now (emit e s) = now s"
  "trace (emit e s) = trace s @ [e]"
  "mie (emit e s) = mie s"
  "mstatus (emit e s) = mstatus s"
  by (simp_all add: emit_def)

subsection \<open>Volatile accesses\<close>

definition rd32 :: "env \<Rightarrow> addr \<Rightarrow> machine \<Rightarrow> u32 \<times> machine" where
  "rd32 env a s = (let s1 = advance env s; v = load32 (mem (hw s1)) a in (v, emit (Load32 a v) s1))"

definition wr32 :: "env \<Rightarrow> addr \<Rightarrow> u32 \<Rightarrow> machine \<Rightarrow> machine" where
  "wr32 env a v s = (let s1 = advance env s in
     emit (Store32 a v) (s1\<lparr>hw := (hw s1)\<lparr>mem := store32 (mem (hw s1)) a v\<rparr>\<rparr>))"

definition wr64 :: "env \<Rightarrow> addr \<Rightarrow> u64 \<Rightarrow> machine \<Rightarrow> machine" where
  "wr64 env a v s = (let s1 = advance env s in
     emit (Store64 a v) (s1\<lparr>hw := (hw s1)\<lparr>mem := store64 (mem (hw s1)) a v\<rparr>\<rparr>))"

definition rd8 :: "env \<Rightarrow> addr \<Rightarrow> machine \<Rightarrow> u8 \<times> machine" where
  "rd8 env a s = (let s1 = advance env s; v = mem (hw s1) a in (v, emit (Load8 a v) s1))"

definition wr8 :: "env \<Rightarrow> addr \<Rightarrow> u8 \<Rightarrow> machine \<Rightarrow> machine" where
  "wr8 env a v s = (let s1 = advance env s in
     emit (Store8 a v) (s1\<lparr>hw := (hw s1)\<lparr>mem := store8 (mem (hw s1)) a v\<rparr>\<rparr>))"

subsection \<open>Register helpers of util.h\<close>

text \<open>
  \<open>reg32\<close> computes \<open>base + offs\<close>; the offset is a C \<open>int\<close>, whose conversion to the
  address width is the wrap-around of the sum. \<open>reg8\<close> does the same with a 32-bit base.
\<close>

definition reg32 :: "addr \<Rightarrow> addr \<Rightarrow> addr" where
  "reg32 base offs = base + offs"

definition reg8 :: "addr \<Rightarrow> addr \<Rightarrow> addr" where
  "reg8 base offset = base + offset"

definition reg8_write :: "env \<Rightarrow> addr \<Rightarrow> addr \<Rightarrow> u8 \<Rightarrow> machine \<Rightarrow> machine" where
  "reg8_write env base offset val s = wr8 env (reg8 base offset) val s"

definition reg8_read :: "env \<Rightarrow> addr \<Rightarrow> addr \<Rightarrow> machine \<Rightarrow> u8 \<times> machine" where
  "reg8_read env base offset s = rd8 env (reg8 base offset) s"

definition fence :: "env \<Rightarrow> machine \<Rightarrow> machine" where
  "fence env s = emit Fence (advance env s)"

definition fencei :: "env \<Rightarrow> machine \<Rightarrow> machine" where
  "fencei env s = emit FenceI (advance env s)"

text \<open>\<open>wfi\<close> may resume at any time; when it does the environment has acted.\<close>

definition wfi :: "env \<Rightarrow> machine \<Rightarrow> machine" where
  "wfi env s = emit Wfi (advance env s)"

definition set_mtie :: "env \<Rightarrow> bool \<Rightarrow> machine \<Rightarrow> machine" where
  "set_mtie env enable s = (let s1 = advance env s in
     if enable then emit (CsrSet MIE 128) (s1\<lparr>mie := mie s1 OR 128\<rparr>)
     else emit (CsrClear MIE 128) (s1\<lparr>mie := mie s1 AND NOT 128\<rparr>))"

definition get_mip :: "env \<Rightarrow> machine \<Rightarrow> u32 \<times> machine" where
  "get_mip env s = (let s1 = advance env s; v = mip (hw s1) in (ucast v, emit (CsrRead MIP v) s1))"

definition set_mie :: "env \<Rightarrow> bool \<Rightarrow> machine \<Rightarrow> machine" where
  "set_mie env enable s = (let s1 = advance env s in
     if enable then emit (CsrSet MSTATUS 8) (s1\<lparr>mstatus := mstatus s1 OR 8\<rparr>)
     else emit (CsrClear MSTATUS 8) (s1\<lparr>mstatus := mstatus s1 AND NOT 8\<rparr>))"

definition get_mcycle :: "env \<Rightarrow> machine \<Rightarrow> u32 \<times> machine" where
  "get_mcycle env s =
     (let s1 = advance env s; v = mcycle (hw s1) in (ucast v, emit (CsrRead MCYCLE v) s1))"

text \<open>A delay loop of \<open>n\<close> \<open>nop\<close> instructions.\<close>

definition nops :: "env \<Rightarrow> nat \<Rightarrow> machine \<Rightarrow> machine" where
  "nops env n s = emit (Nops n) (advance env s)"

text \<open>\<open>invoke\<close> calls a function of the machine after a \<open>fence.i\<close>. \<open>gprw\<close> gives the previous value of
  the global pointer and the value it leaves in the register. The \<open>CHECK\<close> macros return early from
  their caller, whose rest is their last argument.\<close>

definition invoke :: "env \<Rightarrow> (machine \<Rightarrow> (u32 \<times> machine) option) \<Rightarrow> machine \<Rightarrow> (u32 \<times> machine) option" where
  "invoke env code_fun_ptr s = code_fun_ptr (fencei env s)"

definition gprw :: "'w::len word \<Rightarrow> 'w word \<Rightarrow> 'w word \<times> 'w word" where
  "gprw gp gp_register = (gp_register, if gp \<noteq> 0 then gp else gp_register)"

definition CHECK_CALL :: "int \<times> 's \<Rightarrow> ('s \<Rightarrow> int \<times> 's) \<Rightarrow> int \<times> 's" where
  "CHECK_CALL call rest = (case call of (ccret, s) \<Rightarrow> if ccret \<noteq> 0 then (ccret, s) else rest s)"

definition CHECK_ASSERT :: "'r \<Rightarrow> bool \<Rightarrow> 'r \<Rightarrow> 'r" where
  "CHECK_ASSERT ret cond rest = (if \<not> cond then ret else rest)"

definition MIN2 :: "'a::linorder \<Rightarrow> 'a \<Rightarrow> 'a" where
  "MIN2 a b = (if a < b then a else b)"

definition MAX2 :: "'a::linorder \<Rightarrow> 'a \<Rightarrow> 'a" where
  "MAX2 a b = (if a > b then a else b)"

lemma MIN2_min: "MIN2 a b = min a b" "MAX2 a b = max a b"
  by (auto simp: MIN2_def MAX2_def min_def max_def)

lemma gprw_restore:
  assumes "gp_register \<noteq> 0"
  shows "snd (gprw (fst (gprw gp gp_register)) (snd (gprw gp gp_register))) = gp_register"
  using assms by (simp add: gprw_def)

lemma CHECK_CALL_assoc:
  "CHECK_CALL (CHECK_CALL call f) g = CHECK_CALL call (\<lambda>s. CHECK_CALL (f s) g)"
  by (simp add: CHECK_CALL_def split: prod.split)

subsection \<open>Accesses without and with time\<close>

lemma rd32_eq:
  "rd32 env a s = (load32 (mem (env (now s) (hw s))) a,
     emit (Load32 a (load32 (mem (env (now s) (hw s))) a)) (advance env s))"
  by (simp add: rd32_def Let_def)

lemma fst_rd32 [simp]: "fst (rd32 env a s) = load32 (mem (env (now s) (hw s))) a"
  by (simp add: rd32_eq)

lemma snd_rd32_sel [simp]:
  "hw (snd (rd32 env a s)) = env (now s) (hw s)"
  "now (snd (rd32 env a s)) = Suc (now s)"
  "trace (snd (rd32 env a s)) = trace s @ [Load32 a (load32 (mem (env (now s) (hw s))) a)]"
  "mie (snd (rd32 env a s)) = mie s"
  "mstatus (snd (rd32 env a s)) = mstatus s"
  by (simp_all add: rd32_eq)

lemma wr32_sel [simp]:
  "hw (wr32 env a v s) = (let h = env (now s) (hw s) in h\<lparr>mem := store32 (mem h) a v\<rparr>)"
  "now (wr32 env a v s) = Suc (now s)"
  "trace (wr32 env a v s) = trace s @ [Store32 a v]"
  "mie (wr32 env a v s) = mie s"
  "mstatus (wr32 env a v s) = mstatus s"
  by (simp_all add: wr32_def Let_def)

lemma wr64_sel [simp]:
  "hw (wr64 env a v' s) = (let h = env (now s) (hw s) in h\<lparr>mem := store64 (mem h) a v'\<rparr>)"
  "now (wr64 env a v' s) = Suc (now s)"
  "trace (wr64 env a v' s) = trace s @ [Store64 a v']"
  "mie (wr64 env a v' s) = mie s"
  "mstatus (wr64 env a v' s) = mstatus s"
  by (simp_all add: wr64_def Let_def)

lemma fst_rd8 [simp]: "fst (rd8 env a s) = mem (env (now s) (hw s)) a"
  by (simp add: rd8_def Let_def)

lemma snd_rd8_sel [simp]:
  "hw (snd (rd8 env a s)) = env (now s) (hw s)"
  "now (snd (rd8 env a s)) = Suc (now s)"
  "trace (snd (rd8 env a s)) = trace s @ [Load8 a (mem (env (now s) (hw s)) a)]"
  by (simp_all add: rd8_def Let_def)

lemma wr8_sel [simp]:
  "hw (wr8 env a b s) = (let h = env (now s) (hw s) in h\<lparr>mem := store8 (mem h) a b\<rparr>)"
  "now (wr8 env a b s) = Suc (now s)"
  "trace (wr8 env a b s) = trace s @ [Store8 a b]"
  by (simp_all add: wr8_def Let_def)

lemma fence_sel [simp]:
  "hw (fence env s) = env (now s) (hw s)"
  "now (fence env s) = Suc (now s)"
  "trace (fence env s) = trace s @ [Fence]"
  "mie (fence env s) = mie s"
  "mstatus (fence env s) = mstatus s"
  by (simp_all add: fence_def)

lemma wfi_sel [simp]:
  "hw (wfi env s) = env (now s) (hw s)"
  "now (wfi env s) = Suc (now s)"
  "trace (wfi env s) = trace s @ [Wfi]"
  "mie (wfi env s) = mie s"
  "mstatus (wfi env s) = mstatus s"
  by (simp_all add: wfi_def)

lemma set_mtie_sel [simp]:
  "hw (set_mtie env b s) = env (now s) (hw s)"
  "now (set_mtie env b s) = Suc (now s)"
  "trace (set_mtie env b s) = trace s @ [if b then CsrSet MIE 128 else CsrClear MIE 128]"
  "mie (set_mtie env b s) = (if b then mie s OR 128 else mie s AND NOT 128)"
  "mstatus (set_mtie env b s) = mstatus s"
  by (simp_all add: set_mtie_def Let_def)

lemma set_mie_sel [simp]:
  "hw (set_mie env b s) = env (now s) (hw s)"
  "now (set_mie env b s) = Suc (now s)"
  "trace (set_mie env b s) = trace s @ [if b then CsrSet MSTATUS 8 else CsrClear MSTATUS 8]"
  "mie (set_mie env b s) = mie s"
  "mstatus (set_mie env b s) = (if b then mstatus s OR 8 else mstatus s AND NOT 8)"
  by (simp_all add: set_mie_def Let_def)

lemma get_mcycle_sel [simp]:
  "fst (get_mcycle env s) = ucast (mcycle (env (now s) (hw s)))"
  "hw (snd (get_mcycle env s)) = env (now s) (hw s)"
  "now (snd (get_mcycle env s)) = Suc (now s)"
  by (simp_all add: get_mcycle_def Let_def)

lemma get_mip_sel [simp]:
  "fst (get_mip env s) = ucast (mip (env (now s) (hw s)))"
  "hw (snd (get_mip env s)) = env (now s) (hw s)"
  "now (snd (get_mip env s)) = Suc (now s)"
  "mie (snd (get_mip env s)) = mie s"
  by (simp_all add: get_mip_def Let_def)

text \<open>The hardware leaves the 32-bit registers of a region alone.\<close>

definition env_holds :: "env \<Rightarrow> addr set \<Rightarrow> bool" where
  "env_holds env R \<longleftrightarrow> (\<forall>n h. \<forall>a\<in>R. load32 (mem (env n h)) a = load32 (mem h) a)"

definition quiet_env :: env where
  "quiet_env n h = h"

lemma env_holdsD: "env_holds env R \<Longrightarrow> a \<in> R \<Longrightarrow> load32 (mem (env n h)) a = load32 (mem h) a"
  by (simp add: env_holds_def)

lemma env_holds_quiet [simp]: "env_holds quiet_env R"
  by (simp add: env_holds_def quiet_env_def)

lemma env_holds_mono: "env_holds env R \<Longrightarrow> S \<subseteq> R \<Longrightarrow> env_holds env S"
  by (auto simp: env_holds_def)

lemma peek32_wr32_same [bus_simps]: "peek32 (wr32 env a v s) a = v"
  by (simp add: peek32_def Let_def load32_store32_same)

lemma peek32_wr32_sep [bus_simps]:
  assumes "env_holds env R" and "a \<in> R" and "sep32 a b"
  shows "peek32 (wr32 env b v s) a = peek32 s a"
  using assms by (simp add: peek32_def Let_def load32_store32_sep env_holdsD)

lemma rd32_held [bus_simps]:
  assumes "env_holds env R" and "a \<in> R"
  shows "fst (rd32 env a s) = peek32 s a" and "peek32 (snd (rd32 env b s)) a = peek32 s a"
  using assms by (simp_all add: peek32_def env_holdsD)

lemma fence_held [bus_simps]:
  assumes "env_holds env R" and "a \<in> R"
  shows "peek32 (fence env s) a = peek32 s a"
  using assms by (simp add: peek32_def env_holdsD)

text \<open>A machine whose memory and control registers are all zero.\<close>

definition boot :: machine where
  "boot = \<lparr>hw = \<lparr>mem = (\<lambda>_. 0), mip = 0, mcycle = 0\<rparr>, mie = 0, mstatus = 0, now = 0, trace = []\<rparr>"

text \<open>An environment that leaves single bytes alone.\<close>

definition env_keeps :: "env \<Rightarrow> addr set \<Rightarrow> bool" where
  "env_keeps env B \<longleftrightarrow> (\<forall>n h. \<forall>a\<in>B. mem (env n h) a = mem h a)"

lemma env_keeps_quiet [simp]: "env_keeps quiet_env B"
  by (simp add: env_keeps_def quiet_env_def)

lemma store32_other: "4 \<le> x - a \<Longrightarrow> store32 m a v x = m x"
  by (auto simp: store32_def word_le_nat_alt)

lemma keep_byte:
  assumes "env_keeps env B" and "x \<in> B"
  shows "4 \<le> x - a \<Longrightarrow> mem (hw (wr32 env a v s)) x = mem (hw s) x"
    and "x \<noteq> a \<Longrightarrow> mem (hw (wr8 env a c s)) x = mem (hw s) x"
    and "mem (hw (snd (rd32 env a s))) x = mem (hw s) x"
  using assms by (auto simp: env_keeps_def Let_def store32_other store8_def)

end
