(* ===== verification/Bus.thy ===== *)
theory Bus
  imports Mmio Loops
begin

section \<open>The register-bus contract and polling loops\<close>

text \<open>
  What a driver relies on when it programs registers: \<open>reg_bus\<close> states the laws of a
  register file (a register reads back what was written; writing another one leaves it), and
  its lemmas speak of whole sequences of register writes. The plain memory provides it, and so
  does a machine whose environment leaves the driver's registers alone. The second half holds
  the busy-wait loop \<open>while (!cond(*reg)) ;\<close> that most drivers use, with the lemmas that say
  when it returns and what it has done by then.
\<close>

subsection \<open>Register files\<close>

locale reg_bus =
  fixes rd :: "'s \<Rightarrow> addr \<Rightarrow> u32"
    and wr :: "addr \<Rightarrow> u32 \<Rightarrow> 's \<Rightarrow> 's"
    and R :: "addr set"
  assumes rd_wr_same: "rd (wr a v s) a = v"
    and rd_wr_sep: "a \<in> R \<Longrightarrow> sep32 a b \<Longrightarrow> rd (wr b v s) a = rd s a"
begin

definition wr_list :: "(addr \<times> u32) list \<Rightarrow> 's \<Rightarrow> 's" where
  "wr_list ws s = fold (\<lambda>(a, v). wr a v) ws s"

lemma wr_list_simps [simp]:
  "wr_list [] s = s"
  "wr_list ((a, v) # ws) s = wr_list ws (wr a v s)"
  by (simp_all add: wr_list_def)

lemma rd_wr_list_sep:
  "a \<in> R \<Longrightarrow> \<forall>b \<in> fst ` set ws. sep32 a b \<Longrightarrow> rd (wr_list ws s) a = rd s a"
  by (induction ws arbitrary: s) (auto simp: rd_wr_sep)

lemma rd_wr_list_in:
  "sorted_wrt (\<lambda>p q. sep32 (fst p) (fst q)) ws \<Longrightarrow> fst ` set ws \<subseteq> R \<Longrightarrow> (a, v) \<in> set ws
    \<Longrightarrow> rd (wr_list ws s) a = v"
proof (induction ws arbitrary: s)
  case Nil
  then show ?case by simp
next
  case (Cons w ws)
  obtain b u where w: "w = (b, u)" by (cases w)
  show ?case
  proof (cases "(a, v) \<in> set ws")
    case True
    with Cons w show ?thesis by auto
  next
    case False
    with Cons.prems w have "a = b" "v = u" by auto
    moreover have "rd (wr_list ws (wr b u s)) b = rd (wr b u s) b"
      using Cons.prems w by (intro rd_wr_list_sep) auto
    ultimately show ?thesis
      by (simp add: w rd_wr_same)
  qed
qed

lemma rd_wr_list_last:
  "a \<in> R \<Longrightarrow> \<forall>b \<in> fst ` set ws. sep32 a b \<Longrightarrow> rd (wr_list ((a, v) # ws) s) a = v"
  by (simp add: rd_wr_list_sep rd_wr_same)

end

interpretation mem_bus: reg_bus load32 "\<lambda>a v m. store32 m a v" UNIV
  by unfold_locales (simp_all add: bus_simps)

text \<open>
  \<open>hold R env\<close> is the environment \<open>env\<close> with the registers of \<open>R\<close> left alone; an
  environment that holds them already is unchanged by it.
\<close>

definition bytes_of :: "addr set \<Rightarrow> addr set" where
  "bytes_of R = R \<union> (\<lambda>a. a + 1) ` R \<union> (\<lambda>a. a + 2) ` R \<union> (\<lambda>a. a + 3) ` R"

definition hold :: "addr set \<Rightarrow> env \<Rightarrow> env" where
  "hold R env n h = (env n h)\<lparr>mem := \<lambda>x. if x \<in> bytes_of R then mem h x else mem (env n h) x\<rparr>"

lemma hold_holds [simp]: "env_holds (hold R env) R"
  by (auto simp: env_holds_def hold_def bytes_of_def load32_def)

interpretation held: reg_bus peek32 "wr32 (hold R env)" R for R env
  by unfold_locales (auto simp: bus_simps peek32_wr32_sep [OF hold_holds])

lemma load32_byte:
  "m a = ucast (load32 m a)"
  "m (a + 1) = ucast (drop_bit 8 (load32 m a))"
  "m (a + 2) = ucast (drop_bit 16 (load32 m a))"
  "m (a + 3) = ucast (drop_bit 24 (load32 m a))"
  by (rule bit_word_eqI; auto simp: load32_def bit_simps dest: bit_imp_le_length)+

lemma load32_eqD:
  assumes "load32 m a = load32 m' a"
  shows "m a = m' a" "m (a + 1) = m' (a + 1)" "m (a + 2) = m' (a + 2)" "m (a + 3) = m' (a + 3)"
  using load32_byte [of m a] load32_byte [of m' a] assms by simp_all

lemma hold_id: "env_holds env R \<Longrightarrow> hold R env = env"
proof (intro ext)
  fix n h
  assume held: "env_holds env R"
  have "mem (env n h) x = mem h x" if "x \<in> bytes_of R" for x
    using that unfolding bytes_of_def by (auto dest: load32_eqD [OF env_holdsD [OF held]])
  then show "hold R env n h = env n h"
    unfolding hold_def by (auto intro!: hw_state.equality)
qed

lemma reg_bus_held: "env_holds env R \<Longrightarrow> reg_bus peek32 (wr32 env) R"
  using held.reg_bus_axioms [of R env] by (simp add: hold_id)

subsection \<open>Busy-wait loops\<close>

text \<open>
  \<open>poll32 env a P\<close> is \<open>while (!P(*a)) ;\<close>: it reads the register until the value
  satisfies \<open>P\<close>. A loop that never ends is the value \<open>None\<close>.
\<close>

definition poll_body :: "env \<Rightarrow> addr \<Rightarrow> (u32 \<Rightarrow> bool) \<Rightarrow> machine \<Rightarrow> (u32 option \<times> machine) option" where
  "poll_body env a P s = (let (v, s1) = rd32 env a s in Some (if P v then Some v else None, s1))"

definition poll32 :: "env \<Rightarrow> addr \<Rightarrow> (u32 \<Rightarrow> bool) \<Rightarrow> machine \<Rightarrow> (u32 \<times> machine) option" where
  "poll32 env a P s = loop (poll_body env a P) s"

text \<open>The state after \<open>k\<close> reads, and what the hardware has made of itself by then.\<close>

primrec reads32 :: "env \<Rightarrow> addr \<Rightarrow> nat \<Rightarrow> machine \<Rightarrow> machine" where
  "reads32 env a 0 s = s"
| "reads32 env a (Suc k) s = reads32 env a k (snd (rd32 env a s))"

primrec hw_at :: "env \<Rightarrow> nat \<Rightarrow> hw_state \<Rightarrow> nat \<Rightarrow> hw_state" where
  "hw_at env n h 0 = h"
| "hw_at env n h (Suc k) = hw_at env (Suc n) (env n h) k"

definition reg_at :: "env \<Rightarrow> machine \<Rightarrow> addr \<Rightarrow> nat \<Rightarrow> u32" where
  "reg_at env s a k = load32 (mem (hw_at env (now s) (hw s) (Suc k))) a"

lemma reads32_sel [simp]:
  "hw (reads32 env a k s) = hw_at env (now s) (hw s) k"
  "now (reads32 env a k s) = now s + k"
  by (induction k arbitrary: s) simp_all

lemma reads32_mie [simp]:
  "mie (reads32 env a k s) = mie s" "mstatus (reads32 env a k s) = mstatus s"
  by (induction k arbitrary: s) simp_all

lemma reads32_trace: "\<exists>ls. trace (reads32 env a k s) = trace s @ ls \<and> (\<forall>e\<in>set ls. \<exists>v. e = Load32 a v)"
proof (induction k arbitrary: s)
  case 0
  then show ?case by simp
next
  case (Suc k)
  from Suc.IH [of "snd (rd32 env a s)"] obtain ls
    where "trace (reads32 env a k (snd (rd32 env a s))) =
        trace s @ Load32 a (fst (rd32 env a s)) # ls"
      and "\<forall>e\<in>set ls. \<exists>v. e = Load32 a v"
    by auto
  then show ?case
    by (intro exI [of _ "Load32 a (fst (rd32 env a s)) # ls"]) simp
qed

lemma hw_at_Suc: "hw_at env n h (Suc k) = env (n + k) (hw_at env n h k)"
  by (induction k arbitrary: n h) simp_all

lemma reg_at_Suc: "reg_at env s a (Suc k) = reg_at env (snd (rd32 env a s)) a k"
  by (simp add: reg_at_def)

lemma reg_at_0: "reg_at env s a 0 = fst (rd32 env a s)"
  by (simp add: reg_at_def)

lemma poll_body_eq:
  "poll_body env a P s =
    Some (if P (reg_at env s a 0) then Some (reg_at env s a 0) else None, snd (rd32 env a s))"
  by (simp add: poll_body_def split_beta reg_at_0)

lemma iter_poll_iff:
  "iter (poll_body env a P) k s = Some s1 \<longleftrightarrow>
    (\<forall>i<k. \<not> P (reg_at env s a i)) \<and> s1 = reads32 env a k s"
  by (induction k arbitrary: s)
    (auto simp: poll_body_eq less_Suc_eq_0_disj simp flip: reg_at_Suc)

lemma reg_at_reads32: "reg_at env (reads32 env a k s) a 0 = reg_at env s a k"
  by (induction k arbitrary: s) (simp_all add: reg_at_Suc)

lemma reads32_Suc: "reads32 env a (Suc k) s = snd (rd32 env a (reads32 env a k s))"
  by (induction k arbitrary: s) simp_all

lemma poll32_Some_iff:
  "poll32 env a P s = Some (v, s') \<longleftrightarrow>
    (\<exists>k. P (reg_at env s a k) \<and> (\<forall>i<k. \<not> P (reg_at env s a i)) \<and>
         v = reg_at env s a k \<and> s' = reads32 env a (Suc k) s)" (is "_ \<longleftrightarrow> ?r")
proof
  assume "poll32 env a P s = Some (v, s')"
  from loop_SomeD [OF this [unfolded poll32_def]] show ?r
    by (auto simp: iter_poll_iff poll_body_eq reg_at_reads32 reads32_Suc simp del: reads32.simps
        split: if_splits)
next
  assume ?r
  then show "poll32 env a P s = Some (v, s')"
    unfolding poll32_def
    by (auto intro!: loop_returns simp: iter_poll_iff poll_body_eq reg_at_reads32 reads32_Suc
        simp del: reads32.simps)
qed

lemma poll32_None_iff: "poll32 env a P s = None \<longleftrightarrow> (\<forall>k. \<not> P (reg_at env s a k))"
proof
  assume None: "poll32 env a P s = None"
  show "\<forall>k. \<not> P (reg_at env s a k)"
  proof (rule ccontr)
    assume "\<not> (\<forall>k. \<not> P (reg_at env s a k))"
    then obtain k where "P (reg_at env s a k)" and "\<forall>i<k. \<not> P (reg_at env s a i)"
      using exists_least_iff [of "\<lambda>k. P (reg_at env s a k)"] by blast
    then have "poll32 env a P s = Some (reg_at env s a k, reads32 env a (Suc k) s)"
      unfolding poll32_Some_iff by blast
    with None show False by simp
  qed
next
  assume "\<forall>k. \<not> P (reg_at env s a k)"
  then show "poll32 env a P s = None"
    by (cases "poll32 env a P s") (auto simp: poll32_Some_iff)
qed

text \<open>A register the hardware leaves alone decides the loop at its first read.\<close>

lemma reg_at_held: "env_holds env R \<Longrightarrow> a \<in> R \<Longrightarrow> reg_at env s a k = peek32 s a"
  by (induction k arbitrary: s) (simp_all add: reg_at_0 reg_at_Suc rd32_held del: fst_rd32)

lemma poll32_held:
  assumes "env_holds env R" and "a \<in> R"
  shows "poll32 env a P s = (if P (peek32 s a) then Some (peek32 s a, snd (rd32 env a s)) else None)"
proof (cases "P (peek32 s a)")
  case True
  with assms show ?thesis
    by (simp add: poll32_Some_iff reg_at_held del: snd_rd32_sel)
       (auto intro!: exI [of _ 0])
next
  case False
  with assms show ?thesis
    by (simp add: poll32_None_iff reg_at_held)
qed

end
