(* ===== verification/SocMap.thy ===== *)
theory SocMap
  imports Bus
begin

section \<open>Address maps and register offsets\<close>

text \<open>
  The base addresses of \<open>addr_maps/soc_addr_map.h\<close> and \<open>fll_addr_map.h\<close>, the register
  offsets of \<open>regs/soc_regs.h\<close>, \<open>regs/clint_regs.h\<close> and \<open>regs/hyperbus_regs.h\<close>, and the
  cluster geometry (\<open>_chimera_numCores\<close>, \<open>_chimera_hartBase\<close>, \<open>_chimera_clusterBase\<close>) of the
  two targets with clusters. The register maps of chimera-open and chimera-convolve are the same
  files; only the core counts and the FLL base differ. \<open>__base_clint\<close> and \<open>__base_uart\<close> are the
  linker symbols of \<open>shared/common.ldh\<close>.
\<close>

subsection \<open>Base addresses\<close>

definition CLINT_CTRL_BASE :: addr where [reg_offsets]: "CLINT_CTRL_BASE = 0x02040000"

definition base_clint :: addr where [reg_offsets]: "base_clint = 0x02040000"

definition base_uart :: addr where [reg_offsets]: "base_uart = 0x03002000"

definition SOC_CTRL_BASE :: addr where [reg_offsets]: "SOC_CTRL_BASE = 0x30001000"

definition PADFRAME_GPIO_BASE :: addr where [reg_offsets]: "PADFRAME_GPIO_BASE = 0x30002000"

definition PADFRAME_HYPERBUS_BASE :: addr where [reg_offsets]: "PADFRAME_HYPERBUS_BASE = 0x30003000"

definition HYPERBUS_CTRL_BASE :: addr where [reg_offsets]: "HYPERBUS_CTRL_BASE = 0x30005000"

subsection \<open>SoC control registers\<close>

definition CHIMERA_SNITCH_BOOT_ADDR_REG_OFFSET :: addr where [reg_offsets]: "CHIMERA_SNITCH_BOOT_ADDR_REG_OFFSET = 0x0"

definition CHIMERA_SNITCH_CONFIGURABLE_BOOT_ADDR_REG_OFFSET :: addr where [reg_offsets]: "CHIMERA_SNITCH_CONFIGURABLE_BOOT_ADDR_REG_OFFSET = 0x4"

definition CHIMERA_SNITCH_INTR_HANDLER_ADDR_REG_OFFSET :: addr where [reg_offsets]: "CHIMERA_SNITCH_INTR_HANDLER_ADDR_REG_OFFSET = 0x8"

definition CHIMERA_SNITCH_CLUSTER_0_RETURN_REG_OFFSET :: addr where [reg_offsets]: "CHIMERA_SNITCH_CLUSTER_0_RETURN_REG_OFFSET = 0xc"

definition CHIMERA_SNITCH_CLUSTER_1_RETURN_REG_OFFSET :: addr where [reg_offsets]: "CHIMERA_SNITCH_CLUSTER_1_RETURN_REG_OFFSET = 0x10"

definition CHIMERA_SNITCH_CLUSTER_2_RETURN_REG_OFFSET :: addr where [reg_offsets]: "CHIMERA_SNITCH_CLUSTER_2_RETURN_REG_OFFSET = 0x14"

definition CHIMERA_SNITCH_CLUSTER_3_RETURN_REG_OFFSET :: addr where [reg_offsets]: "CHIMERA_SNITCH_CLUSTER_3_RETURN_REG_OFFSET = 0x18"

definition CHIMERA_SNITCH_CLUSTER_4_RETURN_REG_OFFSET :: addr where [reg_offsets]: "CHIMERA_SNITCH_CLUSTER_4_RETURN_REG_OFFSET = 0x1c"

definition CHIMERA_RESET_CLUSTER_0_REG_OFFSET :: addr where [reg_offsets]: "CHIMERA_RESET_CLUSTER_0_REG_OFFSET = 0x20"

definition CHIMERA_RESET_CLUSTER_1_REG_OFFSET :: addr where [reg_offsets]: "CHIMERA_RESET_CLUSTER_1_REG_OFFSET = 0x24"

definition CHIMERA_RESET_CLUSTER_2_REG_OFFSET :: addr where [reg_offsets]: "CHIMERA_RESET_CLUSTER_2_REG_OFFSET = 0x28"

definition CHIMERA_RESET_CLUSTER_3_REG_OFFSET :: addr where [reg_offsets]: "CHIMERA_RESET_CLUSTER_3_REG_OFFSET = 0x2c"

definition CHIMERA_RESET_CLUSTER_4_REG_OFFSET :: addr where [reg_offsets]: "CHIMERA_RESET_CLUSTER_4_REG_OFFSET = 0x30"

definition CHIMERA_CLUSTER_0_CLK_GATE_EN_REG_OFFSET :: addr where [reg_offsets]: "CHIMERA_CLUSTER_0_CLK_GATE_EN_REG_OFFSET = 0x34"

definition CHIMERA_CLUSTER_1_CLK_GATE_EN_REG_OFFSET :: addr where [reg_offsets]: "CHIMERA_CLUSTER_1_CLK_GATE_EN_REG_OFFSET = 0x38"

definition CHIMERA_CLUSTER_2_CLK_GATE_EN_REG_OFFSET :: addr where [reg_offsets]: "CHIMERA_CLUSTER_2_CLK_GATE_EN_REG_OFFSET = 0x3c"

definition CHIMERA_CLUSTER_3_CLK_GATE_EN_REG_OFFSET :: addr where [reg_offsets]: "CHIMERA_CLUSTER_3_CLK_GATE_EN_REG_OFFSET = 0x40"

definition CHIMERA_CLUSTER_4_CLK_GATE_EN_REG_OFFSET :: addr where [reg_offsets]: "CHIMERA_CLUSTER_4_CLK_GATE_EN_REG_OFFSET = 0x44"

definition CHIMERA_WIDE_MEM_CLUSTER_0_BYPASS_REG_OFFSET :: addr where [reg_offsets]: "CHIMERA_WIDE_MEM_CLUSTER_0_BYPASS_REG_OFFSET = 0x48"

definition CHIMERA_WIDE_MEM_CLUSTER_1_BYPASS_REG_OFFSET :: addr where [reg_offsets]: "CHIMERA_WIDE_MEM_CLUSTER_1_BYPASS_REG_OFFSET = 0x4c"

definition CHIMERA_WIDE_MEM_CLUSTER_2_BYPASS_REG_OFFSET :: addr where [reg_offsets]: "CHIMERA_WIDE_MEM_CLUSTER_2_BYPASS_REG_OFFSET = 0x50"

definition CHIMERA_WIDE_MEM_CLUSTER_3_BYPASS_REG_OFFSET :: addr where [reg_offsets]: "CHIMERA_WIDE_MEM_CLUSTER_3_BYPASS_REG_OFFSET = 0x54"

definition CHIMERA_WIDE_MEM_CLUSTER_4_BYPASS_REG_OFFSET :: addr where [reg_offsets]: "CHIMERA_WIDE_MEM_CLUSTER_4_BYPASS_REG_OFFSET = 0x58"

definition CHIMERA_CLUSTER_0_BUSY_REG_OFFSET :: addr where [reg_offsets]: "CHIMERA_CLUSTER_0_BUSY_REG_OFFSET = 0x5c"

definition CHIMERA_CLUSTER_1_BUSY_REG_OFFSET :: addr where [reg_offsets]: "CHIMERA_CLUSTER_1_BUSY_REG_OFFSET = 0x60"

definition CHIMERA_CLUSTER_2_BUSY_REG_OFFSET :: addr where [reg_offsets]: "CHIMERA_CLUSTER_2_BUSY_REG_OFFSET = 0x64"

definition CHIMERA_CLUSTER_3_BUSY_REG_OFFSET :: addr where [reg_offsets]: "CHIMERA_CLUSTER_3_BUSY_REG_OFFSET = 0x68"

definition CHIMERA_CLUSTER_4_BUSY_REG_OFFSET :: addr where [reg_offsets]: "CHIMERA_CLUSTER_4_BUSY_REG_OFFSET = 0x6c"

subsection \<open>CLINT registers\<close>

definition CLINT_MSIP_REG_OFFSET :: addr where [reg_offsets]: "CLINT_MSIP_REG_OFFSET = 0x0"

definition CLINT_MTIMECMP_LOW0_REG_OFFSET :: addr where [reg_offsets]: "CLINT_MTIMECMP_LOW0_REG_OFFSET = 0x4000"

definition CLINT_MTIMECMP_HIGH0_REG_OFFSET :: addr where [reg_offsets]: "CLINT_MTIMECMP_HIGH0_REG_OFFSET = 0x4004"

definition CLINT_MTIME_LOW_REG_OFFSET :: addr where [reg_offsets]: "CLINT_MTIME_LOW_REG_OFFSET = 0xbff8"

definition CLINT_MTIME_HIGH_REG_OFFSET :: addr where [reg_offsets]: "CLINT_MTIME_HIGH_REG_OFFSET = 0xbffc"

subsection \<open>Hyperbus registers\<close>

definition HYPERBUS_T_LATENCY_ACCESS_REG_OFFSET :: addr where [reg_offsets]: "HYPERBUS_T_LATENCY_ACCESS_REG_OFFSET = 0x0"

definition HYPERBUS_EN_LATENCY_ADDITIONAL_REG_OFFSET :: addr where [reg_offsets]: "HYPERBUS_EN_LATENCY_ADDITIONAL_REG_OFFSET = 0x4"

definition HYPERBUS_T_BURST_MAX_REG_OFFSET :: addr where [reg_offsets]: "HYPERBUS_T_BURST_MAX_REG_OFFSET = 0x8"

definition HYPERBUS_T_READ_WRITE_RECOVERY_REG_OFFSET :: addr where [reg_offsets]: "HYPERBUS_T_READ_WRITE_RECOVERY_REG_OFFSET = 0xc"

definition HYPERBUS_T_RX_CLK_DELAY_REG_OFFSET :: addr where [reg_offsets]: "HYPERBUS_T_RX_CLK_DELAY_REG_OFFSET = 0x10"

definition HYPERBUS_T_TX_CLK_DELAY_REG_OFFSET :: addr where [reg_offsets]: "HYPERBUS_T_TX_CLK_DELAY_REG_OFFSET = 0x14"

definition HYPERBUS_ADDRESS_MASK_MSB_REG_OFFSET :: addr where [reg_offsets]: "HYPERBUS_ADDRESS_MASK_MSB_REG_OFFSET = 0x18"

definition HYPERBUS_ADDRESS_SPACE_REG_OFFSET :: addr where [reg_offsets]: "HYPERBUS_ADDRESS_SPACE_REG_OFFSET = 0x1c"

definition HYPERBUS_PHYS_IN_USE_REG_OFFSET :: addr where [reg_offsets]: "HYPERBUS_PHYS_IN_USE_REG_OFFSET = 0x20"

definition HYPERBUS_WHICH_PHY_REG_OFFSET :: addr where [reg_offsets]: "HYPERBUS_WHICH_PHY_REG_OFFSET = 0x24"

definition HYPERBUS_T_CSH_CYCLES_REG_OFFSET :: addr where [reg_offsets]: "HYPERBUS_T_CSH_CYCLES_REG_OFFSET = 0x28"

definition HYPERBUS_CHIP_START_REG_OFFSET :: "u32 \<Rightarrow> addr" where [reg_offsets]:
  "HYPERBUS_CHIP_START_REG_OFFSET chip = 11 * 4 + chip * 8"

definition HYPERBUS_CHIP_END_REG_OFFSET :: "u32 \<Rightarrow> addr" where [reg_offsets]:
  "HYPERBUS_CHIP_END_REG_OFFSET chip = 11 * 4 + chip * 8 + 4"

subsection \<open>Targets\<close>

datatype target = ChimeraConvolve | ChimeraOpen

definition FLL_CTRL_BASE_ADDR :: "target \<Rightarrow> addr" where [reg_offsets]:
  "FLL_CTRL_BASE_ADDR t = (case t of ChimeraConvolve \<Rightarrow> 0x30004000 | ChimeraOpen \<Rightarrow> 0x30003000)"

definition HOST_NUMCORES :: nat where
  "HOST_NUMCORES = 1"

definition chimera_numCores :: "target \<Rightarrow> nat list" where
  "chimera_numCores t = (case t of ChimeraConvolve \<Rightarrow> [2, 2, 2, 2, 9] | ChimeraOpen \<Rightarrow> [9, 9, 9, 9, 9])"

text \<open>Each cluster's first hart is the previous cluster's first hart plus its core count.\<close>

fun hart_bases :: "nat \<Rightarrow> nat list \<Rightarrow> nat list" where
  "hart_bases b [] = []"
| "hart_bases b (n # ns) = b # hart_bases (b + n) ns"

definition chimera_hartBase :: "target \<Rightarrow> nat list" where
  "chimera_hartBase t = hart_bases HOST_NUMCORES (chimera_numCores t)"

definition CLUSTER_HART_BASE :: nat where
  "CLUSTER_HART_BASE = HOST_NUMCORES"

definition chimera_clusterBase :: "addr list" where
  "chimera_clusterBase = [0x40000000, 0x40200000, 0x40400000, 0x40600000, 0x40800000]"

lemma chimera_hartBase_values:
  "chimera_hartBase ChimeraConvolve = [1, 3, 5, 7, 9]"
  "chimera_hartBase ChimeraOpen = [1, 10, 19, 28, 37]"
  by (simp_all add: chimera_hartBase_def chimera_numCores_def HOST_NUMCORES_def)

end
