(* ===== verification/Clint.thy ===== *)
theory Clint
  imports SocMap
begin

section \<open>The CLINT drivers (host/drivers/clint32, clint64, host/runtime/src/clint.c)\<close>

text \<open>
  The two drivers of the core-local interruptor: clint32 for the 32-bit host, whose time is a
  pair of 32-bit words, and clint64 for the 64-bit host. Both implement the same interface
  (get, compare, spin, sleep); \<open>mtime_driver\<close> states what its clients rely on against a
  hardware clock, and both drivers are shown to provide it, clint64 only for clocks whose high
  word does not change during the read.
\<close>

subsection \<open>clint32\<close>

record clint_mtime32 =
  low :: u32
  high :: u32

definition get_mtime32_body :: "env \<Rightarrow> machine \<Rightarrow> (clint_mtime32 option \<times> machine) option" where
  "get_mtime32_body env s =
     (let (h, s1) = rd32 env (reg32 base_clint CLINT_MTIME_HIGH_REG_OFFSET) s;
          (l, s2) = rd32 env (reg32 base_clint CLINT_MTIME_LOW_REG_OFFSET) s1;
          (high_check, s3) = rd32 env (reg32 base_clint CLINT_MTIME_HIGH_REG_OFFSET) s2
      in Some (if h \<noteq> high_check then None else Some \<lparr>low = l, high = h\<rparr>, s3))"

definition clint32_get_mtime :: "env \<Rightarrow> machine \<Rightarrow> (clint_mtime32 \<times> machine) option" where
  "clint32_get_mtime env s = loop (get_mtime32_body env) s"

definition clint32_mtime_less_than :: "clint_mtime32 \<Rightarrow> clint_mtime32 \<Rightarrow> bool" where
  "clint32_mtime_less_than a b \<longleftrightarrow> high a < high b \<or> (high a = high b \<and> low a < low b)"

definition spin_until32_body ::
  "env \<Rightarrow> clint_mtime32 \<Rightarrow> machine \<Rightarrow> (unit option \<times> machine) option" where
  "spin_until32_body env tgt s = (case clint32_get_mtime env s of
     None \<Rightarrow> None
   | Some (t, s1) \<Rightarrow> Some (if clint32_mtime_less_than t tgt then None else Some (), s1))"

definition clint32_spin_until :: "env \<Rightarrow> clint_mtime32 \<Rightarrow> machine \<Rightarrow> (unit \<times> machine) option" where
  "clint32_spin_until env tgt s = loop (spin_until32_body env tgt) s"

text \<open>\<open>clint_spin_ticks\<close> and \<open>clint_sleep_ticks\<close> compute their target alike.\<close>

definition ticks_after32 :: "clint_mtime32 \<Rightarrow> u32 \<Rightarrow> clint_mtime32" where
  "ticks_after32 start ticks =
     (let target = \<lparr>low = low start + ticks, high = high start\<rparr> in
      if low target < low start then target\<lparr>high := high target + 1\<rparr> else target)"

definition clint32_spin_ticks :: "env \<Rightarrow> u32 \<Rightarrow> machine \<Rightarrow> (unit \<times> machine) option" where
  "clint32_spin_ticks env ticks s = (case clint32_get_mtime env s of
     None \<Rightarrow> None
   | Some (start, s1) \<Rightarrow> clint32_spin_until env (ticks_after32 start ticks) s1)"

text \<open>\<open>clint_get_core_freq\<close>: the two sampling loops, then the division.\<close>

definition freq32_start_body ::
  "env \<Rightarrow> clint_mtime32 \<Rightarrow> machine \<Rightarrow> ((u32 \<times> clint_mtime32) option \<times> machine) option" where
  "freq32_start_body env tend s =
     (let (start_mcycle, s1) = get_mcycle env s in
      case clint32_get_mtime env s1 of
        None \<Rightarrow> None
      | Some (start, s2) \<Rightarrow>
          Some (if low start = low tend \<and> high start = high tend then None
                else Some (start_mcycle, start), s2))"

definition freq32_end_body ::
  "env \<Rightarrow> clint_mtime32 \<Rightarrow> u32 \<Rightarrow> machine \<Rightarrow> ((u32 \<times> clint_mtime32) option \<times> machine) option" where
  "freq32_end_body env start num_ticks s =
     (let (end_mcycle, s1) = get_mcycle env s in
      case clint32_get_mtime env s1 of
        None \<Rightarrow> None
      | Some (tend, s2) \<Rightarrow>
          Some (if clint32_mtime_less_than tend \<lparr>low = low start + num_ticks, high = high start\<rparr>
                then None else Some (end_mcycle, tend), s2))"

definition freq32_result :: "u32 \<Rightarrow> u32 \<Rightarrow> u32 \<Rightarrow> clint_mtime32 \<Rightarrow> clint_mtime32 \<Rightarrow> u32 outcome" where
  "freq32_result ref_freq start_mcycle end_mcycle start tend =
     (let duration = ((ucast end_mcycle :: u64) - ucast start_mcycle) * ucast ref_freq;
          ticks = (ucast (low tend) :: u64) - ucast (low start)
      in if ticks = 0 then Fault DivisionByZero else Ret (ucast (duration div ticks)))"

definition clint32_get_core_freq ::
  "env \<Rightarrow> u32 \<Rightarrow> u32 \<Rightarrow> machine \<Rightarrow> (u32 outcome \<times> machine) option" where
  "clint32_get_core_freq env ref_freq ref_time_inv s =
     (if ref_time_inv = 0 then Some (Fault DivisionByZero, s)
      else let num_ticks = ref_freq div ref_time_inv in
        case clint32_get_mtime env s of
          None \<Rightarrow> None
        | Some (tend, s1) \<Rightarrow> (case loop (freq32_start_body env tend) s1 of
            None \<Rightarrow> None
          | Some ((start_mcycle, start), s2) \<Rightarrow> (case loop (freq32_end_body env start num_ticks) s2 of
              None \<Rightarrow> None
            | Some ((end_mcycle, tend'), s3) \<Rightarrow>
                Some (freq32_result ref_freq start_mcycle end_mcycle start tend', s3))))"

definition clint32_set_mtimecmpx :: "env \<Rightarrow> u32 \<Rightarrow> clint_mtime32 \<Rightarrow> machine \<Rightarrow> machine" where
  "clint32_set_mtimecmpx env timer_idx value s =
     (let offs = push_bit 3 timer_idx in
      wr32 env (reg32 base_clint (CLINT_MTIMECMP_LOW0_REG_OFFSET + offs)) (low value)
        (wr32 env (reg32 base_clint (CLINT_MTIMECMP_HIGH0_REG_OFFSET + offs)) (high value) s))"

text \<open>What both drivers do once the compare register is set: fence, enable, wait.\<close>

definition arm_and_wait :: "env \<Rightarrow> machine \<Rightarrow> machine" where
  "arm_and_wait env s = wfi env (set_mie env True (set_mtie env True (fence env s)))"

definition clint32_sleep_until ::
  "env \<Rightarrow> u32 \<Rightarrow> clint_mtime32 \<Rightarrow> machine \<Rightarrow> (unit \<times> machine) option" where
  "clint32_sleep_until env timer_idx tgt s = (case clint32_get_mtime env s of
     None \<Rightarrow> None
   | Some (t, s1) \<Rightarrow>
       if clint32_mtime_less_than tgt t then Some ((), s1)
       else Some ((), arm_and_wait env (clint32_set_mtimecmpx env timer_idx tgt s1)))"

definition clint32_sleep_ticks :: "env \<Rightarrow> u32 \<Rightarrow> u32 \<Rightarrow> machine \<Rightarrow> (unit \<times> machine) option" where
  "clint32_sleep_ticks env timer_idx ticks s = (case clint32_get_mtime env s of
     None \<Rightarrow> None
   | Some (start, s1) \<Rightarrow> clint32_sleep_until env timer_idx (ticks_after32 start ticks) s1)"

subsection \<open>clint64\<close>

text \<open>
  The two 32-bit reads are operands of one \<open>|\<close>; C leaves their order open, so it is the
  argument \<open>high_first\<close> of the model.
\<close>

definition clint64_get_mtime :: "bool \<Rightarrow> env \<Rightarrow> machine \<Rightarrow> (u64 \<times> machine) option" where
  "clint64_get_mtime high_first env s =
     (if high_first then
        (let (h, s1) = rd32 env (reg32 base_clint CLINT_MTIME_HIGH_REG_OFFSET) s;
             (l, s2) = rd32 env (reg32 base_clint CLINT_MTIME_LOW_REG_OFFSET) s1
         in Some (push_bit 32 (ucast h) OR ucast l, s2))
      else
        (let (l, s1) = rd32 env (reg32 base_clint CLINT_MTIME_LOW_REG_OFFSET) s;
             (h, s2) = rd32 env (reg32 base_clint CLINT_MTIME_HIGH_REG_OFFSET) s1
         in Some (push_bit 32 (ucast h) OR ucast l, s2)))"

definition clint64_mtime_less_than :: "u64 \<Rightarrow> u64 \<Rightarrow> bool" where
  "clint64_mtime_less_than a b \<longleftrightarrow> a < b"

definition spin_until64_body ::
  "bool \<Rightarrow> env \<Rightarrow> u64 \<Rightarrow> machine \<Rightarrow> (unit option \<times> machine) option" where
  "spin_until64_body hf env tgt s = (case clint64_get_mtime hf env s of
     None \<Rightarrow> None
   | Some (t, s1) \<Rightarrow> Some (if t < tgt then None else Some (), s1))"

definition clint64_spin_until :: "bool \<Rightarrow> env \<Rightarrow> u64 \<Rightarrow> machine \<Rightarrow> (unit \<times> machine) option" where
  "clint64_spin_until hf env tgt s = loop (spin_until64_body hf env tgt) s"

definition clint64_spin_ticks :: "bool \<Rightarrow> env \<Rightarrow> u32 \<Rightarrow> machine \<Rightarrow> (unit \<times> machine) option" where
  "clint64_spin_ticks hf env ticks s = (case clint64_get_mtime hf env s of
     None \<Rightarrow> None
   | Some (start, s1) \<Rightarrow> clint64_spin_until hf env (start + ucast ticks) s1)"

definition freq64_start_body ::
  "bool \<Rightarrow> env \<Rightarrow> u64 \<Rightarrow> machine \<Rightarrow> ((u64 \<times> u64) option \<times> machine) option" where
  "freq64_start_body hf env end_time s =
     (let (start_mcycle, s1) = get_mcycle env s in
      case clint64_get_mtime hf env s1 of
        None \<Rightarrow> None
      | Some (start_time, s2) \<Rightarrow>
          Some (if start_time = end_time then None else Some (ucast start_mcycle, start_time), s2))"

definition freq64_end_body ::
  "bool \<Rightarrow> env \<Rightarrow> u64 \<Rightarrow> u64 \<Rightarrow> machine \<Rightarrow> ((u64 \<times> u64) option \<times> machine) option" where
  "freq64_end_body hf env start_time num_ticks s =
     (let (end_mcycle, s1) = get_mcycle env s in
      case clint64_get_mtime hf env s1 of
        None \<Rightarrow> None
      | Some (end_time, s2) \<Rightarrow>
          Some (if end_time < start_time + num_ticks then None
                else Some (ucast end_mcycle, end_time), s2))"

definition clint64_get_core_freq ::
  "bool \<Rightarrow> env \<Rightarrow> u32 \<Rightarrow> u32 \<Rightarrow> machine \<Rightarrow> (u32 outcome \<times> machine) option" where
  "clint64_get_core_freq hf env ref_freq ref_time_inv s =
     (if ref_time_inv = 0 then Some (Fault DivisionByZero, s)
      else let num_ticks = ucast (ref_freq div ref_time_inv) in
        case clint64_get_mtime hf env s of
          None \<Rightarrow> None
        | Some (end0, s1) \<Rightarrow> (case loop (freq64_start_body hf env end0) s1 of
            None \<Rightarrow> None
          | Some ((start_mcycle, start_time), s2) \<Rightarrow>
              (case loop (freq64_end_body hf env start_time num_ticks) s2 of
                None \<Rightarrow> None
              | Some ((end_mcycle, end_time), s3) \<Rightarrow>
                  Some (if end_time - start_time = 0 then Fault DivisionByZero
                        else Ret (ucast ((end_mcycle - start_mcycle) * ucast ref_freq
                                         div (end_time - start_time))), s3))))"

definition clint64_set_mtimecmpx :: "env \<Rightarrow> u32 \<Rightarrow> u64 \<Rightarrow> machine \<Rightarrow> machine" where
  "clint64_set_mtimecmpx env timer_idx value s =
     (let vlo = ucast value; vhi = ucast (drop_bit 32 value); offs = push_bit 3 timer_idx in
      wr32 env (reg32 base_clint (CLINT_MTIMECMP_LOW0_REG_OFFSET + offs)) vlo
        (wr32 env (reg32 base_clint (CLINT_MTIMECMP_HIGH0_REG_OFFSET + offs)) vhi s))"

definition clint64_sleep_until ::
  "bool \<Rightarrow> env \<Rightarrow> u32 \<Rightarrow> u64 \<Rightarrow> machine \<Rightarrow> (unit \<times> machine) option" where
  "clint64_sleep_until hf env timer_idx tgt s = (case clint64_get_mtime hf env s of
     None \<Rightarrow> None
   | Some (t, s1) \<Rightarrow>
       if t \<ge> tgt then Some ((), s1)
       else Some ((), arm_and_wait env (clint64_set_mtimecmpx env timer_idx tgt s1)))"

definition clint64_sleep_ticks :: "bool \<Rightarrow> env \<Rightarrow> u32 \<Rightarrow> u32 \<Rightarrow> machine \<Rightarrow> (unit \<times> machine) option" where
  "clint64_sleep_ticks hf env timer_idx ticks s = (case clint64_get_mtime hf env s of
     None \<Rightarrow> None
   | Some (start, s1) \<Rightarrow> clint64_sleep_until hf env timer_idx (start + ucast ticks) s1)"

subsection \<open>The interrupt-controller API and the trap vector\<close>

text \<open>
  Both drivers export the same \<open>chi_interrupt_api_t\<close> (hal/inc/interrupt_api.h): \<open>init\<close>
  succeeds, every per-interrupt operation is refused with -1, \<open>dispatch\<close> does nothing.
\<close>

record chi_interrupt_api =
  int_init :: "int"
  int_register_handler :: "int \<Rightarrow> int"
  int_enable_irq :: "int \<Rightarrow> int"
  int_disable_irq :: "int \<Rightarrow> int"
  int_set_priority :: "int \<Rightarrow> int \<Rightarrow> int"
  int_acknowledge :: "int \<Rightarrow> int"
  int_dispatch :: "machine \<Rightarrow> machine"

definition default_clint32_api :: chi_interrupt_api where
  "default_clint32_api = \<lparr>int_init = 0, int_register_handler = (\<lambda>irq. - 1),
     int_enable_irq = (\<lambda>irq. - 1), int_disable_irq = (\<lambda>irq. - 1),
     int_set_priority = (\<lambda>irq prio. - 1), int_acknowledge = (\<lambda>irq. - 1), int_dispatch = (\<lambda>s. s)\<rparr>"

definition default_clint64_api :: chi_interrupt_api where
  "default_clint64_api = \<lparr>int_init = 0, int_register_handler = (\<lambda>irq. - 1),
     int_enable_irq = (\<lambda>irq. - 1), int_disable_irq = (\<lambda>irq. - 1),
     int_set_priority = (\<lambda>irq prio. - 1), int_acknowledge = (\<lambda>irq. - 1), int_dispatch = (\<lambda>s. s)\<rparr>"

definition default_trap_vector :: "env \<Rightarrow> machine \<Rightarrow> machine" where
  "default_trap_vector env s =
     (let (m, s1) = get_mip env s in
      if m AND push_bit 3 1 \<noteq> 0 then wr32 env (reg32 base_clint CLINT_MSIP_REG_OFFSET) 0 s1
      else if m AND push_bit 7 1 \<noteq> 0 then set_mtie env False s1
      else s1)"

subsection \<open>Hardware clocks\<close>

text \<open>
  \<open>T n\<close> is the 64-bit count that the timer shows at the \<open>n\<close>-th access. \<open>clock T env\<close> says
  that the environment keeps the two halves in the mtime registers.
\<close>

abbreviation mtime_low :: addr where "mtime_low \<equiv> reg32 base_clint CLINT_MTIME_LOW_REG_OFFSET"
abbreviation mtime_high :: addr where "mtime_high \<equiv> reg32 base_clint CLINT_MTIME_HIGH_REG_OFFSET"

definition time_low :: "u64 \<Rightarrow> u32" where "time_low t = ucast t"
definition time_high :: "u64 \<Rightarrow> u32" where "time_high t = ucast (drop_bit 32 t)"
definition time_join :: "u32 \<Rightarrow> u32 \<Rightarrow> u64" where "time_join h l = push_bit 32 (ucast h) OR ucast l"

definition clock :: "(nat \<Rightarrow> u64) \<Rightarrow> env \<Rightarrow> bool" where
  "clock T env \<longleftrightarrow> (\<forall>n h. load32 (mem (env n h)) mtime_low = time_low (T n)
     \<and> load32 (mem (env n h)) mtime_high = time_high (T n))"

definition mtime32_val :: "clint_mtime32 \<Rightarrow> u64" where
  "mtime32_val t = time_join (high t) (low t)"

definition clock_env :: "(nat \<Rightarrow> u64) \<Rightarrow> env" where
  "clock_env T n h = h\<lparr>mem := store32 (store32 (mem h) mtime_low (time_low (T n)))
     mtime_high (time_high (T n))\<rparr>"

lemma clock_clock_env [simp]: "clock T (clock_env T)"
  by (simp add: clock_def clock_env_def load32_store32_same load32_store32_sep sep32_def reg32_def
      reg_offsets)

lemma time_unat: "unat (time_low t) = unat t mod 2 ^ 32" "unat (time_high t) = unat t div 2 ^ 32"
proof -
  show "unat (time_low t) = unat t mod 2 ^ 32"
    by (simp add: time_low_def unsigned_ucast_eq take_bit_eq_mod)
  have "unat t div 2 ^ 32 < 2 ^ 32"
    using unsigned_less [of t, where ?'a = nat] by (simp add: div_less_iff_less_mult)
  then show "unat (time_high t) = unat t div 2 ^ 32"
    by (simp add: time_high_def unsigned_ucast_eq drop_bit_eq_div take_bit_eq_mod unat_div)
qed

lemma time_join_unat: "unat (time_join h l) = unat h * 2 ^ 32 + unat l"
proof -
  have "push_bit 32 (ucast h :: u64) AND ucast l = 0"
    by (rule bit_word_eqI) (auto simp: bit_simps dest: bit_imp_le_length)
  then have "time_join h l = push_bit 32 (ucast h) + ucast l"
    unfolding time_join_def by (simp add: disjunctive_add_eq_or)
  moreover have "unat h * 2 ^ 32 + unat l < 2 ^ 64"
    using unsigned_less [of h, where ?'a = nat] unsigned_less [of l, where ?'a = nat] by simp
  moreover have "take_bit 64 (unat h) = unat h" "take_bit 64 (unat l) = unat l"
    using unsigned_less [of h, where ?'a = nat] unsigned_less [of l, where ?'a = nat]
    by (simp_all add: take_bit_nat_eq_self)
  ultimately show ?thesis
    by (simp add: unat_word_ariths push_bit_eq_mult unsigned_ucast_eq)
qed

lemma time_join_plus: "time_join h l = push_bit 32 (ucast h) + ucast l"
proof -
  have "push_bit 32 (ucast h :: u64) AND ucast l = 0"
    by (rule bit_word_eqI) (auto simp: bit_simps dest: bit_imp_le_length)
  then show ?thesis
    unfolding time_join_def by (simp add: disjunctive_add_eq_or)
qed

lemma time_low_add: "time_low (t + u) = time_low t + time_low u"
  by (simp add: word_eq_iff_unat time_unat unat_word_ariths mod_simps mod_mod_cancel)

lemma time_join_split [simp]: "time_join (time_high t) (time_low t) = t"
  by (simp add: word_eq_iff_unat time_join_unat time_unat)

lemma time_join_less:
  "time_join h l < time_join h' l' \<longleftrightarrow> h < h' \<or> (h = h' \<and> l < l')"
  using unsigned_less [of l, where ?'a = nat] unsigned_less [of l', where ?'a = nat]
  by (auto simp: word_less_nat_alt time_join_unat word_eq_iff_unat)

subsection \<open>The driver contract\<close>

text \<open>
  \<open>good T\<close> is the class of clocks on which a driver's read is a snapshot: the value the clock
  had at one moment of the call. The client lemmas are about the busy-wait built from the read and
  the comparison.
\<close>

definition spin_body ::
  "(env \<Rightarrow> machine \<Rightarrow> ('t \<times> machine) option) \<Rightarrow> ('t \<Rightarrow> 't \<Rightarrow> bool) \<Rightarrow> env \<Rightarrow> 't \<Rightarrow> machine
    \<Rightarrow> (unit option \<times> machine) option" where
  "spin_body get before env tgt s = (case get env s of
     None \<Rightarrow> None
   | Some (t, s1) \<Rightarrow> Some (if before t tgt then None else Some (), s1))"

locale mtime_driver =
  fixes get :: "env \<Rightarrow> machine \<Rightarrow> ('t \<times> machine) option"
    and before :: "'t \<Rightarrow> 't \<Rightarrow> bool"
    and val :: "'t \<Rightarrow> u64"
    and add :: "'t \<Rightarrow> u32 \<Rightarrow> 't"
    and good :: "(nat \<Rightarrow> u64) \<Rightarrow> bool"
  assumes get_snapshot: "good T \<Longrightarrow> clock T env \<Longrightarrow>
      \<exists>t s' n. get env s = Some (t, s') \<and> val t = T n \<and> now s \<le> n \<and> n < now s'"
    and before_val: "before a b \<longleftrightarrow> val a < val b"
    and add_val: "val (add t k) = val t + ucast k"
    and good_mono: "good T \<Longrightarrow> mono T"
begin

definition spin :: "env \<Rightarrow> 't \<Rightarrow> machine \<Rightarrow> (unit \<times> machine) option" where
  "spin env tgt s = loop (spin_body get before env tgt) s"

definition spin_ticks :: "env \<Rightarrow> u32 \<Rightarrow> machine \<Rightarrow> (unit \<times> machine) option" where
  "spin_ticks env k s = (case get env s of None \<Rightarrow> None | Some (t, s1) \<Rightarrow> spin env (add t k) s1)"

lemma spin_step:
  assumes "good T" and "clock T env"
  shows "\<exists>x s' n. spin_body get before env tgt s = Some (x, s') \<and> now s \<le> n \<and> n < now s'
    \<and> (x = None \<longleftrightarrow> T n < val tgt)"
proof -
  from get_snapshot [OF assms, of s] obtain t s' n
    where "get env s = Some (t, s')" "val t = T n" "now s \<le> n" "n < now s'"
    by blast
  then show ?thesis
    by (intro exI [of _ "if before t tgt then None else Some ()"] exI [of _ s'] exI [of _ n])
       (simp add: spin_body_def before_val)
qed

lemma spin_waits:
  assumes "good T" and "clock T env" and "spin env tgt s = Some (u, s')"
  shows "\<exists>n. val tgt \<le> T n \<and> now s \<le> n \<and> n < now s'"
proof -
  have "\<exists>t. now s \<le> now t \<and> spin_body get before env tgt t = Some (Some u, s')"
  proof (rule loop_inv [where I = "\<lambda>t. now s \<le> now t", OF assms(3) [unfolded spin_def]])
    fix t t'
    assume "now s \<le> now t" and "spin_body get before env tgt t = Some (None, t')"
    then show "now s \<le> now t'"
      using spin_step [OF assms(1,2), of tgt t] by auto
  qed simp
  then obtain t where t: "now s \<le> now t" "spin_body get before env tgt t = Some (Some u, s')"
    by blast
  with spin_step [OF assms(1,2), of tgt t] obtain n where "now t \<le> n" "n < now s'" "\<not> T n < val tgt"
    by auto
  with t(1) show ?thesis
    by (intro exI [of _ n]) (simp add: not_less)
qed

lemma spin_returns:
  assumes "good T" and "clock T env" and "val tgt \<le> T m"
  shows "\<exists>u s'. spin env tgt s = Some (u, s')"
  unfolding spin_def
proof (rule loop_terminates [where I = "\<lambda>t. True" and m = "\<lambda>t. m - now t"])
  fix t
  obtain x t' n where step: "spin_body get before env tgt t = Some (x, t')" "now t \<le> n" "n < now t'"
    and x: "x = None \<longleftrightarrow> T n < val tgt"
    using spin_step [OF assms(1,2)] by blast
  have "n < m" if "x = None"
  proof (rule ccontr)
    assume "\<not> n < m"
    then have "T m \<le> T n"
      by (intro monoD [OF good_mono [OF assms(1)]]) simp
    with assms(3) x that show False by simp
  qed
  with step show "\<exists>x t'. spin_body get before env tgt t = Some (x, t')
      \<and> (x = None \<longrightarrow> True \<and> m - now t' < m - now t)"
    by (intro exI [of _ x] exI [of _ t']) auto
qed simp

lemma spin_ticks_waits:
  assumes "good T" and "clock T env" and "get env s = Some (t, s1)"
    and "unat (val t) + unat k < 2 ^ 64" and "val t + ucast k \<le> T m"
  shows "\<exists>s' i j. spin_ticks env k s = Some ((), s') \<and> now s \<le> i \<and> i \<le> j \<and> j < now s'
    \<and> val t = T i \<and> unat (T i) + unat k \<le> unat (T j)"
proof -
  from get_snapshot [OF assms(1,2), of s] assms(3) obtain i
    where i: "val t = T i" "now s \<le> i" "i < now s1" by auto
  from spin_returns [OF assms(1,2), of "add t k" m s1] assms(5) obtain s'
    where s': "spin env (add t k) s1 = Some ((), s')" by (auto simp: add_val)
  from spin_waits [OF assms(1,2) s'] obtain j
    where j: "val (add t k) \<le> T j" "now s1 \<le> j" "j < now s'" by blast
  have "unat (val t + ucast k) = unat (val t) + unat k"
    using assms(4) by (subst unat_add_no_wrap) (simp_all add: unat_ucast_up)
  with i j s' assms(3) show ?thesis
    by (intro exI [of _ s'] exI [of _ i] exI [of _ j])
       (simp add: spin_ticks_def add_val word_le_nat_alt)
qed

end

subsection \<open>clint32 provides the contract for every monotone clock\<close>

lemma get_mtime32_body_clock:
  assumes "clock T env"
  shows "\<exists>s'. get_mtime32_body env s = Some
      (if time_high (T (now s)) \<noteq> time_high (T (now s + 2)) then None
       else Some \<lparr>low = time_low (T (now s + 1)), high = time_high (T (now s))\<rparr>, s')
    \<and> now s' = now s + 3"
  using assms by (simp add: get_mtime32_body_def split_beta clock_def)

lemma time_high_mono: "a \<le> b \<Longrightarrow> time_high a \<le> time_high b"
  by (simp add: word_le_nat_alt time_unat div_le_mono)

text \<open>Every failed read has seen the high word grow, so the retries end.\<close>

lemma clint32_get_mtime_returns:
  assumes mono: "mono T" and clk: "clock T env"
  shows "\<exists>r s'. loop (get_mtime32_body env) s = Some (r, s')"
proof (rule loop_terminates [where I = "\<lambda>t. True" and m = "\<lambda>t. 2 ^ 32 - unat (time_high (T (now t)))"])
  fix t :: machine
  define x where "x = (if time_high (T (now t)) \<noteq> time_high (T (now t + 2)) then None
    else Some \<lparr>low = time_low (T (now t + 1)), high = time_high (T (now t))\<rparr>)"
  from get_mtime32_body_clock [OF clk, of t] obtain t' where
    step: "get_mtime32_body env t = Some (x, t')" "now t' = now t + 3"
    unfolding x_def by blast
  have x: "x = None \<longleftrightarrow> time_high (T (now t)) \<noteq> time_high (T (now t + 2))"
    by (simp add: x_def)
  have "unat (time_high (T (now t))) < unat (time_high (T (now t')))" if "x = None"
  proof -
    have "time_high (T (now t)) < time_high (T (now t + 2))"
      using that x time_high_mono [OF monoD [OF mono], of "now t" "now t + 2"] by (simp add: order_less_le)
    also have "\<dots> \<le> time_high (T (now t'))"
      using step(2) by (intro time_high_mono monoD [OF mono]) simp
    finally show ?thesis by (simp add: word_less_nat_alt)
  qed
  moreover have "unat (time_high (T (now t'))) < 2 ^ 32"
    using unsigned_less [of "time_high (T (now t'))", where ?'a = nat] by simp
  ultimately show "\<exists>x t'. get_mtime32_body env t = Some (x, t')
      \<and> (x = None \<longrightarrow> True \<and> 2 ^ 32 - unat (time_high (T (now t'))) < 2 ^ 32 - unat (time_high (T (now t))))"
    using step(1) by (intro exI [of _ x] exI [of _ t']) auto
qed simp

lemma clint32_snapshot:
  assumes mono: "mono T" and clk: "clock T env"
  shows "\<exists>t s' n. clint32_get_mtime env s = Some (t, s') \<and> mtime32_val t = T n
    \<and> now s \<le> n \<and> n < now s'"
proof -
  let ?H = "\<lambda>n. time_high (T n)"
  have Hmono: "?H i \<le> ?H j" if "i \<le> j" for i j
    by (intro time_high_mono monoD [OF mono that])
  obtain r s' where run: "loop (get_mtime32_body env) s = Some (r, s')"
    using clint32_get_mtime_returns [OF assms] by blast
  have "\<exists>t. now s \<le> now t \<and> get_mtime32_body env t = Some (Some r, s')"
  proof (rule loop_inv [where I = "\<lambda>t. now s \<le> now t", OF run])
    fix t t'
    assume "now s \<le> now t" and "get_mtime32_body env t = Some (None, t')"
    then show "now s \<le> now t'"
      using get_mtime32_body_clock [OF clk, of t] by auto
  qed simp
  then obtain t where t: "now s \<le> now t" "get_mtime32_body env t = Some (Some r, s')"
    by blast
  with get_mtime32_body_clock [OF clk, of t]
  have eq: "?H (now t) = ?H (now t + 2)" and s': "now s' = now t + 3"
    and r: "r = \<lparr>low = time_low (T (now t + 1)), high = ?H (now t)\<rparr>"
    by (auto split: if_splits)
  have "?H (now t + 1) = ?H (now t)"
    using Hmono [of "now t" "now t + 1"] Hmono [of "now t + 1" "now t + 2"] eq by simp
  then have "mtime32_val r = T (now t + 1)"
    by (simp add: r mtime32_val_def flip: \<open>?H (now t + 1) = ?H (now t)\<close>)
  with run t(1) s' show ?thesis
    unfolding clint32_get_mtime_def by (intro exI [of _ r] exI [of _ s'] exI [of _ "now t + 1"]) simp
qed

lemma clint32_less_val: "clint32_mtime_less_than a b \<longleftrightarrow> mtime32_val a < mtime32_val b"
  by (simp add: clint32_mtime_less_than_def mtime32_val_def time_join_less)

text \<open>The split times are ordered as the driver compares them, by the high word first.\<close>

instantiation clint_mtime32_ext :: (linorder) linorder
begin

definition less_clint_mtime32_ext :: "'a clint_mtime32_ext \<Rightarrow> 'a clint_mtime32_ext \<Rightarrow> bool" where
  "less_clint_mtime32_ext a b \<longleftrightarrow> high a < high b \<or> high a = high b \<and>
     (low a < low b \<or> low a = low b \<and> clint_mtime32.more a < clint_mtime32.more b)"

definition less_eq_clint_mtime32_ext :: "'a clint_mtime32_ext \<Rightarrow> 'a clint_mtime32_ext \<Rightarrow> bool" where
  "less_eq_clint_mtime32_ext a b \<longleftrightarrow> a < b \<or> a = b"

instance
proof
  fix a b c :: "'a clint_mtime32_ext"
  show "a < b \<longleftrightarrow> a \<le> b \<and> \<not> b \<le> a"
    by (auto simp: less_eq_clint_mtime32_ext_def less_clint_mtime32_ext_def)
  show "a \<le> a" by (simp add: less_eq_clint_mtime32_ext_def)
  show "a \<le> b \<Longrightarrow> b \<le> c \<Longrightarrow> a \<le> c" and "a \<le> b \<Longrightarrow> b \<le> a \<Longrightarrow> a = b"
    by (auto simp: less_eq_clint_mtime32_ext_def less_clint_mtime32_ext_def)
  show "a \<le> b \<or> b \<le> a"
    by (cases a; cases b) (auto simp: less_eq_clint_mtime32_ext_def less_clint_mtime32_ext_def)
qed

end

lemma clint32_less_order: "clint32_mtime_less_than a b \<longleftrightarrow> a < b"
  by (simp add: clint32_mtime_less_than_def less_clint_mtime32_ext_def)

lemma mtime32_val_strict_mono: "a < b \<longleftrightarrow> mtime32_val a < mtime32_val b"
  by (simp flip: clint32_less_order add: clint32_less_val)

lemma mtime32_val_mono: "a \<le> b \<longleftrightarrow> mtime32_val a \<le> mtime32_val b"
  by (simp add: mtime32_val_strict_mono flip: not_less)

lemma mtime32_val_inject: "mtime32_val a = mtime32_val b \<longleftrightarrow> a = b"
  by (auto simp: mtime32_val_mono order.eq_iff)

lemma ticks_after32_val: "mtime32_val (ticks_after32 t k) = mtime32_val t + ucast k"
proof -
  have k: "unat (ucast k :: u64) = unat k" by (simp add: unat_ucast_up)
  have "unat (mtime32_val (ticks_after32 t k)) =
      (unat (mtime32_val t) + unat (ucast k :: u64)) mod 2 ^ 64"
  proof (cases "low t + k < low t")
    case True
    then have "2 ^ 32 \<le> unat (low t) + unat k" "unat (low t + k) = unat (low t) + unat k - 2 ^ 32"
      by (auto simp: word_less_nat_alt unat_plus_if' split: if_splits)
    moreover have "unat (high t) < 2 ^ 32" "unat (low t) < 2 ^ 32" "unat k < 2 ^ 32"
      using unsigned_less [where ?'a = nat and 'b = 32] by simp_all
    ultimately show ?thesis using True
      by (auto simp: ticks_after32_def mtime32_val_def time_join_unat k unat_plus_if' Let_def
          le_mod_geq)
  next
    case False
    then have "unat (low t + k) = unat (low t) + unat k"
      using unsigned_less [of k, where ?'a = nat]
      by (auto simp: word_less_nat_alt unat_plus_if' split: if_splits)
    with False show ?thesis
      using unsigned_less [of "mtime32_val (ticks_after32 t k)", where ?'a = nat]
      by (simp add: ticks_after32_def mtime32_val_def time_join_unat k Let_def)
  qed
  then show ?thesis
    by (simp add: word_eq_iff_unat unat_word_ariths)
qed

interpretation mt32: mtime_driver clint32_get_mtime clint32_mtime_less_than mtime32_val
    ticks_after32 mono
proof
  fix T env s
  assume "mono T" and "clock T env"
  then show "\<exists>t s' n. clint32_get_mtime env s = Some (t, s') \<and> mtime32_val t = T n
      \<and> now s \<le> n \<and> n < now s'"
    by (rule clint32_snapshot)
qed (simp_all add: clint32_less_val ticks_after32_val)

lemma clint32_spin_until_eq: "clint32_spin_until = mt32.spin"
  by (intro ext) (simp add: clint32_spin_until_def mt32.spin_def spin_until32_body_def [abs_def]
      spin_body_def [abs_def])

lemma clint32_spin_ticks_eq: "clint32_spin_ticks = mt32.spin_ticks"
  by (intro ext) (simp add: clint32_spin_ticks_def mt32.spin_ticks_def clint32_spin_until_eq cong: option.case_cong)

subsection \<open>clint64 provides it when the high word does not change\<close>

definition steady_high :: "(nat \<Rightarrow> u64) \<Rightarrow> bool" where
  "steady_high T \<longleftrightarrow> mono T \<and> (\<forall>n. time_high (T n) = time_high (T 0))"

lemma clint64_get_mtime_clock:
  assumes "clock T env"
  shows "\<exists>s'. clint64_get_mtime hf env s = Some
      (if hf then time_join (time_high (T (now s))) (time_low (T (now s + 1)))
       else time_join (time_high (T (now s + 1))) (time_low (T (now s))), s')
    \<and> now s' = now s + 2"
  using assms by (simp add: clint64_get_mtime_def split_beta clock_def time_join_def)

interpretation mt64: mtime_driver "clint64_get_mtime hf" clint64_mtime_less_than "\<lambda>t. t"
    "\<lambda>t k. t + ucast k" steady_high for hf
proof
  fix T env and s :: machine
  assume good: "steady_high T" and clk: "clock T env"
  then have "time_high (T (now s + 1)) = time_high (T (now s))"
    unfolding steady_high_def by metis
  then have "time_join (time_high (T (now s))) (time_low (T (now s + 1))) = T (now s + 1)"
    and "time_join (time_high (T (now s + 1))) (time_low (T (now s))) = T (now s)"
    by (metis time_join_split)+
  with clint64_get_mtime_clock [OF clk, of hf s] obtain s'
    where "clint64_get_mtime hf env s = Some (if hf then T (now s + 1) else T (now s), s')"
      and "now s' = now s + 2"
    by (auto simp: split: if_splits)
  then show "\<exists>t s' n. clint64_get_mtime hf env s = Some (t, s') \<and> t = T n \<and> now s \<le> n \<and> n < now s'"
    by (intro exI [of _ "if hf then T (now s + 1) else T (now s)"] exI [of _ s']
        exI [of _ "if hf then now s + 1 else now s"]) simp
qed (simp_all add: clint64_mtime_less_than_def steady_high_def)

lemma clint64_spin_until_eq: "clint64_spin_until hf = mt64.spin hf"
  by (intro ext) (simp add: clint64_spin_until_def mt64.spin_def spin_until64_body_def [abs_def]
      spin_body_def [abs_def] clint64_mtime_less_than_def cong: option.case_cong)

lemma clint64_spin_ticks_eq: "clint64_spin_ticks hf = mt64.spin_ticks hf"
  by (intro ext) (simp add: clint64_spin_ticks_def mt64.spin_ticks_def clint64_spin_until_eq
      cong: option.case_cong)

subsection \<open>Properties\<close>

text \<open>C19: the double read of clint32 returns on every monotone clock, and its value is the time at
  one moment of the call, whatever carries happen between the three register reads.\<close>

theorem clint32_get_mtime_atomic:
  assumes "mono T" and "clock T env"
  shows "\<exists>t s' n. clint32_get_mtime env s = Some (t, s') \<and> mtime32_val t = T n
    \<and> now s \<le> n \<and> n < now s'"
  using clint32_snapshot [OF assms] .

definition tick_clock :: "nat \<Rightarrow> u64" where
  "tick_clock n = of_nat (min n 1000)"

lemma mono_of_nat_min: "c < 2 ^ 64 \<Longrightarrow> mono (\<lambda>n. of_nat (min n c) :: u64)"
  by (rule monoI) (auto simp: word_le_nat_alt unat_of_nat min_def)

lemma tick_clock_mono: "mono tick_clock"
  using mono_of_nat_min [of 1000] by (simp add: tick_clock_def [abs_def])

theorem clint32_get_mtime_atomic_witness:
  "\<exists>t s' n. clint32_get_mtime (clock_env tick_clock) boot = Some (t, s') \<and> mtime32_val t = tick_clock n
    \<and> 0 \<le> n \<and> n < now s'"
  using clint32_get_mtime_atomic [OF tick_clock_mono clock_clock_env, of boot] by (simp add: boot_def)

text \<open>C40: clint64 reads the halves once: when the low word carries between the two reads, the time
  returned is 2^32 - 1 ticks behind (high word first) or ahead (low word first) of the clock.\<close>

theorem clint64_get_mtime_torn:
  assumes "clock T env" and "time_low (T (now s)) = - 1" and "T (now s + 1) = T (now s) + 1"
  shows "\<exists>s'. clint64_get_mtime hf env s =
    Some (if hf then T (now s) - (2 ^ 32 - 1) else T (now s + 1) + (2 ^ 32 - 1), s')"
proof -
  let ?t = "T (now s)"
  have "(ucast (- 1 :: u32) :: u64) = 2 ^ 32 - 1"
    by (simp add: word_eq_iff_unat unat_ucast_up unsigned_minus_1_eq_mask mask_eq_exp_minus_1)
  then have join: "time_join h (- 1) = time_join h 0 + (2 ^ 32 - 1)" for h
    by (simp add: time_join_plus)
  have behind: "time_join (time_high ?t) 0 = ?t - (2 ^ 32 - 1)"
    using assms(2) time_join_split [of ?t] by (simp add: join eq_diff_eq)
  have low1: "time_low (?t + 1) = 0"
    using assms(2) by (simp add: time_low_add) (simp add: time_low_def)
  then have ahead: "time_join (time_high (?t + 1)) (- 1) = ?t + 1 + (2 ^ 32 - 1)"
    using time_join_split [of "?t + 1"] by (simp add: join)
  show ?thesis
    using clint64_get_mtime_clock [OF assms(1), of hf s] unfolding assms(2,3) low1 behind ahead
    by blast
qed

definition carry_clock :: "nat \<Rightarrow> u64" where
  "carry_clock n = (if n = 0 then 2 ^ 32 - 1 else 2 ^ 32)"

theorem clint64_get_mtime_torn_witness:
  "\<exists>s'. clint64_get_mtime True (clock_env carry_clock) boot = Some (0, s')"
  using clint64_get_mtime_torn [OF clock_clock_env, of carry_clock boot True]
  by (simp add: carry_clock_def boot_def time_low_def)

text \<open>C28: the comparison of clint32's split time is the strict part of a linear order, the order of
  the 64-bit count, and its tick arithmetic is that of the count, carry into the high word included.\<close>

theorem clint32_time_arith:
  "(clint32_mtime_less_than a b \<longleftrightarrow> a < b)
    \<and> (a \<le> b \<longleftrightarrow> mtime32_val a \<le> mtime32_val b) \<and> (a = b \<longleftrightarrow> mtime32_val a = mtime32_val b)
    \<and> mtime32_val (ticks_after32 a k) = mtime32_val a + ucast k"
  by (auto simp: clint32_less_order mtime32_val_mono ticks_after32_val mtime32_val_inject)

text \<open>C25: \<open>clint_spin_ticks\<close> of clint32 waits at least the number of ticks asked for: it returns
  when the clock gets that far, and the clock has advanced by at least \<open>k\<close> during the call.\<close>

theorem clint32_spin_ticks_waits:
  assumes "mono T" and "clock T env" and "clint32_get_mtime env s = Some (t, s1)"
    and "unat (mtime32_val t) + unat k < 2 ^ 64" and "mtime32_val t + ucast k \<le> T m"
  shows "\<exists>s' i j. clint32_spin_ticks env k s = Some ((), s') \<and> now s \<le> i \<and> i \<le> j \<and> j < now s'
    \<and> unat (T i) + unat k \<le> unat (T j)"
  unfolding clint32_spin_ticks_eq using mt32.spin_ticks_waits [OF assms] by blast

lemma clint32_get_mtime_steady:
  assumes "clock T env" and "time_high (T (now s)) = time_high (T (now s + 2))"
  shows "\<exists>s'. clint32_get_mtime env s =
    Some (\<lparr>low = time_low (T (now s + 1)), high = time_high (T (now s))\<rparr>, s') \<and> now s' = now s + 3"
  using get_mtime32_body_clock [OF assms(1), of s] assms(2)
  unfolding clint32_get_mtime_def by (auto intro!: loop_unfold(3))

theorem clint32_spin_ticks_waits_witness:
  "\<exists>s' i j. clint32_spin_ticks (clock_env tick_clock) 5 boot = Some ((), s') \<and> i \<le> j \<and> j < now s'
    \<and> unat (tick_clock i) + 5 \<le> unat (tick_clock j)"
proof -
  obtain s' where g: "clint32_get_mtime (clock_env tick_clock) boot =
      Some (\<lparr>low = time_low 1, high = time_high 0\<rparr>, s')"
    using clint32_get_mtime_steady [OF clock_clock_env, of tick_clock boot]
    by (auto simp: tick_clock_def boot_def time_high_def)
  have v: "mtime32_val \<lparr>low = time_low 1, high = time_high 0\<rparr> = 1"
    by (simp add: mtime32_val_def time_join_def time_low_def time_high_def)
  show ?thesis
    using clint32_spin_ticks_waits [OF tick_clock_mono clock_clock_env g, of 5 6]
    by (simp add: v tick_clock_def) blast
qed

definition slow_clock :: "nat \<Rightarrow> u64" where
  "slow_clock n = (if n < 3 then 2 ^ 32 - 2 else 2 ^ 32 - 1)"

text \<open>Clint32's \<open>clint_get_core_freq\<close> adds \<open>num_ticks\<close> to the low word without a carry: on a
  clock whose low word is about to wrap, its measuring loop leaves at once and the final division
  divides by zero.\<close>

theorem clint32_core_freq_no_carry:
  "\<exists>s'. mono slow_clock \<and> clint32_get_core_freq (clock_env slow_clock) 2 1 boot =
     Some (Fault DivisionByZero, s')"
proof -
  let ?env = "clock_env slow_clock"
  have clk: "clock slow_clock ?env" by simp
  have hi: "time_high (slow_clock n) = 0" for n
    by (simp add: slow_clock_def time_high_def word_eq_iff_unat unsigned_ucast_eq)
  have lo: "time_low (slow_clock n) = (if n < 3 then - 2 else - 1)" for n
    by (simp add: slow_clock_def time_low_def)
  let ?t0 = "\<lparr>low = - 2, high = 0\<rparr>" and ?t1 = "\<lparr>low = - 1, high = 0\<rparr>"
  have g: "\<exists>s'. clint32_get_mtime ?env s = Some (if now s + 1 < 3 then ?t0 else ?t1, s') \<and> now s' = now s + 3"
    for s
    using clint32_get_mtime_steady [OF clk, of s] by (cases "now s < 2") (simp_all add: hi lo)
  obtain s1 where s1: "clint32_get_mtime ?env boot = Some (?t0, s1)" "now s1 = 3"
    using g [of boot] by (auto simp: boot_def)
  obtain s2 where s2: "clint32_get_mtime ?env (snd (get_mcycle ?env s1)) = Some (?t1, s2)" "now s2 = 7"
    using g [of "snd (get_mcycle ?env s1)"] s1(2) by auto
  obtain s3 where s3: "clint32_get_mtime ?env (snd (get_mcycle ?env s2)) = Some (?t1, s3)"
    using g [of "snd (get_mcycle ?env s2)"] s2(2) by auto
  have "loop (freq32_start_body ?env ?t0) s1 = Some ((fst (get_mcycle ?env s1), ?t1), s2)"
    by (rule loop_unfold(3)) (simp add: freq32_start_body_def split_beta s2)
  moreover have "loop (freq32_end_body ?env ?t1 2) s2 = Some ((fst (get_mcycle ?env s2), ?t1), s3)"
    by (rule loop_unfold(3))
       (simp add: freq32_end_body_def split_beta s3 clint32_mtime_less_than_def)
  moreover have "mono slow_clock"
    by (rule monoI) (simp add: slow_clock_def word_le_nat_alt)
  ultimately show ?thesis
    by (simp add: clint32_get_core_freq_def s1 freq32_result_def)
qed

definition cmp_low :: "u32 \<Rightarrow> addr" where
  "cmp_low i = reg32 base_clint (CLINT_MTIMECMP_LOW0_REG_OFFSET + push_bit 3 i)"

definition cmp_high :: "u32 \<Rightarrow> addr" where
  "cmp_high i = reg32 base_clint (CLINT_MTIMECMP_HIGH0_REG_OFFSET + push_bit 3 i)"

lemma cmp_sep: "sep32 (cmp_high i) (cmp_low i)" "sep32 (cmp_low i) (cmp_high i)"
  by (simp_all add: sep32_def cmp_low_def cmp_high_def reg32_def reg_offsets)

text \<open>\<open>clint_sleep_until\<close> of clint32 either finds the target strictly past and touches
  nothing, or leaves the target in the timer's compare register and sleeps, in this order: high
  word, low word, fence, timer interrupt enable, global interrupt enable, wfi.\<close>

theorem clint32_sleep_arms:
  assumes "mono T" and "clock T env" and "env_holds env {cmp_low i, cmp_high i}"
  shows "\<exists>t s1 s'. clint32_get_mtime env s = Some (t, s1) \<and> clint32_sleep_until env i tgt s = Some ((), s')
    \<and> (if mtime32_val tgt < mtime32_val t then s' = s1
       else peek32 s' (cmp_low i) = low tgt \<and> peek32 s' (cmp_high i) = high tgt
         \<and> mie s' = mie s1 OR 128 \<and> mstatus s' = mstatus s1 OR 8
         \<and> trace s' = trace s1 @ [Store32 (cmp_high i) (high tgt), Store32 (cmp_low i) (low tgt), Fence,
             CsrSet MIE 128, CsrSet MSTATUS 8, Wfi])"
proof -
  obtain t s1 where g: "clint32_get_mtime env s = Some (t, s1)"
    using clint32_snapshot [OF assms(1,2)] by blast
  note h = env_holdsD [OF assms(3)]
  have regs: "peek32 (arm_and_wait env (clint32_set_mtimecmpx env i tgt s1)) (cmp_low i) = low tgt"
    "peek32 (arm_and_wait env (clint32_set_mtimecmpx env i tgt s1)) (cmp_high i) = high tgt"
    by (simp_all add: peek32_def arm_and_wait_def clint32_set_mtimecmpx_def Let_def h
        load32_store32_same load32_store32_sep cmp_sep flip: cmp_low_def cmp_high_def)
  show ?thesis
    using g regs
    by (auto simp: clint32_sleep_until_def clint32_less_val arm_and_wait_def
        clint32_set_mtimecmpx_def Let_def simp flip: cmp_low_def cmp_high_def)
qed

theorem clint32_sleep_arms_witness:
  "\<exists>s'. clint32_sleep_until (clock_env tick_clock) 0 \<lparr>low = 100, high = 0\<rparr> boot = Some ((), s')
    \<and> peek32 s' 0x02044000 = 100 \<and> last (trace s') = Wfi"
proof -
  have "env_holds (clock_env tick_clock) {cmp_low 0, cmp_high 0}"
    by (auto simp: env_holds_def clock_env_def load32_store32_sep sep32_def cmp_low_def cmp_high_def
        reg32_def reg_offsets)
  note sl = clint32_sleep_arms [OF tick_clock_mono clock_clock_env this, of boot "\<lparr>low = 100, high = 0\<rparr>"]
  obtain s1 where "clint32_get_mtime (clock_env tick_clock) boot =
      Some (\<lparr>low = time_low 1, high = time_high 0\<rparr>, s1)"
    using clint32_get_mtime_steady [OF clock_clock_env, of tick_clock boot]
    by (auto simp: tick_clock_def boot_def time_high_def)
  moreover have "mtime32_val \<lparr>low = time_low 1, high = time_high 0\<rparr> = 1"
    "mtime32_val \<lparr>low = 100, high = 0\<rparr> = 100"
    by (simp_all add: mtime32_val_def time_join_def time_low_def time_high_def)
  moreover have "cmp_low 0 = 0x02044000"
    by (simp add: cmp_low_def reg32_def reg_offsets)
  ultimately show ?thesis using sl by auto
qed

text \<open>The trap vector gives the software interrupt precedence: it clears msip and leaves the
  timer interrupt alone; only when no software interrupt is pending does it disable the timer
  interrupt; with neither pending it changes nothing.\<close>

theorem default_trap_vector_cases:
  "let m = mip (env (now s) (hw s)); s' = default_trap_vector env s in
   (bit m 3 \<longrightarrow> peek32 s' (reg32 base_clint CLINT_MSIP_REG_OFFSET) = 0 \<and> mie s' = mie s) \<and>
   (\<not> bit m 3 \<and> bit m 7 \<longrightarrow> mie s' = mie s AND NOT 128 \<and> mem (hw s') = mem (env (Suc (now s)) (env (now s) (hw s)))) \<and>
   (\<not> bit m 3 \<and> \<not> bit m 7 \<longrightarrow> mie s' = mie s \<and> mem (hw s') = mem (env (now s) (hw s)))"
proof -
  let ?m = "mip (env (now s) (hw s))"
  have b: "(ucast ?m :: u32) AND 8 = 0 \<longleftrightarrow> \<not> bit ?m 3" "(ucast ?m :: u32) AND 128 = 0 \<longleftrightarrow> \<not> bit ?m 7"
    using and_exp_eq_0_iff_not_bit [of "ucast ?m :: u32" 3] and_exp_eq_0_iff_not_bit [of "ucast ?m :: u32" 7]
    by (simp_all add: bit_ucast_iff)
  show ?thesis
    by (auto simp: default_trap_vector_def split_beta b Let_def peek32_def load32_store32_same)
qed

definition msip_boot :: machine where
  "msip_boot = boot\<lparr>hw := (hw boot)\<lparr>mip := 0x88\<rparr>, mie := 128\<rparr>"

theorem default_trap_vector_cases_witness:
  "mie (default_trap_vector quiet_env msip_boot) = 128"
  using default_trap_vector_cases [of quiet_env msip_boot]
  by (simp add: Let_def msip_boot_def boot_def quiet_env_def bit_numeral_rec)

end
