(* ===== verification/Hyperbus.thy ===== *)
theory Hyperbus
  imports SocMap
begin

section \<open>The HyperBus driver (host/drivers/hyperbus)\<close>

text \<open>
  Register accessors of hyperbus.h, one pair per field and per-chip window, and the configuration
  operations of hyperbus.c on the struct \<open>hyperram_cfg_t\<close>; its two arrays of length
  \<open>HYPERBUS_NUM_CHIPS\<close> are lists. The console output of \<open>hyperram_cfg_write\<close> and
  \<open>hyperram_cfg_print\<close> is not modelled.
\<close>

definition HYPERBUS_NUM_CHIPS :: nat where
  "HYPERBUS_NUM_CHIPS = 2"

record hyperram_cfg =
  t_latency_access :: u32
  en_latency_additional :: u32
  t_burst_max :: u32
  t_read_write_recovery :: u32
  t_rx_clk_delay :: u32
  t_tx_clk_delay :: u32
  address_mask_msb :: u32
  address_space :: u32
  phys_in_use :: u32
  which_phy :: u32
  t_csh_cycles :: u32
  chip_base :: "u32 list"
  chip_space :: "u32 list"

subsection \<open>Register accessors\<close>

definition hyperbus_set_t_latency_access :: "env \<Rightarrow> addr \<Rightarrow> u32 \<Rightarrow> machine \<Rightarrow> machine" where
  "hyperbus_set_t_latency_access env base val s = wr32 env (reg32 base HYPERBUS_T_LATENCY_ACCESS_REG_OFFSET) val s"

definition hyperbus_get_t_latency_access :: "env \<Rightarrow> addr \<Rightarrow> machine \<Rightarrow> u32 \<times> machine" where
  "hyperbus_get_t_latency_access env base s = rd32 env (reg32 base HYPERBUS_T_LATENCY_ACCESS_REG_OFFSET) s"

definition hyperbus_set_en_latency_additional :: "env \<Rightarrow> addr \<Rightarrow> u32 \<Rightarrow> machine \<Rightarrow> machine" where
  "hyperbus_set_en_latency_additional env base val s = wr32 env (reg32 base HYPERBUS_EN_LATENCY_ADDITIONAL_REG_OFFSET) val s"

definition hyperbus_get_en_latency_additional :: "env \<Rightarrow> addr \<Rightarrow> machine \<Rightarrow> u32 \<times> machine" where
  "hyperbus_get_en_latency_additional env base s = rd32 env (reg32 base HYPERBUS_EN_LATENCY_ADDITIONAL_REG_OFFSET) s"

definition hyperbus_set_t_burst_max :: "env \<Rightarrow> addr \<Rightarrow> u32 \<Rightarrow> machine \<Rightarrow> machine" where
  "hyperbus_set_t_burst_max env base val s = wr32 env (reg32 base HYPERBUS_T_BURST_MAX_REG_OFFSET) val s"

definition hyperbus_get_t_burst_max :: "env \<Rightarrow> addr \<Rightarrow> machine \<Rightarrow> u32 \<times> machine" where
  "hyperbus_get_t_burst_max env base s = rd32 env (reg32 base HYPERBUS_T_BURST_MAX_REG_OFFSET) s"

definition hyperbus_set_t_read_write_recovery :: "env \<Rightarrow> addr \<Rightarrow> u32 \<Rightarrow> machine \<Rightarrow> machine" where
  "hyperbus_set_t_read_write_recovery env base val s = wr32 env (reg32 base HYPERBUS_T_READ_WRITE_RECOVERY_REG_OFFSET) val s"

definition hyperbus_get_t_read_write_recovery :: "env \<Rightarrow> addr \<Rightarrow> machine \<Rightarrow> u32 \<times> machine" where
  "hyperbus_get_t_read_write_recovery env base s = rd32 env (reg32 base HYPERBUS_T_READ_WRITE_RECOVERY_REG_OFFSET) s"

definition hyperbus_set_t_rx_clk_delay :: "env \<Rightarrow> addr \<Rightarrow> u32 \<Rightarrow> machine \<Rightarrow> machine" where
  "hyperbus_set_t_rx_clk_delay env base val s = wr32 env (reg32 base HYPERBUS_T_RX_CLK_DELAY_REG_OFFSET) val s"

definition hyperbus_get_t_rx_clk_delay :: "env \<Rightarrow> addr \<Rightarrow> machine \<Rightarrow> u32 \<times> machine" where
  "hyperbus_get_t_rx_clk_delay env base s = rd32 env (reg32 base HYPERBUS_T_RX_CLK_DELAY_REG_OFFSET) s"

definition hyperbus_set_t_tx_clk_delay :: "env \<Rightarrow> addr \<Rightarrow> u32 \<Rightarrow> machine \<Rightarrow> machine" where
  "hyperbus_set_t_tx_clk_delay env base val s = wr32 env (reg32 base HYPERBUS_T_TX_CLK_DELAY_REG_OFFSET) val s"

definition hyperbus_get_t_tx_clk_delay :: "env \<Rightarrow> addr \<Rightarrow> machine \<Rightarrow> u32 \<times> machine" where
  "hyperbus_get_t_tx_clk_delay env base s = rd32 env (reg32 base HYPERBUS_T_TX_CLK_DELAY_REG_OFFSET) s"

definition hyperbus_set_address_mask_msb :: "env \<Rightarrow> addr \<Rightarrow> u32 \<Rightarrow> machine \<Rightarrow> machine" where
  "hyperbus_set_address_mask_msb env base val s = wr32 env (reg32 base HYPERBUS_ADDRESS_MASK_MSB_REG_OFFSET) val s"

definition hyperbus_get_address_mask_msb :: "env \<Rightarrow> addr \<Rightarrow> machine \<Rightarrow> u32 \<times> machine" where
  "hyperbus_get_address_mask_msb env base s = rd32 env (reg32 base HYPERBUS_ADDRESS_MASK_MSB_REG_OFFSET) s"

definition hyperbus_set_address_space :: "env \<Rightarrow> addr \<Rightarrow> u32 \<Rightarrow> machine \<Rightarrow> machine" where
  "hyperbus_set_address_space env base val s = wr32 env (reg32 base HYPERBUS_ADDRESS_SPACE_REG_OFFSET) val s"

definition hyperbus_get_address_space :: "env \<Rightarrow> addr \<Rightarrow> machine \<Rightarrow> u32 \<times> machine" where
  "hyperbus_get_address_space env base s = rd32 env (reg32 base HYPERBUS_ADDRESS_SPACE_REG_OFFSET) s"

definition hyperbus_set_phys_in_use :: "env \<Rightarrow> addr \<Rightarrow> u32 \<Rightarrow> machine \<Rightarrow> machine" where
  "hyperbus_set_phys_in_use env base val s = wr32 env (reg32 base HYPERBUS_PHYS_IN_USE_REG_OFFSET) val s"

definition hyperbus_get_phys_in_use :: "env \<Rightarrow> addr \<Rightarrow> machine \<Rightarrow> u32 \<times> machine" where
  "hyperbus_get_phys_in_use env base s = rd32 env (reg32 base HYPERBUS_PHYS_IN_USE_REG_OFFSET) s"

definition hyperbus_set_which_phy :: "env \<Rightarrow> addr \<Rightarrow> u32 \<Rightarrow> machine \<Rightarrow> machine" where
  "hyperbus_set_which_phy env base val s = wr32 env (reg32 base HYPERBUS_WHICH_PHY_REG_OFFSET) val s"

definition hyperbus_get_which_phy :: "env \<Rightarrow> addr \<Rightarrow> machine \<Rightarrow> u32 \<times> machine" where
  "hyperbus_get_which_phy env base s = rd32 env (reg32 base HYPERBUS_WHICH_PHY_REG_OFFSET) s"

definition hyperbus_set_t_csh_cycles :: "env \<Rightarrow> addr \<Rightarrow> u32 \<Rightarrow> machine \<Rightarrow> machine" where
  "hyperbus_set_t_csh_cycles env base val s = wr32 env (reg32 base HYPERBUS_T_CSH_CYCLES_REG_OFFSET) val s"

definition hyperbus_get_t_csh_cycles :: "env \<Rightarrow> addr \<Rightarrow> machine \<Rightarrow> u32 \<times> machine" where
  "hyperbus_get_t_csh_cycles env base s = rd32 env (reg32 base HYPERBUS_T_CSH_CYCLES_REG_OFFSET) s"

definition hyperbus_set_chip_start :: "env \<Rightarrow> addr \<Rightarrow> u32 \<Rightarrow> u32 \<Rightarrow> machine \<Rightarrow> machine" where
  "hyperbus_set_chip_start env base chip val s =
     wr32 env (reg32 base (HYPERBUS_CHIP_START_REG_OFFSET chip)) val s"

definition hyperbus_get_chip_start :: "env \<Rightarrow> addr \<Rightarrow> u32 \<Rightarrow> machine \<Rightarrow> u32 \<times> machine" where
  "hyperbus_get_chip_start env base chip s =
     rd32 env (reg32 base (HYPERBUS_CHIP_START_REG_OFFSET chip)) s"

definition hyperbus_set_chip_end :: "env \<Rightarrow> addr \<Rightarrow> u32 \<Rightarrow> u32 \<Rightarrow> machine \<Rightarrow> machine" where
  "hyperbus_set_chip_end env base chip val s =
     wr32 env (reg32 base (HYPERBUS_CHIP_END_REG_OFFSET chip)) val s"

definition hyperbus_get_chip_end :: "env \<Rightarrow> addr \<Rightarrow> u32 \<Rightarrow> machine \<Rightarrow> u32 \<times> machine" where
  "hyperbus_get_chip_end env base chip s =
     rd32 env (reg32 base (HYPERBUS_CHIP_END_REG_OFFSET chip)) s"

definition hyperbus_set_chip_range ::
  "env \<Rightarrow> addr \<Rightarrow> u32 \<Rightarrow> u32 \<Rightarrow> u32 \<Rightarrow> machine \<Rightarrow> machine" where
  "hyperbus_set_chip_range env base chip start_addr end_addr s =
     hyperbus_set_chip_end env base chip end_addr (hyperbus_set_chip_start env base chip start_addr s)"

subsection \<open>Configuration\<close>

definition write_chip :: "env \<Rightarrow> addr \<Rightarrow> hyperram_cfg \<Rightarrow> nat \<Rightarrow> machine \<Rightarrow> machine" where
  "write_chip env base cfg i s =
     (let start = chip_base cfg ! i; end_addr = chip_base cfg ! i + chip_space cfg ! i in
      hyperbus_set_chip_end env base (of_nat i) end_addr
        (hyperbus_set_chip_start env base (of_nat i) start s))"

definition hyperram_cfg_write ::
  "env \<Rightarrow> addr \<Rightarrow> hyperram_cfg option \<Rightarrow> machine \<Rightarrow> int \<times> machine" where
  "hyperram_cfg_write env base cfg s =
     (if base = 0 \<or> cfg = None then (- 1, s)
      else let cfg = the cfg;
        s = hyperbus_set_t_latency_access env base (t_latency_access cfg) s;
        s = hyperbus_set_en_latency_additional env base (en_latency_additional cfg) s;
        s = hyperbus_set_t_burst_max env base (t_burst_max cfg) s;
        s = hyperbus_set_t_read_write_recovery env base (t_read_write_recovery cfg) s;
        s = hyperbus_set_t_rx_clk_delay env base (t_rx_clk_delay cfg) s;
        s = hyperbus_set_t_tx_clk_delay env base (t_tx_clk_delay cfg) s;
        s = hyperbus_set_address_mask_msb env base (address_mask_msb cfg) s;
        s = hyperbus_set_address_space env base (address_space cfg) s;
        s = hyperbus_set_phys_in_use env base (phys_in_use cfg) s;
        s = hyperbus_set_which_phy env base (which_phy cfg) s;
        s = hyperbus_set_t_csh_cycles env base (t_csh_cycles cfg) s
      in (0, fold (write_chip env base cfg) [0..<HYPERBUS_NUM_CHIPS] s))"

text \<open>\<open>cfg.chip_space[i]\<close> is read back as the window's end less its start.\<close>

definition read_chip :: "env \<Rightarrow> addr \<Rightarrow> nat \<Rightarrow> hyperram_cfg \<times> machine \<Rightarrow> hyperram_cfg \<times> machine" where
  "read_chip env base i cs = (case cs of (cfg, s) \<Rightarrow>
     let (start, s) = hyperbus_get_chip_start env base (of_nat i) s;
         (end_addr, s) = hyperbus_get_chip_end env base (of_nat i) s
     in (cfg\<lparr>chip_base := chip_base cfg @ [start], chip_space := chip_space cfg @ [end_addr - start]\<rparr>, s))"

definition hyperram_cfg_read :: "env \<Rightarrow> addr \<Rightarrow> machine \<Rightarrow> hyperram_cfg \<times> machine" where
  "hyperram_cfg_read env base s =
     (let
        (f0, s) = rd32 env (reg32 base HYPERBUS_T_LATENCY_ACCESS_REG_OFFSET) s;
        (f1, s) = rd32 env (reg32 base HYPERBUS_EN_LATENCY_ADDITIONAL_REG_OFFSET) s;
        (f2, s) = rd32 env (reg32 base HYPERBUS_T_BURST_MAX_REG_OFFSET) s;
        (f3, s) = rd32 env (reg32 base HYPERBUS_T_READ_WRITE_RECOVERY_REG_OFFSET) s;
        (f4, s) = rd32 env (reg32 base HYPERBUS_T_RX_CLK_DELAY_REG_OFFSET) s;
        (f5, s) = rd32 env (reg32 base HYPERBUS_T_TX_CLK_DELAY_REG_OFFSET) s;
        (f6, s) = rd32 env (reg32 base HYPERBUS_ADDRESS_MASK_MSB_REG_OFFSET) s;
        (f7, s) = rd32 env (reg32 base HYPERBUS_ADDRESS_SPACE_REG_OFFSET) s;
        (f8, s) = rd32 env (reg32 base HYPERBUS_PHYS_IN_USE_REG_OFFSET) s;
        (f9, s) = rd32 env (reg32 base HYPERBUS_WHICH_PHY_REG_OFFSET) s;
        (f10, s) = rd32 env (reg32 base HYPERBUS_T_CSH_CYCLES_REG_OFFSET) s
      in fold (read_chip env base) [0..<HYPERBUS_NUM_CHIPS]
        (\<lparr>t_latency_access = f0, en_latency_additional = f1, t_burst_max = f2, t_read_write_recovery = f3, t_rx_clk_delay = f4, t_tx_clk_delay = f5, address_mask_msb = f6, address_space = f7, phys_in_use = f8, which_phy = f9, t_csh_cycles = f10,
          chip_base = [], chip_space = []\<rparr>, s))"

text \<open>\<open>hyperram_cfg_print\<close> reads the configuration and prints it; NULL prints nothing.\<close>

definition hyperram_cfg_print :: "env \<Rightarrow> addr \<Rightarrow> machine \<Rightarrow> machine" where
  "hyperram_cfg_print env base s = (if base = 0 then s else snd (hyperram_cfg_read env base s))"

definition hyperram_cfg_default :: "u32 \<Rightarrow> u32 \<Rightarrow> hyperram_cfg" where
  "hyperram_cfg_default cbase csize =
     \<lparr>t_latency_access = 0x6, en_latency_additional = 0x0, t_burst_max = 350,
      t_read_write_recovery = 0x6, t_rx_clk_delay = 0x8, t_tx_clk_delay = 0x8,
      address_mask_msb = 25, address_space = 0x0, phys_in_use = 0x0, which_phy = 0x0,
      t_csh_cycles = 0x1,
      chip_base = map (\<lambda>i. cbase + of_nat i * csize) [0..<HYPERBUS_NUM_CHIPS],
      chip_space = map (\<lambda>i. csize) [0..<HYPERBUS_NUM_CHIPS]\<rparr>"

subsection \<open>What the writes leave in the registers\<close>

lemma chips [simp]: "[0..<HYPERBUS_NUM_CHIPS] = [0, 1]"
  by (simp add: HYPERBUS_NUM_CHIPS_def upt_rec)

text \<open>The driver's registers, and the list of writes a configuration amounts to.\<close>

definition hyper_offsets :: "addr list" where
  "hyper_offsets = [HYPERBUS_T_LATENCY_ACCESS_REG_OFFSET, HYPERBUS_EN_LATENCY_ADDITIONAL_REG_OFFSET, HYPERBUS_T_BURST_MAX_REG_OFFSET, HYPERBUS_T_READ_WRITE_RECOVERY_REG_OFFSET, HYPERBUS_T_RX_CLK_DELAY_REG_OFFSET, HYPERBUS_T_TX_CLK_DELAY_REG_OFFSET, HYPERBUS_ADDRESS_MASK_MSB_REG_OFFSET, HYPERBUS_ADDRESS_SPACE_REG_OFFSET, HYPERBUS_PHYS_IN_USE_REG_OFFSET, HYPERBUS_WHICH_PHY_REG_OFFSET, HYPERBUS_T_CSH_CYCLES_REG_OFFSET,
     HYPERBUS_CHIP_START_REG_OFFSET 0, HYPERBUS_CHIP_END_REG_OFFSET 0,
     HYPERBUS_CHIP_START_REG_OFFSET 1, HYPERBUS_CHIP_END_REG_OFFSET 1]"

definition hyper_regs :: "addr \<Rightarrow> addr set" where
  "hyper_regs base = (\<lambda>off. base + off) ` set hyper_offsets"

definition cfg_values :: "hyperram_cfg \<Rightarrow> u32 list" where
  "cfg_values c = [t_latency_access c, en_latency_additional c, t_burst_max c, t_read_write_recovery c, t_rx_clk_delay c, t_tx_clk_delay c, address_mask_msb c, address_space c, phys_in_use c, which_phy c, t_csh_cycles c,
     chip_base c ! 0, chip_base c ! 0 + chip_space c ! 0,
     chip_base c ! 1, chip_base c ! 1 + chip_space c ! 1]"

definition wf_cfg :: "hyperram_cfg \<Rightarrow> bool" where
  "wf_cfg c \<longleftrightarrow> length (chip_base c) = HYPERBUS_NUM_CHIPS \<and> length (chip_space c) = HYPERBUS_NUM_CHIPS"

lemmas hyper_set_defs =
  hyperbus_set_t_latency_access_def
  hyperbus_set_en_latency_additional_def
  hyperbus_set_t_burst_max_def
  hyperbus_set_t_read_write_recovery_def
  hyperbus_set_t_rx_clk_delay_def
  hyperbus_set_t_tx_clk_delay_def
  hyperbus_set_address_mask_msb_def
  hyperbus_set_address_space_def
  hyperbus_set_phys_in_use_def
  hyperbus_set_which_phy_def
  hyperbus_set_t_csh_cycles_def
  hyperbus_set_chip_start_def hyperbus_set_chip_end_def

lemma cfg_write_eq:
  assumes "base \<noteq> 0"
  shows "hyperram_cfg_write env base (Some c) s =
    (0, fold (\<lambda>(a, v). wr32 env a v) (zip (map (\<lambda>off. base + off) hyper_offsets) (cfg_values c)) s)"
  using assms
  by (simp add: hyperram_cfg_write_def hyper_set_defs hyper_offsets_def cfg_values_def write_chip_def
      reg32_def Let_def)

lemma hyper_offsets_sep: "sorted_wrt sep32 hyper_offsets"
proof -
  have eq: "hyper_offsets = map of_nat [0, 4, 8, 12, 16, 20, 24, 28, 32, 36, 40, 44, 48, 52, 56 :: nat]"
    by (simp add: hyper_offsets_def reg_offsets)
  show ?thesis
    unfolding eq by (rule sorted_sep32) simp_all
qed

lemma hyper_sorted: "sorted_wrt sep32 (map (\<lambda>off. base + off) hyper_offsets)"
  using hyper_offsets_sep by (simp add: sorted_wrt_map)

lemma cfg_write_regs:
  assumes "env_holds env (hyper_regs base)" and "base \<noteq> 0" and "i < 15"
  shows "peek32 (snd (hyperram_cfg_write env base (Some c) s)) (base + hyper_offsets ! i) =
    cfg_values c ! i"
proof -
  let ?ws = "zip (map (\<lambda>off. base + off) hyper_offsets) (cfg_values c)"
  have len: "length hyper_offsets = 15" "length (cfg_values c) = 15"
    by (simp_all add: hyper_offsets_def cfg_values_def)
  have fsts: "map fst ?ws = map (\<lambda>off. base + off) hyper_offsets"
    using len by simp
  have "sorted_wrt (\<lambda>p q. sep32 (fst p) (fst q)) ?ws"
    using hyper_sorted [of base] by (simp only: sorted_wrt_map [of _ fst, symmetric] fsts)
  moreover have "fst ` set ?ws \<subseteq> hyper_regs base"
    unfolding hyper_regs_def using len by (auto dest: set_zip_leftD)
  moreover have "(base + hyper_offsets ! i, cfg_values c ! i) \<in> set ?ws"
    using assms(3) len by (auto simp: in_set_zip intro!: exI [of _ i])
  ultimately have "peek32 (reg_bus.wr_list (wr32 env) ?ws s) (base + hyper_offsets ! i) = cfg_values c ! i"
    by (rule reg_bus.rd_wr_list_in [OF reg_bus_held [OF assms(1)]])
  then show ?thesis
    by (simp add: cfg_write_eq [OF assms(2)] reg_bus.wr_list_def [OF reg_bus_held [OF assms(1)]])
qed

definition cfg_of :: "u32 list \<Rightarrow> hyperram_cfg" where
  "cfg_of v = \<lparr>t_latency_access = v ! 0, en_latency_additional = v ! 1, t_burst_max = v ! 2, t_read_write_recovery = v ! 3, t_rx_clk_delay = v ! 4, t_tx_clk_delay = v ! 5, address_mask_msb = v ! 6, address_space = v ! 7, phys_in_use = v ! 8, which_phy = v ! 9, t_csh_cycles = v ! 10,
     chip_base = [v ! 11, v ! 13], chip_space = [v ! 12 - v ! 11, v ! 14 - v ! 13]\<rparr>"

lemma cfg_read_eq:
  assumes "env_holds env (hyper_regs base)"
  shows "fst (hyperram_cfg_read env base s) = cfg_of (map (\<lambda>off. peek32 s (base + off)) hyper_offsets)"
proof -
  have "base + off \<in> hyper_regs base" if "off \<in> set hyper_offsets" for off
    using that by (simp add: hyper_regs_def)
  then have held: "off \<in> set hyper_offsets \<Longrightarrow> fst (rd32 env (base + off) t) = peek32 t (base + off)"
    "off \<in> set hyper_offsets \<Longrightarrow> peek32 (snd (rd32 env b t)) (base + off) = peek32 t (base + off)" for off b t
    by (simp_all only: rd32_held [OF assms])
  note mem = hyper_offsets_def [THEN arg_cong [where f = set], unfolded list.set]
  show ?thesis
    by (simp add: hyperram_cfg_read_def reg32_def split_beta Let_def read_chip_def cfg_of_def mem
        hyperbus_get_chip_start_def
        hyperbus_get_chip_end_def held hyper_offsets_def del: fst_rd32)
qed

lemma cfg_of_values: "wf_cfg c \<Longrightarrow> cfg_of (cfg_values c) = c"
  by (cases c) (auto simp: cfg_of_def cfg_values_def wf_cfg_def HYPERBUS_NUM_CHIPS_def
      numeral_2_eq_2 length_Suc_conv)

subsection \<open>Properties\<close>



definition cfg_fits :: "hyperram_cfg \<Rightarrow> bool" where
  "cfg_fits c \<longleftrightarrow> t_latency_access c < 2 ^ 4 \<and> en_latency_additional c < 2 \<and> t_burst_max c < 2 ^ 16
    \<and> t_read_write_recovery c < 2 ^ 4 \<and> t_rx_clk_delay c < 2 ^ 4 \<and> t_tx_clk_delay c < 2 ^ 4
    \<and> address_mask_msb c < 2 ^ 5 \<and> address_space c < 2 \<and> phys_in_use c < 2 \<and> which_phy c < 2
    \<and> t_csh_cycles c < 2 ^ 4"

text \<open>The default configuration programs every field within its RTL width, and the two
  chip windows it describes are adjacent, of the size given, and together start at the base.\<close>

theorem hyperram_cfg_default_windows:
  "let c = hyperram_cfg_default b n in wf_cfg c \<and> cfg_fits c
    \<and> cfg_values c ! 11 = b \<and> cfg_values c ! 12 = b + n
    \<and> cfg_values c ! 13 = cfg_values c ! 12 \<and> cfg_values c ! 14 = b + 2 * n"
proof -
  have "wf_cfg (hyperram_cfg_default b n)"
    by (simp add: hyperram_cfg_default_def wf_cfg_def HYPERBUS_NUM_CHIPS_def)
  moreover have "cfg_fits (hyperram_cfg_default b n)"
    by (simp add: hyperram_cfg_default_def cfg_fits_def)
  moreover have "cfg_values (hyperram_cfg_default b n) ! 11 = b"
    "cfg_values (hyperram_cfg_default b n) ! 12 = b + n"
    "cfg_values (hyperram_cfg_default b n) ! 13 = b + n"
    "cfg_values (hyperram_cfg_default b n) ! 14 = b + 2 * n"
    by (simp_all add: hyperram_cfg_default_def cfg_values_def)
  ultimately show ?thesis by (simp add: Let_def)
qed

text \<open>With a NULL base or a NULL configuration, \<open>hyperram_cfg_write\<close> returns -1 and touches no
  register, and \<open>hyperram_cfg_print\<close> of a NULL base touches none either.\<close>

theorem hyperram_null_safe:
  "hyperram_cfg_write env 0 cfg s = (- 1, s) \<and> hyperram_cfg_write env base None s = (- 1, s)
    \<and> hyperram_cfg_print env 0 s = s"
  by (simp add: hyperram_cfg_write_def hyperram_cfg_print_def)

end
