(* ===== verification/Uart.thy ===== *)
theory Uart
  imports SocMap
begin

section \<open>The interface HAL and the UART (host/hal, host/drivers/uart\_apb, host/runtime)\<close>

text \<open>
  The HAL's interface object with its table of function pointers, the NULL-guarding wrappers of
  interface\_api.c, the APB UART driver behind it, and the character I/O of the host runtime on top.
  A NULL pointer is \<open>None\<close>. A driver function sees the instance without its \<open>api\<close> field,
  which no driver reads. A blocking call that never returns is \<open>None\<close>; its result is an
  \<open>outcome\<close> because the divisor computation can divide by zero.
\<close>

subsection \<open>The HAL interface\<close>

record uart_config =
  baud_rate :: u32
  clk_freq_hz :: u32
  data_bits :: u8
  parity :: u8
  stop_bits :: u8

record chi_inst =
  if_base :: addr
  if_cfg :: "uart_config option"

type_synonym 'a io = "env \<Rightarrow> machine \<Rightarrow> ('a outcome \<times> machine) option"
type_synonym callback = "chi_inst \<Rightarrow> machine \<Rightarrow> machine"

record chi_interface_api =
  api_open :: "(chi_inst \<Rightarrow> int io) option"
  api_close :: "(chi_inst \<Rightarrow> int io) option"
  api_read :: "(chi_inst \<Rightarrow> bool \<Rightarrow> u32 \<Rightarrow> callback option \<Rightarrow> (int \<times> u8 list) io) option"
  api_write :: "(chi_inst \<Rightarrow> u8 list option \<Rightarrow> u32 \<Rightarrow> callback option \<Rightarrow> int io) option"
  api_flush :: "(chi_inst \<Rightarrow> int io) option"

record chi_interface =
  inst :: chi_inst
  api :: "chi_interface_api option"

definition iface_open :: "chi_interface option \<Rightarrow> int io" where
  "iface_open iface env s = (case iface of None \<Rightarrow> Some (Ret (- 1), s)
   | Some i \<Rightarrow> (case api i of None \<Rightarrow> Some (Ret (- 1), s)
     | Some a \<Rightarrow> (case api_open a of None \<Rightarrow> Some (Ret (- 1), s) | Some f \<Rightarrow> f (inst i) env s)))"

definition iface_close :: "chi_interface option \<Rightarrow> int io" where
  "iface_close iface env s = (case iface of None \<Rightarrow> Some (Ret (- 1), s)
   | Some i \<Rightarrow> (case api i of None \<Rightarrow> Some (Ret (- 1), s)
     | Some a \<Rightarrow> (case api_close a of None \<Rightarrow> Some (Ret (- 1), s) | Some f \<Rightarrow> f (inst i) env s)))"

definition iface_read ::
  "chi_interface option \<Rightarrow> bool \<Rightarrow> u32 \<Rightarrow> callback option \<Rightarrow> (int \<times> u8 list) io" where
  "iface_read iface buffer sz cb env s = (case iface of None \<Rightarrow> Some (Ret (- 1, []), s)
   | Some i \<Rightarrow> (case api i of None \<Rightarrow> Some (Ret (- 1, []), s)
     | Some a \<Rightarrow> (case api_read a of None \<Rightarrow> Some (Ret (- 1, []), s)
       | Some f \<Rightarrow> f (inst i) buffer sz cb env s)))"

definition iface_write ::
  "chi_interface option \<Rightarrow> u8 list option \<Rightarrow> u32 \<Rightarrow> callback option \<Rightarrow> int io" where
  "iface_write iface buffer sz cb env s = (case iface of None \<Rightarrow> Some (Ret (- 1), s)
   | Some i \<Rightarrow> (case api i of None \<Rightarrow> Some (Ret (- 1), s)
     | Some a \<Rightarrow> (case api_write a of None \<Rightarrow> Some (Ret (- 1), s)
       | Some f \<Rightarrow> f (inst i) buffer sz cb env s)))"

definition iface_flush :: "chi_interface option \<Rightarrow> int io" where
  "iface_flush iface env s = (case iface of None \<Rightarrow> Some (Ret (- 1), s)
   | Some i \<Rightarrow> (case api i of None \<Rightarrow> Some (Ret (- 1), s)
     | Some a \<Rightarrow> (case api_flush a of None \<Rightarrow> Some (Ret (- 1), s) | Some f \<Rightarrow> f (inst i) env s)))"

subsection \<open>The APB UART driver\<close>

definition UART_RBR_REG_OFFSET :: addr where [reg_offsets]: "UART_RBR_REG_OFFSET = 0"
definition UART_THR_REG_OFFSET :: addr where [reg_offsets]: "UART_THR_REG_OFFSET = 0"
definition UART_INTR_ENABLE_REG_OFFSET :: addr where [reg_offsets]: "UART_INTR_ENABLE_REG_OFFSET = 4"
definition UART_FIFO_CONTROL_REG_OFFSET :: addr where [reg_offsets]: "UART_FIFO_CONTROL_REG_OFFSET = 8"
definition UART_LINE_CONTROL_REG_OFFSET :: addr where [reg_offsets]: "UART_LINE_CONTROL_REG_OFFSET = 12"
definition UART_MODEM_CONTROL_REG_OFFSET :: addr where [reg_offsets]: "UART_MODEM_CONTROL_REG_OFFSET = 16"
definition UART_LINE_STATUS_REG_OFFSET :: addr where [reg_offsets]: "UART_LINE_STATUS_REG_OFFSET = 20"
definition UART_DLAB_LSB_REG_OFFSET :: addr where [reg_offsets]: "UART_DLAB_LSB_REG_OFFSET = 0"
definition UART_DLAB_MSB_REG_OFFSET :: addr where [reg_offsets]: "UART_DLAB_MSB_REG_OFFSET = 4"

definition rx_ready :: "env \<Rightarrow> addr \<Rightarrow> machine \<Rightarrow> bool \<times> machine" where
  "rx_ready env base s =
     (let (status, s1) = reg8_read env base UART_LINE_STATUS_REG_OFFSET s
      in (status AND push_bit 0 1 \<noteq> 0, s1))"

definition tx_ready :: "env \<Rightarrow> addr \<Rightarrow> machine \<Rightarrow> bool \<times> machine" where
  "tx_ready env base s =
     (let (status, s1) = reg8_read env base UART_LINE_STATUS_REG_OFFSET s
      in (status AND push_bit 5 1 \<noteq> 0, s1))"

definition tx_empty :: "env \<Rightarrow> addr \<Rightarrow> machine \<Rightarrow> bool \<times> machine" where
  "tx_empty env base s =
     (let (status, s1) = reg8_read env base UART_LINE_STATUS_REG_OFFSET s
      in (status AND push_bit 6 1 \<noteq> 0, s1))"

text \<open>\<open>while (!flag(base)) ;\<close>\<close>

definition wait_body :: "(machine \<Rightarrow> bool \<times> machine) \<Rightarrow> machine \<Rightarrow> (unit option \<times> machine) option" where
  "wait_body flag s = (let (r, s1) = flag s in Some (if r then Some () else None, s1))"

definition wait_flag :: "(machine \<Rightarrow> bool \<times> machine) \<Rightarrow> machine \<Rightarrow> (unit \<times> machine) option" where
  "wait_flag flag s = loop (wait_body flag) s"

definition uart_apb_flush :: "chi_inst \<Rightarrow> int io" where
  "uart_apb_flush i env s =
     (if if_base i = 0 then Some (Ret (- 1), s)
      else case wait_flag (tx_empty env (if_base i)) s of
        None \<Rightarrow> None
      | Some (_, s1) \<Rightarrow> Some (Ret 0, s1))"

definition uart_apb_open :: "chi_inst \<Rightarrow> int io" where
  "uart_apb_open i env s =
     (if if_base i = 0 then Some (Ret (- 1), s)
      else case if_cfg i of
        None \<Rightarrow> Some (Fault InvalidPointer, s)
      | Some cfg \<Rightarrow>
          if push_bit 4 (baud_rate cfg) = 0 then Some (Fault DivisionByZero, s)
          else let base = if_base i;
            divisor = clk_freq_hz cfg div push_bit 4 (baud_rate cfg);
            dlo = ucast divisor; dhi = ucast (drop_bit 8 divisor);
            s = reg8_write env base UART_INTR_ENABLE_REG_OFFSET 0x00 s;
            s = reg8_write env base UART_LINE_CONTROL_REG_OFFSET 0x80 s;
            s = reg8_write env base UART_DLAB_LSB_REG_OFFSET dlo s;
            s = reg8_write env base UART_DLAB_MSB_REG_OFFSET dhi s;
            s = reg8_write env base UART_LINE_CONTROL_REG_OFFSET 0x03 s;
            s = reg8_write env base UART_FIFO_CONTROL_REG_OFFSET 0xC7 s;
            s = reg8_write env base UART_MODEM_CONTROL_REG_OFFSET 0x20 s
          in Some (Ret 0, s))"

definition uart_apb_close :: "chi_inst \<Rightarrow> int io" where
  "uart_apb_close i env s =
     (if if_base i = 0 then Some (Ret (- 1), s)
      else let base = if_base i;
        s = reg8_write env base UART_INTR_ENABLE_REG_OFFSET 0x00 s;
        s = reg8_write env base UART_LINE_CONTROL_REG_OFFSET 0x00 s;
        s = reg8_write env base UART_FIFO_CONTROL_REG_OFFSET 0x00 s;
        s = reg8_write env base UART_MODEM_CONTROL_REG_OFFSET 0x00 s
      in Some (Ret 0, s))"

text \<open>\<open>(ssize_t)size\<close>: \<open>ssize_t\<close> has the width of the target's pointers.\<close>

definition ssize_of :: "bool \<Rightarrow> u32 \<Rightarrow> int" where
  "ssize_of rv64 sz = (if rv64 then uint sz else sint sz)"

text \<open>The read loop returns the bytes it stored into \<open>dst\<close>.\<close>

primrec read_bytes :: "env \<Rightarrow> addr \<Rightarrow> nat \<Rightarrow> machine \<Rightarrow> (u8 list \<times> machine) option" where
  "read_bytes env base 0 s = Some ([], s)"
| "read_bytes env base (Suc n) s = (case wait_flag (rx_ready env base) s of
     None \<Rightarrow> None
   | Some (_, s1) \<Rightarrow> (let (b, s2) = reg8_read env base UART_RBR_REG_OFFSET s1 in
       case read_bytes env base n s2 of None \<Rightarrow> None | Some (bs, s3) \<Rightarrow> Some (b # bs, s3)))"

definition uart_apb_read ::
  "bool \<Rightarrow> chi_inst \<Rightarrow> bool \<Rightarrow> u32 \<Rightarrow> callback option \<Rightarrow> (int \<times> u8 list) io" where
  "uart_apb_read rv64 i buffer sz cb env s =
     (if if_base i = 0 \<or> \<not> buffer \<or> sz = 0 then Some (Ret (- 1, []), s)
      else case read_bytes env (if_base i) (unat sz) s of
        None \<Rightarrow> None
      | Some (bs, s1) \<Rightarrow>
          Some (Ret (ssize_of rv64 sz, bs), (case cb of None \<Rightarrow> s1 | Some f \<Rightarrow> f i s1)))"

primrec write_bytes :: "env \<Rightarrow> addr \<Rightarrow> u8 list \<Rightarrow> machine \<Rightarrow> machine option" where
  "write_bytes env base [] s = Some s"
| "write_bytes env base (b # bs) s = (case wait_flag (tx_ready env base) s of
     None \<Rightarrow> None
   | Some (_, s1) \<Rightarrow> write_bytes env base bs (reg8_write env base UART_THR_REG_OFFSET b s1))"

definition uart_apb_write ::
  "bool \<Rightarrow> chi_inst \<Rightarrow> u8 list option \<Rightarrow> u32 \<Rightarrow> callback option \<Rightarrow> int io" where
  "uart_apb_write rv64 i buffer sz cb env s =
     (if if_base i = 0 \<or> buffer = None \<or> sz = 0 then Some (Ret (- 1), s)
      else case write_bytes env (if_base i) (take (unat sz) (the buffer)) s of
        None \<Rightarrow> None
      | Some s1 \<Rightarrow> (case wait_flag (tx_ready env (if_base i)) s1 of
          None \<Rightarrow> None
        | Some (_, s2) \<Rightarrow>
            Some (Ret (ssize_of rv64 sz), (case cb of None \<Rightarrow> s2 | Some f \<Rightarrow> f i s2))))"

definition default_uart_api :: "bool \<Rightarrow> chi_interface_api" where
  "default_uart_api rv64 = \<lparr>api_open = Some uart_apb_open, api_close = Some uart_apb_close,
     api_read = Some (uart_apb_read rv64), api_write = Some (uart_apb_write rv64),
     api_flush = Some uart_apb_flush\<rparr>"

subsection \<open>The runtime's UART instance and character hooks\<close>

definition base_regs :: addr where [reg_offsets]: "base_regs = 0x03000000"
definition CHESHIRE_RTC_FREQ_REG_OFFSET :: addr where [reg_offsets]: "CHESHIRE_RTC_FREQ_REG_OFFSET = 0x44"

definition default_uart_cfg :: uart_config where
  "default_uart_cfg = \<lparr>baud_rate = 9600, clk_freq_hz = 100000000, data_bits = 8, parity = 0, stop_bits = 1\<rparr>"

definition default_uart_inst :: "bool \<Rightarrow> chi_interface" where
  "default_uart_inst rv64 = \<lparr>inst = \<lparr>if_base = base_uart, if_cfg = Some default_uart_cfg\<rparr>,
     api = Some (default_uart_api rv64)\<rparr>"

text \<open>
  \<open>_uart_init\<close> of the ASIC backend: it measures the clock with the CLINT driver of the build
  (the parameter \<open>get_core_freq\<close>) and opens the UART with it; the instance with its new
  configuration is part of the result. The GVSoC and RTL backends do nothing.
\<close>

datatype backend = ASIC | RTL | GVSOC

definition uart_init ::
  "backend \<Rightarrow> (env \<Rightarrow> u32 \<Rightarrow> u32 \<Rightarrow> machine \<Rightarrow> (u32 outcome \<times> machine) option) \<Rightarrow> chi_interface
    \<Rightarrow> chi_interface io" where
  "uart_init be get_core_freq iface env s = (case be of
     GVSOC \<Rightarrow> Some (Ret iface, s)
   | RTL \<Rightarrow> Some (Ret iface, s)
   | ASIC \<Rightarrow>
     (let (rtc_freq, s1) = rd32 env (reg32 base_regs CHESHIRE_RTC_FREQ_REG_OFFSET) s in
      case get_core_freq env rtc_freq 512 s1 of
        None \<Rightarrow> None
      | Some (Fault f, s2) \<Rightarrow> Some (Fault f, s2)
      | Some (Ret reset_freq, s2) \<Rightarrow>
         (let iface = iface\<lparr>inst := (inst iface)\<lparr>if_cfg := Some (default_uart_cfg\<lparr>clk_freq_hz := reset_freq\<rparr>)\<rparr>\<rparr> in
          case api iface of
            None \<Rightarrow> Some (Fault InvalidPointer, s2)
          | Some a \<Rightarrow> (case api_open a of
              None \<Rightarrow> Some (Fault InvalidPointer, s2)
            | Some f \<Rightarrow> (case f (inst iface) env s2 of
                None \<Rightarrow> None
              | Some (Fault e, s3) \<Rightarrow> Some (Fault e, s3)
              | Some (Ret _, s3) \<Rightarrow> Some (Ret iface, s3))))))"

definition uart_deinit :: "backend \<Rightarrow> chi_interface \<Rightarrow> int io" where
  "uart_deinit be iface env s = (case be of
     GVSOC \<Rightarrow> Some (Ret 0, s)
   | RTL \<Rightarrow> Some (Ret 0, s)
   | ASIC \<Rightarrow> (case api iface of
       None \<Rightarrow> Some (Fault InvalidPointer, s)
     | Some a \<Rightarrow> (case api_close a of
         None \<Rightarrow> Some (Fault InvalidPointer, s) | Some f \<Rightarrow> f (inst iface) env s)))"

text \<open>
  The picolibc stream hooks. The ASIC hooks go through the instance's table without a NULL guard;
  the simulator backends store the character at a magic address. \<open>char\<close> is unsigned on RISC-V.
\<close>

definition uart_putc :: "backend \<Rightarrow> bool \<Rightarrow> chi_interface \<Rightarrow> u8 \<Rightarrow> int io" where
  "uart_putc be has_driver iface c env s = (case be of
     RTL \<Rightarrow> Some (Ret (uint c), wr32 env 0x30004FFC (ucast c) s)
   | GVSOC \<Rightarrow> Some (Ret (uint c), wr32 env 0x03004000 (ucast c) s)
   | ASIC \<Rightarrow>
       if \<not> has_driver then Some (Ret (- 1), s)
       else (case api iface of
         None \<Rightarrow> Some (Fault InvalidPointer, s)
       | Some a \<Rightarrow> (case (api_write a, api_flush a) of
           (Some w, Some f) \<Rightarrow>
             (case w (inst iface) (Some [c]) 1 None env s of
               None \<Rightarrow> None
             | Some (Fault e, s1) \<Rightarrow> Some (Fault e, s1)
             | Some (Ret _, s1) \<Rightarrow> (case f (inst iface) env s1 of
                 None \<Rightarrow> None
               | Some (Fault e, s2) \<Rightarrow> Some (Fault e, s2)
               | Some (Ret _, s2) \<Rightarrow> Some (Ret (uint c), s2)))
         | _ \<Rightarrow> Some (Fault InvalidPointer, s))))"

definition uart_getc :: "backend \<Rightarrow> bool \<Rightarrow> chi_interface \<Rightarrow> int io" where
  "uart_getc be has_driver iface env s = (case be of
     RTL \<Rightarrow> Some (Ret (- 1), s)
   | GVSOC \<Rightarrow> Some (Ret (- 1), s)
   | ASIC \<Rightarrow>
       if \<not> has_driver then Some (Ret (- 1), s)
       else (case api iface of
         None \<Rightarrow> Some (Fault InvalidPointer, s)
       | Some a \<Rightarrow> (case api_read a of
           None \<Rightarrow> Some (Fault InvalidPointer, s)
         | Some r \<Rightarrow> (case r (inst iface) True 1 None env s of
             None \<Rightarrow> None
           | Some (Fault e, s1) \<Rightarrow> Some (Fault e, s1)
           | Some (Ret (nread, bs), s1) \<Rightarrow>
               Some (Ret (if nread = 1 then uint (hd bs) else - 1), s1)))))"

definition uart_flush :: "backend \<Rightarrow> bool \<Rightarrow> chi_interface \<Rightarrow> int io" where
  "uart_flush be has_driver iface env s = (case be of
     RTL \<Rightarrow> Some (Ret (- 1), s)
   | GVSOC \<Rightarrow> Some (Ret (- 1), s)
   | ASIC \<Rightarrow>
       if \<not> has_driver then Some (Ret (- 1), s)
       else (case api iface of
         None \<Rightarrow> Some (Fault InvalidPointer, s)
       | Some a \<Rightarrow> (case api_flush a of
           None \<Rightarrow> Some (Fault InvalidPointer, s) | Some f \<Rightarrow> f (inst iface) env s)))"

subsection \<open>Waiting for a status flag\<close>

text \<open>
  \<open>flag_live k a env\<close>: whatever the state, bit \<open>k\<close> of the status byte at \<open>a\<close> is set again
  after finitely many reads.
\<close>

definition status_at :: "env \<Rightarrow> machine \<Rightarrow> addr \<Rightarrow> nat \<Rightarrow> u8" where
  "status_at env s a i = mem (hw_at env (now s) (hw s) (Suc i)) a"

definition flag_live :: "nat \<Rightarrow> addr \<Rightarrow> env \<Rightarrow> bool" where
  "flag_live k a env \<longleftrightarrow> (\<forall>n h. \<exists>i. bit (mem (hw_at env n h (Suc i)) a) k)"

definition status_flag :: "env \<Rightarrow> addr \<Rightarrow> nat \<Rightarrow> machine \<Rightarrow> bool \<times> machine" where
  "status_flag env a k s = (let (v, s1) = rd8 env a s in (bit v k, s1))"

lemma flag_eqs:
  "rx_ready env base = status_flag env (base + UART_LINE_STATUS_REG_OFFSET) 0"
  "tx_ready env base = status_flag env (base + UART_LINE_STATUS_REG_OFFSET) 5"
  "tx_empty env base = status_flag env (base + UART_LINE_STATUS_REG_OFFSET) 6"
  using and_exp_eq_0_iff_not_bit [of "x :: u8" 0 for x] and_exp_eq_0_iff_not_bit [of "x :: u8" 5 for x]
    and_exp_eq_0_iff_not_bit [of "x :: u8" 6 for x]
  by (auto simp: rx_ready_def tx_ready_def tx_empty_def status_flag_def reg8_read_def reg8_def
      Let_def split_beta)

text \<open>The trace of a wait: reads of the status register, the last one with the flag set.\<close>

definition waited :: "addr \<Rightarrow> nat \<Rightarrow> event list \<Rightarrow> bool" where
  "waited a k ls \<longleftrightarrow> ls \<noteq> [] \<and> (\<forall>e \<in> set ls. \<exists>v. e = Load8 a v)
     \<and> (\<exists>v. last ls = Load8 a v \<and> bit v k)"

lemma wait_trace:
  assumes "wait_flag (status_flag env a k) s = Some (u, s')"
  shows "\<exists>ls. trace s' = trace s @ ls \<and> waited a k ls"
proof -
  let ?I = "\<lambda>t. \<exists>ls. trace t = trace s @ ls \<and> (\<forall>e \<in> set ls. \<exists>v. e = Load8 a v)"
  have "\<exists>t. ?I t \<and> wait_body (status_flag env a k) t = Some (Some u, s')"
  proof (rule loop_inv [where I = ?I, OF assms [unfolded wait_flag_def]])
    fix t t'
    assume "?I t" and "wait_body (status_flag env a k) t = Some (None, t')"
    then show "?I t'"
      by (auto simp: wait_body_def status_flag_def split_beta Let_def split: if_splits)
  qed simp
  then obtain t ls where "trace t = trace s @ ls" "\<forall>e \<in> set ls. \<exists>v. e = Load8 a v"
    and "wait_body (status_flag env a k) t = Some (Some u, s')"
    by blast
  then show ?thesis
    by (intro exI [of _ "ls @ [Load8 a (mem (env (now t) (hw t)) a)]"])
       (auto simp: wait_body_def status_flag_def waited_def split_beta Let_def split: if_splits)
qed

lemma wait_returns:
  assumes "flag_live k a env"
  shows "\<exists>s'. wait_flag (status_flag env a k) s = Some ((), s')"
proof -
  let ?m = "\<lambda>t. LEAST i. bit (status_at env t a i) k"
  have "\<exists>r s'. loop (wait_body (status_flag env a k)) s = Some (r, s')"
  proof (rule loop_terminates [where I = "\<lambda>t. True" and m = ?m])
    fix t :: machine
    obtain i where i: "bit (status_at env t a i) k"
      using assms unfolding flag_live_def status_at_def by blast
    let ?t' = "snd (rd8 env a t)"
    have body: "wait_body (status_flag env a k) t =
        Some (if bit (status_at env t a 0) k then Some () else None, ?t')"
      by (simp add: wait_body_def status_flag_def status_at_def split_beta Let_def)
    have shift: "status_at env ?t' a j = status_at env t a (Suc j)" for j
      by (simp add: status_at_def)
    have "?m ?t' < ?m t" if "\<not> bit (status_at env t a 0) k"
      using Least_Suc [of "\<lambda>j. bit (status_at env t a j) k", OF i that] by (simp add: shift)
    with body show "\<exists>x t'. wait_body (status_flag env a k) t = Some (x, t')
        \<and> (x = None \<longrightarrow> True \<and> ?m t' < ?m t)"
      by auto
  qed simp
  then show ?thesis by (auto simp: wait_flag_def)
qed

subsection \<open>The transmitted stream\<close>

text \<open>The bytes a trace stores at an address, and the pacing of those stores: each one directly
  follows a status read with the flag set.\<close>

fun sent_to :: "addr \<Rightarrow> event list \<Rightarrow> u8 list" where
  "sent_to a [] = []"
| "sent_to a (Store8 b v # es) = (if b = a then v # sent_to a es else sent_to a es)"
| "sent_to a (e # es) = sent_to a es"

fun ready_read :: "addr \<Rightarrow> nat \<Rightarrow> event \<Rightarrow> bool" where
  "ready_read st k (Load8 b v) \<longleftrightarrow> b = st \<and> bit v k"
| "ready_read st k e \<longleftrightarrow> False"

fun stores_to :: "addr \<Rightarrow> event \<Rightarrow> bool" where
  "stores_to a (Store8 b v) \<longleftrightarrow> b = a"
| "stores_to a e \<longleftrightarrow> False"

primrec paced :: "addr \<Rightarrow> addr \<Rightarrow> nat \<Rightarrow> bool \<Rightarrow> event list \<Rightarrow> bool" where
  "paced a st k ready [] = True"
| "paced a st k ready (e # es) = ((stores_to a e \<longrightarrow> ready) \<and> paced a st k (ready_read st k e) es)"

lemma sent_to_append [simp]: "sent_to a (xs @ ys) = sent_to a xs @ sent_to a ys"
  by (induction a xs rule: sent_to.induct) auto

lemma sent_to_reads: "\<forall>e \<in> set ls. \<exists>v. e = Load8 b v \<Longrightarrow> sent_to a ls = []"
  by (induction ls) auto

lemma sent_to_waited: "waited b k ls \<Longrightarrow> sent_to a ls = []"
  unfolding waited_def by (blast intro: sent_to_reads)

lemma latch_join:
  fixes d :: u32
  assumes "unat d < 65536"
  shows "unat (ucast d :: u8) + 256 * unat (ucast (drop_bit 8 d) :: u8) = unat d"
proof -
  have "unat d div 256 < 256"
    using assms by (simp add: div_less_iff_less_mult)
  then show ?thesis
    by (simp add: unsigned_ucast_eq unsigned_drop_bit_eq take_bit_eq_mod drop_bit_eq_div unat_div)
qed

lemma wait_done:
  assumes "flag_live k a env"
  shows "\<exists>s1 ls. wait_flag (status_flag env a k) s = Some ((), s1) \<and> trace s1 = trace s @ ls \<and> waited a k ls"
  using wait_returns [OF assms] wait_trace by blast

lemma paced_append:
  "paced a st k r (xs @ ys) \<longleftrightarrow>
    paced a st k r xs \<and> paced a st k (if xs = [] then r else ready_read st k (last xs)) ys"
  by (induction xs arbitrary: r) auto

lemma paced_reads: "\<forall>e \<in> set ls. \<exists>v. e = Load8 b v \<Longrightarrow> paced a st k r ls"
  by (induction ls arbitrary: r) auto

lemma paced_waited:
  assumes "waited st k ls"
  shows "paced a st k r ls" and "ready_read st k (last ls)" and "ls \<noteq> []"
  using assms paced_reads [of ls st] by (auto simp: waited_def)

abbreviation lsr :: "addr \<Rightarrow> addr" where "lsr base \<equiv> base + UART_LINE_STATUS_REG_OFFSET"
abbreviation thr :: "addr \<Rightarrow> addr" where "thr base \<equiv> base + UART_THR_REG_OFFSET"

lemma write_bytes_sends:
  assumes "flag_live 5 (lsr base) env"
  shows "\<exists>s' t. write_bytes env base bs s = Some s' \<and> trace s' = trace s @ t
    \<and> sent_to (thr base) t = bs \<and> paced (thr base) (lsr base) 5 r t"
proof (induction bs arbitrary: s r)
  case Nil
  then show ?case by simp
next
  case (Cons b bs)
  obtain s1 ls where w: "wait_flag (tx_ready env base) s = Some ((), s1)"
    and ls: "trace s1 = trace s @ ls" "waited (lsr base) 5 ls"
    unfolding flag_eqs using wait_done [OF assms] by blast
  let ?s2 = "reg8_write env base UART_THR_REG_OFFSET b s1"
  obtain s' t where t: "write_bytes env base bs ?s2 = Some s'" "trace s' = trace ?s2 @ t"
    "sent_to (thr base) t = bs" "paced (thr base) (lsr base) 5 False t"
    using Cons.IH [of ?s2 False] by blast
  have "trace ?s2 = trace s @ ls @ [Store8 (thr base) b]"
    by (simp add: reg8_write_def reg8_def ls(1))
  moreover have "paced (thr base) (lsr base) 5 r (ls @ Store8 (thr base) b # t)"
    using paced_waited [OF ls(2)] t(4) by (simp add: paced_append)
  ultimately show ?case
    using w t sent_to_waited [OF ls(2)]
    by (intro exI [of _ s'] exI [of _ "ls @ Store8 (thr base) b # t"]) simp
qed

definition uart_live :: "chi_inst \<Rightarrow> env \<Rightarrow> bool" where
  "uart_live i env \<longleftrightarrow> if_base i \<noteq> 0 \<and> flag_live 5 (lsr (if_base i)) env \<and> flag_live 6 (lsr (if_base i)) env"

lemma uart_apb_write_sends:
  assumes "uart_live i env" and "bs \<noteq> []" and "length bs < 2 ^ 31"
  shows "\<exists>s' t. uart_apb_write rv64 i (Some bs) (of_nat (length bs)) None env s =
      Some (Ret (int (length bs)), s') \<and> trace s' = trace s @ t \<and> sent_to (thr (if_base i)) t = bs
    \<and> paced (thr (if_base i)) (lsr (if_base i)) 5 False t"
proof -
  let ?b = "if_base i"
  from assms have live: "flag_live 5 (lsr ?b) env" and base: "?b \<noteq> 0"
    by (auto simp: uart_live_def)
  obtain s1 t where t: "write_bytes env ?b bs s = Some s1" "trace s1 = trace s @ t"
    "sent_to (thr ?b) t = bs" "paced (thr ?b) (lsr ?b) 5 False t"
    using write_bytes_sends [OF live] by blast
  obtain s2 ls where w: "wait_flag (tx_ready env ?b) s1 = Some ((), s2)"
    and ls: "trace s2 = trace s1 @ ls" "waited (lsr ?b) 5 ls"
    unfolding flag_eqs using wait_done [OF live] by blast
  have len: "unat (of_nat (length bs) :: u32) = length bs"
    using assms(3) by (simp add: unat_of_nat)
  then have "(of_nat (length bs) :: u32) \<noteq> 0"
    using assms(2) by (metis length_0_conv unsigned_0)
  moreover have "ssize_of rv64 (of_nat (length bs)) = int (length bs)"
    using assms(3) len sint_small [of "of_nat (length bs)"] uint_int_unat [of "of_nat (length bs) :: u32"]
    unfolding ssize_of_def len by simp
  ultimately show ?thesis
    using t w ls base len paced_waited [OF ls(2)] sent_to_waited [OF ls(2)]
      paced_reads [of ls "lsr ?b" "thr ?b"]
    by (intro exI [of _ s2] exI [of _ "t @ ls"]) (auto simp: uart_apb_write_def paced_append waited_def)
qed

lemma uart_apb_flush_waits:
  assumes "uart_live i env"
  shows "\<exists>s' t. uart_apb_flush i env s = Some (Ret 0, s') \<and> trace s' = trace s @ t
    \<and> waited (lsr (if_base i)) 6 t"
proof -
  from assms have live: "flag_live 6 (lsr (if_base i)) env" and base: "if_base i \<noteq> 0"
    by (auto simp: uart_live_def)
  obtain s1 ls where "wait_flag (tx_empty env (if_base i)) s = Some ((), s1)"
    "trace s1 = trace s @ ls" "waited (lsr (if_base i)) 6 ls"
    unfolding flag_eqs using wait_done [OF live] by blast
  with base show ?thesis
    by (intro exI [of _ s1] exI [of _ ls]) (simp add: uart_apb_flush_def)
qed

subsection \<open>The serial-output contract\<close>

text \<open>
  What the character hooks rely on: a write returns its length and transmits exactly its bytes, a
  flush transmits nothing. From it, printing a string transmits the string.
\<close>

primrec put_chars :: "chi_interface \<Rightarrow> u8 list \<Rightarrow> int io" where
  "put_chars iface [] env s = Some (Ret 0, s)"
| "put_chars iface (c # cs) env s = (case uart_putc ASIC True iface c env s of
       None \<Rightarrow> None
     | Some (Fault e, s1) \<Rightarrow> Some (Fault e, s1)
     | Some (Ret _, s1) \<Rightarrow> put_chars iface cs env s1)"

locale serial_driver =
  fixes wr :: "chi_inst \<Rightarrow> u8 list option \<Rightarrow> u32 \<Rightarrow> callback option \<Rightarrow> int io"
    and fl :: "chi_inst \<Rightarrow> int io"
    and sink :: "chi_inst \<Rightarrow> addr"
    and good :: "chi_inst \<Rightarrow> env \<Rightarrow> bool"
  assumes wr_sends: "good i env \<Longrightarrow> bs \<noteq> [] \<Longrightarrow> length bs < 2 ^ 31 \<Longrightarrow>
      \<exists>s' t. wr i (Some bs) (of_nat (length bs)) None env s = Some (Ret (int (length bs)), s')
        \<and> trace s' = trace s @ t \<and> sent_to (sink i) t = bs"
    and fl_silent: "good i env \<Longrightarrow>
      \<exists>s' t. fl i env s = Some (Ret 0, s') \<and> trace s' = trace s @ t \<and> sent_to (sink i) t = []"
begin

lemma putc_sends:
  assumes "good (inst iface) env" and "api iface = Some a" and "api_write a = Some wr"
    and "api_flush a = Some fl"
  shows "\<exists>s' t. uart_putc ASIC True iface c env s = Some (Ret (uint c), s')
    \<and> trace s' = trace s @ t \<and> sent_to (sink (inst iface)) t = [c]"
proof -
  obtain s1 t where 1: "wr (inst iface) (Some [c]) 1 None env s = Some (Ret 1, s1)"
    "trace s1 = trace s @ t" "sent_to (sink (inst iface)) t = [c]"
    using wr_sends [OF assms(1), of "[c]" s] by auto
  obtain s2 u where 2: "fl (inst iface) env s1 = Some (Ret 0, s2)"
    "trace s2 = trace s1 @ u" "sent_to (sink (inst iface)) u = []"
    using fl_silent [OF assms(1), of s1] by blast
  from 1 2 assms(2-4) show ?thesis
    by (intro exI [of _ s2] exI [of _ "t @ u"]) (simp add: uart_putc_def)
qed

lemma puts_sends:
  assumes "good (inst iface) env" and "api iface = Some a" and "api_write a = Some wr"
    and "api_flush a = Some fl"
  shows "\<exists>s' t. put_chars iface cs env s = Some (Ret 0, s')
    \<and> trace s' = trace s @ t \<and> sent_to (sink (inst iface)) t = cs"
proof (induction cs arbitrary: s)
  case Nil
  then show ?case by simp
next
  case (Cons c cs)
  obtain s1 t where 1: "uart_putc ASIC True iface c env s = Some (Ret (uint c), s1)"
    "trace s1 = trace s @ t" "sent_to (sink (inst iface)) t = [c]"
    using putc_sends [OF assms] by blast
  obtain s2 u where "put_chars iface cs env s1 = Some (Ret 0, s2)"
    "trace s2 = trace s1 @ u" "sent_to (sink (inst iface)) u = cs"
    using Cons.IH by blast
  with 1 show ?case
    by (intro exI [of _ s2] exI [of _ "t @ u"]) simp
qed

end

interpretation uart: serial_driver "uart_apb_write rv64" uart_apb_flush "\<lambda>i. thr (if_base i)" uart_live
  for rv64
proof
  fix i :: chi_inst and env and bs :: "u8 list" and s :: machine
  assume "uart_live i env" "bs \<noteq> []" "length bs < 2 ^ 31"
  from uart_apb_write_sends [OF this, of rv64 s]
  show "\<exists>s' t. uart_apb_write rv64 i (Some bs) (of_nat (length bs)) None env s =
      Some (Ret (int (length bs)), s') \<and> trace s' = trace s @ t \<and> sent_to (thr (if_base i)) t = bs"
    by blast
next
  fix i :: chi_inst and env and s :: machine
  assume "uart_live i env"
  from uart_apb_flush_waits [OF this, of s] obtain s' t where
    "uart_apb_flush i env s = Some (Ret 0, s')" "trace s' = trace s @ t" "waited (lsr (if_base i)) 6 t"
    by blast
  then show "\<exists>s' t. uart_apb_flush i env s = Some (Ret 0, s') \<and> trace s' = trace s @ t
      \<and> sent_to (thr (if_base i)) t = []"
    by (intro exI [of _ s'] exI [of _ t]) (simp add: sent_to_waited)
qed

subsection \<open>Properties\<close>

text \<open>C29: on a UART whose status flags keep coming back, \<open>uart_apb_write\<close> returns the size, stores
  exactly the buffer's bytes in order to the transmit register, and each store directly follows a
  status read that found the transmit register empty.\<close>

theorem uart_write_transmits:
  assumes "uart_live i env" and "bs \<noteq> []" and "length bs < 2 ^ 31"
  shows "\<exists>s' t. uart_apb_write rv64 i (Some bs) (of_nat (length bs)) None env s =
      Some (Ret (int (length bs)), s') \<and> trace s' = trace s @ t \<and> sent_to (thr (if_base i)) t = bs
    \<and> paced (thr (if_base i)) (lsr (if_base i)) 5 False t"
  using uart_apb_write_sends [OF assms] .

definition ready_env :: "addr \<Rightarrow> env" where
  "ready_env a n h = h\<lparr>mem := (mem h)(a := 0x60)\<rparr>"

lemma ready_env_live: "k = 5 \<or> k = 6 \<Longrightarrow> flag_live k a (ready_env a)"
  by (auto simp: flag_live_def ready_env_def bit_numeral_rec intro!: exI [of _ 0])

definition console :: chi_inst where
  "console = \<lparr>if_base = base_uart, if_cfg = Some default_uart_cfg\<rparr>"

lemma console_live: "uart_live console (ready_env (lsr base_uart))"
  by (simp add: uart_live_def console_def ready_env_live reg_offsets)

theorem uart_write_transmits_witness:
  "\<exists>s' t. uart_apb_write False console (Some [72, 105]) 2 None (ready_env (lsr base_uart)) boot =
      Some (Ret 2, s') \<and> trace s' = trace boot @ t \<and> sent_to (thr base_uart) t = [72, 105]"
  using uart_write_transmits [OF console_live, of "[72, 105]" False boot]
  by (auto simp: console_def)

text \<open>Printing a string through the runtime's character hook on the ASIC backend returns and
  transmits exactly the string's characters.\<close>

theorem uart_putc_string:
  assumes "uart_live (inst iface) env" and "api iface = Some (default_uart_api rv64)"
  shows "\<exists>s' t. put_chars iface cs env s = Some (Ret 0, s') \<and> trace s' = trace s @ t
    \<and> sent_to (thr (if_base (inst iface))) t = cs"
  by (rule uart.puts_sends [OF assms]) (simp_all add: default_uart_api_def)

theorem uart_putc_string_witness:
  "\<exists>s' t. put_chars (default_uart_inst True) [79, 75] (ready_env (lsr base_uart)) boot = Some (Ret 0, s')
    \<and> trace s' = trace boot @ t \<and> sent_to (thr base_uart) t = [79, 75]"
  using uart_putc_string [of "default_uart_inst True" "ready_env (lsr base_uart)" True "[79, 75]" boot]
    console_live by (simp add: default_uart_inst_def console_def)

text \<open>\<open>uart_apb_open\<close> programs the UART by a fixed sequence of seven stores; for a baud rate of
  at least 4096 the two divisor latches hold the exact truncated quotient, so the line never runs
  slower than asked, and by less than one divisor step faster.\<close>

theorem uart_open_programs:
  assumes "if_base i \<noteq> 0" and "if_cfg i = Some cfg"
    and "4096 \<le> unat (baud_rate cfg)" and "unat (baud_rate cfg) < 2 ^ 28"
  shows "\<exists>s' dlo dhi. uart_apb_open i env s = Some (Ret 0, s')
    \<and> trace s' = trace s @ [Store8 (if_base i + 4) 0, Store8 (if_base i + 12) 0x80,
        Store8 (if_base i) dlo, Store8 (if_base i + 4) dhi, Store8 (if_base i + 12) 3,
        Store8 (if_base i + 8) 0xC7, Store8 (if_base i + 16) 0x20]
    \<and> unat dlo + 256 * unat dhi = unat (clk_freq_hz cfg) div (16 * unat (baud_rate cfg))
    \<and> (unat dlo + 256 * unat dhi) * (16 * unat (baud_rate cfg)) \<le> unat (clk_freq_hz cfg)
    \<and> unat (clk_freq_hz cfg) < (unat dlo + 256 * unat dhi + 1) * (16 * unat (baud_rate cfg))"
proof -
  let ?b = "unat (baud_rate cfg)" and ?c = "unat (clk_freq_hz cfg)"
  let ?d = "clk_freq_hz cfg div push_bit 4 (baud_rate cfg)"
  have shl: "unat (push_bit 4 (baud_rate cfg)) = 16 * ?b"
    using assms(4) unfolding unsigned_push_bit_eq
    by (simp add: push_bit_eq_mult take_bit_nat_eq_self)
  then have nz: "push_bit 4 (baud_rate cfg) \<noteq> 0"
    using assms(3) by (metis less_numeral_extra(3) mult_pos_pos order_less_le_trans unsigned_0 zero_less_numeral)
  have d: "unat ?d = ?c div (16 * ?b)"
    by (simp only: unat_div shl)
  have "?c div (16 * ?b) \<le> ?c div (16 * 4096)"
    using assms(3) by (intro div_le_mono2) simp_all
  also have "\<dots> < 65536"
    using unsigned_less [of "clk_freq_hz cfg", where ?'a = nat] by (simp add: div_less_iff_less_mult)
  finally have "unat ?d < 65536"
    by (simp only: d)
  define dlo :: u8 where "dlo = ucast ?d"
  define dhi :: u8 where "dhi = ucast (drop_bit 8 ?d)"
  have latch: "unat dlo + 256 * unat dhi = ?c div (16 * ?b)"
    unfolding dlo_def dhi_def using \<open>unat ?d < 65536\<close> d by (simp only: latch_join)
  have step: "x div n * n \<le> x \<and> x < (x div n + 1) * n" if "0 < n" for x n :: nat
    using that by (simp add: dividend_less_div_times)
  have "0 < 16 * ?b" using assms(3) by simp
  note bounds = step [OF this, of ?c, folded latch]
  have run: "uart_apb_open i env s = Some (Ret 0, reg8_write env (if_base i) UART_MODEM_CONTROL_REG_OFFSET 0x20
     (reg8_write env (if_base i) UART_FIFO_CONTROL_REG_OFFSET 0xC7
     (reg8_write env (if_base i) UART_LINE_CONTROL_REG_OFFSET 0x03
     (reg8_write env (if_base i) UART_DLAB_MSB_REG_OFFSET dhi
     (reg8_write env (if_base i) UART_DLAB_LSB_REG_OFFSET dlo
     (reg8_write env (if_base i) UART_LINE_CONTROL_REG_OFFSET 0x80
     (reg8_write env (if_base i) UART_INTR_ENABLE_REG_OFFSET 0x00 s)))))))"
    using assms(1,2) nz by (simp add: uart_apb_open_def Let_def dlo_def dhi_def)
  show ?thesis
    by (rule exI, rule exI [of _ dlo], rule exI [of _ dhi], intro conjI, rule run)
       (simp_all only: latch bounds[unfolded latch] simp_thms, simp add: reg8_write_def reg8_def reg_offsets)
qed

theorem uart_open_programs_witness:
  "\<exists>s' dlo dhi. uart_apb_open console quiet_env boot = Some (Ret 0, s')
    \<and> unat (dlo :: u8) + 256 * unat (dhi :: u8) = 651"
proof -
  have p: "if_base console \<noteq> 0" "if_cfg console = Some default_uart_cfg"
    "4096 \<le> unat (baud_rate default_uart_cfg)" "unat (baud_rate default_uart_cfg) < 2 ^ 28"
    by (simp_all add: console_def default_uart_cfg_def reg_offsets)
  have c: "unat (clk_freq_hz default_uart_cfg) div (16 * unat (baud_rate default_uart_cfg)) = 651"
    by (simp add: default_uart_cfg_def)
  show ?thesis
    using uart_open_programs [OF p, of quiet_env boot, unfolded c] by blast
qed

text \<open>The data bits, parity and stop bits of the configuration have no effect on
  \<open>uart_apb_open\<close>: the line is always 8N1.\<close>

theorem uart_open_ignores_format:
  "uart_apb_open (i\<lparr>if_cfg := Some (cfg\<lparr>data_bits := d, parity := p, stop_bits := t\<rparr>)\<rparr>) env s =
   uart_apb_open (i\<lparr>if_cfg := Some cfg\<rparr>) env s"
  by (simp add: uart_apb_open_def)

text \<open>The error returns of the interface: with a NULL interface, table or function every
  \<open>iface\<close> call returns -1 and touches nothing; so do the UART's own functions on a zero base, and
  read and write on a NULL buffer or a size of 0.\<close>

theorem iface_null_safe:
  "iface_open None env s = Some (Ret (- 1), s) \<and> iface_flush None env s = Some (Ret (- 1), s)
   \<and> iface_write (Some \<lparr>inst = i, api = None\<rparr>) buf sz cb env s = Some (Ret (- 1), s)
   \<and> iface_read (Some \<lparr>inst = i, api = Some (a\<lparr>api_read := None\<rparr>)\<rparr>) b sz cb env s = Some (Ret (- 1, []), s)
   \<and> iface_close (Some \<lparr>inst = i, api = Some (a\<lparr>api_close := None\<rparr>)\<rparr>) env s = Some (Ret (- 1), s)
   \<and> uart_apb_open (i\<lparr>if_base := 0\<rparr>) env s = Some (Ret (- 1), s)
   \<and> uart_apb_write rv64 i None sz cb env s = Some (Ret (- 1), s)
   \<and> uart_apb_write rv64 i buf 0 cb env s = Some (Ret (- 1), s)
   \<and> uart_apb_read rv64 i False sz cb env s = Some (Ret (- 1, []), s)
   \<and> uart_apb_flush (i\<lparr>if_base := 0\<rparr>) env s = Some (Ret (- 1), s)"
  by (simp add: iface_open_def iface_flush_def iface_write_def iface_read_def iface_close_def
      uart_apb_open_def uart_apb_write_def uart_apb_read_def uart_apb_flush_def)

end
