(* ===== verification/Fll.thy ===== *)
theory Fll
  imports Uart Clint
begin

section \<open>The frequency-locked loops (host/drivers/fll, host/runtime/src/fll.c)\<close>

text \<open>
  The register-level driver, the parameter calculation and the supervised frequency switch. The
  GPIO write of the OpenTitan library and the CLINT driver's frequency measurement, which the build
  selects, are parameters. A pointer to a local variable that has gone out of scope is \<open>None\<close>,
  as is NULL: the configuration that \<open>configure_fll\<close> and \<open>restore_default_freq\<close> leave in the
  UART instance is such a pointer.
\<close>

subsection \<open>Driver\<close>

definition FLL_SOC_BASE :: addr where [reg_offsets]: "FLL_SOC_BASE = 0x30004000"
definition FLL_CLU_BASE :: addr where [reg_offsets]: "FLL_CLU_BASE = 0x30004000 + 16"
definition FLL_CONF1_OFFSET :: addr where [reg_offsets]: "FLL_CONF1_OFFSET = 0x4"

definition getFllPtr :: "u8 \<Rightarrow> addr" where
  "getFllPtr fllIdx = (if fllIdx = 0 then FLL_SOC_BASE else if fllIdx = 1 then FLL_CLU_BASE else 0)"

text \<open>\<open>fllPtr += FLL_CONF1_OFFSET / 4\<close> on a \<open>uint32_t\<close> pointer adds the byte offset.\<close>

definition initFll :: "env \<Rightarrow> addr \<Rightarrow> machine \<Rightarrow> machine" where
  "initFll env fllPtr s =
     (let p = fllPtr + 4 * (FLL_CONF1_OFFSET div 4);
          (v, s) = rd32 env p s
      in wr32 env p (push_bit 16 0xC958 OR (v AND 0x0000FFFF)) s)"

definition setFllFreq :: "env \<Rightarrow> addr \<Rightarrow> u32 \<Rightarrow> u32 \<Rightarrow> machine \<Rightarrow> machine" where
  "setFllFreq env fllPtr mult div0 s =
     (let cfgPtr1 = fllPtr + 4 * (FLL_CONF1_OFFSET div 4);
          div1 = push_bit 26 div0;
          (v, s) = rd32 env cfgPtr1 s
      in wr32 env cfgPtr1 ((v AND 0xC3FF0000) OR (mult OR div1)) s)"

subsection \<open>Parameters\<close>

text \<open>\<open>__builtin_clz\<close>: the zero bits above the highest set bit.\<close>

primrec clz_from :: "nat \<Rightarrow> u32 \<Rightarrow> nat" where
  "clz_from 0 x = 0"
| "clz_from (Suc n) x = (if bit x n then 0 else Suc (clz_from n x))"

definition builtin_clz :: "u32 \<Rightarrow> u32" where
  "builtin_clz x = of_nat (clz_from 32 x)"

text \<open>The result code, and what is stored through \<open>mult\<close> and \<open>div\<close> (nothing on an error); the
  two flags say that the pointers are not NULL.\<close>

definition calculate_fll_params ::
  "bool \<Rightarrow> bool \<Rightarrow> u32 \<Rightarrow> u32 \<Rightarrow> int \<times> (u32 \<times> u32) option" where
  "calculate_fll_params mult_ok div_ok target_freq rtc_freq =
     (if \<not> mult_ok \<or> \<not> div_ok \<or> target_freq = 0 \<or> rtc_freq = 0 then (- 1, None)
      else let FMAX = 3300000000; denom = 2 * target_freq in
        if denom = 0 then (- 1, None)
        else let limit = FMAX div denom in
          if limit \<le> 1 then (- 1, None)
          else let below = limit - 1; e = 31 - builtin_clz below; dout = push_bit (unat e) 1;
            num = target_freq * dout; m = (num + rtc_freq div 2) div rtc_freq;
            m = (if m = 0 then 1 else m)
          in (0, Some (m, e + 1)))"

subsection \<open>Switching the frequency\<close>

type_synonym gpio_write = "env \<Rightarrow> u32 \<Rightarrow> bool \<Rightarrow> machine \<Rightarrow> bool \<times> machine"
type_synonym freq_meter = "env \<Rightarrow> u32 \<Rightarrow> u32 \<Rightarrow> machine \<Rightarrow> (u32 outcome \<times> machine) option"

text \<open>Step 2 of the sequence: both FLLs.\<close>

definition program_flls :: "env \<Rightarrow> u32 \<Rightarrow> u32 \<Rightarrow> machine \<Rightarrow> machine" where
  "program_flls env mult div0 s =
     (let fllPtr = getFllPtr 0; s = initFll env fllPtr s; s = setFllFreq env fllPtr mult div0 s;
          fllPtr = getFllPtr 1; s = initFll env fllPtr s; s = setFllFreq env fllPtr mult div0 s
      in s)"

text \<open>The common tail: measure, hand the UART a local configuration, open it. The instance that is
  returned no longer holds a valid configuration.\<close>

definition remeasure ::
  "freq_meter \<Rightarrow> chi_interface \<Rightarrow> u32 \<Rightarrow> u32 \<Rightarrow> env \<Rightarrow> machine
    \<Rightarrow> ((u32 \<times> chi_interface) outcome \<times> machine) option" where
  "remeasure get_core_freq iface rtc_freq ref_time_inv env s =
     (case get_core_freq env rtc_freq ref_time_inv s of
        None \<Rightarrow> None
      | Some (Fault f, s1) \<Rightarrow> Some (Fault f, s1)
      | Some (Ret core_freq, s1) \<Rightarrow>
         (let uart_cfg = default_uart_cfg\<lparr>clk_freq_hz := core_freq\<rparr>;
              iface1 = iface\<lparr>inst := (inst iface)\<lparr>if_cfg := Some uart_cfg\<rparr>\<rparr>;
              after = iface\<lparr>inst := (inst iface)\<lparr>if_cfg := None\<rparr>\<rparr>
          in case iface_open (Some iface1) env s1 of
               None \<Rightarrow> None
             | Some (Fault f, s2) \<Rightarrow> Some (Fault f, s2)
             | Some (Ret r, s2) \<Rightarrow> Some (Ret (if r \<noteq> 0 then 0 else core_freq, after), s2)))"

definition configure_fll ::
  "bool \<Rightarrow> target \<Rightarrow> gpio_write \<Rightarrow> freq_meter \<Rightarrow> chi_interface \<Rightarrow> u32 \<Rightarrow> u32 \<Rightarrow> env \<Rightarrow> machine
    \<Rightarrow> ((u32 \<times> chi_interface) outcome \<times> machine) option" where
  "configure_fll has_driver tgt gpio_wr get_core_freq iface target_freq rtc_freq env s =
     (if \<not> has_driver then Some (Ret (- 1, iface), s)
      else case calculate_fll_params True True target_freq rtc_freq of
        (r, out) \<Rightarrow>
          if r \<noteq> 0 then Some (Ret (0, iface), s)
          else let (mult, div0) = the out;
            (ok, s) = (if tgt = ChimeraConvolve then gpio_wr env 2 True s else (True, s)) in
          if \<not> ok then Some (Ret (0, iface), s)
          else let s = program_flls env mult div0 s; s = nops env 1000 s;
            (ok, s) = (if tgt = ChimeraConvolve then gpio_wr env 2 False s else (True, s)) in
          if \<not> ok then Some (Ret (0, iface), s)
          else remeasure get_core_freq iface rtc_freq 1 env s)"

definition restore_default_freq ::
  "bool \<Rightarrow> target \<Rightarrow> gpio_write \<Rightarrow> freq_meter \<Rightarrow> chi_interface \<Rightarrow> u32 \<Rightarrow> env \<Rightarrow> machine
    \<Rightarrow> ((u32 \<times> chi_interface) outcome \<times> machine) option" where
  "restore_default_freq has_driver tgt gpio_wr get_core_freq iface rtc_freq env s =
     (if \<not> has_driver then Some (Ret (- 1, iface), s)
      else let (ok, s) = (if tgt = ChimeraConvolve then gpio_wr env 2 True s else (True, s)) in
        if \<not> ok then Some (Ret (0, iface), s)
        else let ref_time_inv = rtc_freq div 128 in
          remeasure get_core_freq iface rtc_freq ref_time_inv env s)"

subsection \<open>The parameter calculation\<close>

lemma bit_unat: "bit (x :: u32) n \<longleftrightarrow> odd (unat x div 2 ^ n)"
  using bit_unsigned_iff [of x n, where ?'a = nat] by (simp add: bit_iff_odd)

lemma clz_from_bounds:
  "x \<noteq> 0 \<Longrightarrow> unat x < 2 ^ n \<Longrightarrow>
    clz_from n x < n \<and> 2 ^ (n - 1 - clz_from n x) \<le> unat x \<and> unat x < 2 ^ (n - clz_from n x)"
proof (induction n)
  case 0
  then show ?case by (simp add: word_eq_iff_unat)
next
  case (Suc n)
  have q: "unat x div 2 ^ n < 2"
    using Suc.prems(2) by (simp add: div_less_iff_less_mult)
  show ?case
  proof (cases "bit x n")
    case True
    with q have "unat x div 2 ^ n = 1"
      by (auto simp: bit_unat elim: oddE)
    then have "2 ^ n \<le> unat x"
      by (metis div_less linorder_not_le zero_neq_one)
    with True Suc.prems show ?thesis by simp
  next
    case False
    with q have "unat x div 2 ^ n = 0"
      by (auto simp: bit_unat less_2_cases_iff)
    then have "unat x < 2 ^ n"
      by (simp add: div_eq_0_iff)
    with False Suc show ?thesis by simp
  qed
qed

lemma unat_lt_32: "unat (x :: u32) < 2 ^ 32"
  using unsigned_less [of x, where ?'a = nat] by simp

lemma clz_log:
  fixes x :: u32
  assumes "x \<noteq> 0"
  defines "e \<equiv> unat (31 - builtin_clz x)"
  shows "2 ^ e \<le> unat x" and "unat x < 2 ^ Suc e" and "e \<le> 31"
proof -
  note b = clz_from_bounds [OF assms(1), of 32, OF unat_lt_32]
  then have c: "unat (of_nat (clz_from 32 x) :: u32) = clz_from 32 x"
    by (simp add: unat_of_nat)
  with b have e: "e = 31 - clz_from 32 x"
    unfolding e_def builtin_clz_def by (subst unat_sub_le) (simp_all add: word_le_nat_alt)
  show "2 ^ e \<le> unat x" "e \<le> 31" using b e by simp_all
  have "clz_from 32 x < 32" using b by blast
  with e have "Suc e = 32 - clz_from 32 x" by linarith
  with b show "unat x < 2 ^ Suc e" by simp
qed

text \<open>The rounded quotient is the nearest multiple, to within half a divisor.\<close>

lemma round_div:
  fixes n r :: nat
  assumes "0 < r"
  shows "r * ((n + r div 2) div r) \<le> n + r div 2" and "n \<le> r * ((n + r div 2) div r) + r div 2"
proof -
  show "r * ((n + r div 2) div r) \<le> n + r div 2"
    by simp
  have "n + r div 2 < r * ((n + r div 2) div r) + r"
    using assms mult_div_mod_eq [of r "n + r div 2"] mod_less_divisor [of r "n + r div 2"] by linarith
  then show "n \<le> r * ((n + r div 2) div r) + r div 2"
    by linarith
qed

lemma fll_limit:
  fixes t :: u32
  assumes "t \<noteq> 0" and "unat t < 2 ^ 31"
  shows "2 * t \<noteq> 0" and "unat (3300000000 div (2 * t)) = 3300000000 div (2 * unat t)"
proof -
  have u: "unat (2 * t) = 2 * unat t"
    using assms(2) by (subst unat_mult_no_wrap) simp_all
  then show "2 * t \<noteq> 0"
    using assms(1) by (auto simp: word_eq_iff_unat)
  show "unat (3300000000 div (2 * t)) = 3300000000 div (2 * unat t)"
    by (simp add: unat_div u)
qed

text \<open>The exponent of the divider: the largest power of two below the limit.\<close>

lemma fll_divider:
  fixes t :: u32
  assumes "t \<noteq> 0" and "4 * unat t \<le> 3300000000"
  defines "limit \<equiv> 3300000000 div (2 * t)" and "L \<equiv> 3300000000 div (2 * unat t)"
    and "e \<equiv> unat (31 - builtin_clz (3300000000 div (2 * t) - 1))"
  shows "\<not> limit \<le> 1" and "2 ^ e < L" and "L \<le> 2 * 2 ^ e" and "e \<le> 30" and "unat t * 2 ^ e \<le> 1650000000"
proof -
  have t: "0 < unat t" using assms(1) by (simp add: unat_gt_0)
  have t31: "unat t < 2 ^ 31" using assms(2) by simp
  note lim = fll_limit [OF assms(1) t31, folded limit_def L_def]
  have L2: "2 \<le> L"
    using t assms(2) by (simp add: L_def less_eq_div_iff_mult_less_eq)
  show "\<not> limit \<le> 1"
    using L2 lim(2) by (simp add: word_le_nat_alt)
  have below: "unat (limit - 1) = L - 1"
    using L2 lim(2) by (subst unat_sub_le) (simp_all add: word_le_nat_alt)
  then have nz: "limit - 1 \<noteq> 0"
    using L2 by (auto simp: word_eq_iff_unat)
  note log = clz_log [OF nz, unfolded below, unfolded limit_def, folded e_def]
  show DL: "2 ^ e < L" "L \<le> 2 * 2 ^ e" using log L2 by simp_all
  have "L \<le> 3300000000 div 2"
    unfolding L_def using t by (intro div_le_mono2) simp_all
  with DL(1) have "2 ^ e < (2 :: nat) ^ 31" by simp
  then show "e \<le> 30"
    using power_less_imp_less_exp [of "2 :: nat" e 31] by simp
  have "unat t * 2 ^ e \<le> unat t * L" using DL by simp
  also have "2 * (unat t * L) \<le> 3300000000" by (simp add: L_def ac_simps flip: mult.assoc)
  finally show "unat t * 2 ^ e \<le> 1650000000" by simp
qed

text \<open>The multiplier is computed without overflow.\<close>

lemma fll_multiplier:
  fixes t r :: u32
  assumes "e \<le> 30" and "unat t * 2 ^ e \<le> 1650000000"
  shows "unat ((t * push_bit e 1 + r div 2) div r) = (unat t * 2 ^ e + unat r div 2) div unat r"
proof -
  have "(2 :: nat) ^ e < 2 ^ 32"
    using assms(1) by (intro power_strict_increasing) simp_all
  then have D: "unat (push_bit e 1 :: u32) = 2 ^ e"
    unfolding unsigned_push_bit_eq using assms(1) by (simp add: push_bit_eq_mult take_bit_nat_eq_self)
  have num: "unat (t * push_bit e 1) = unat t * 2 ^ e"
    using assms(2) D by (subst unat_mult_no_wrap) simp_all
  have "unat r div 2 \<le> 2 ^ 31" using unat_lt_32 [of r] by simp
  with assms(2) num have "unat (t * push_bit e 1 + r div 2) = unat t * 2 ^ e + unat r div 2"
    by (subst unat_add_no_wrap) (simp_all add: unat_div)
  then show ?thesis by (simp only: unat_div)
qed

text \<open>C31: for every target up to a quarter of 3.3 GHz the calculation succeeds; the divider
  \<open>2^(div-1)\<close> is the largest power of two below the limit \<open>3.3 GHz / (2 target)\<close>, nothing overflows, and
  the multiplier is off by at most half a reference period (or is the minimum, 1).\<close>

theorem fll_params_correct:
  assumes "t \<noteq> 0" and "r \<noteq> 0" and "4 * unat t \<le> 3300000000"
  shows "\<exists>m d D. calculate_fll_params True True t r = (0, Some (m, d)) \<and> 1 \<le> unat d \<and> unat d \<le> 31
    \<and> D = 2 ^ (unat d - 1) \<and> D < 3300000000 div (2 * unat t) \<and> 3300000000 div (2 * unat t) \<le> 2 * D
    \<and> 1 \<le> unat m \<and> unat r * unat m \<le> max (unat t * D + unat r div 2) (unat r)
    \<and> unat t * D \<le> unat r * unat m + unat r div 2"
proof -
  let ?L = "3300000000 div (2 * unat t) :: nat" and ?limit = "3300000000 div (2 * t)"
  define e where "e = unat (31 - builtin_clz (?limit - 1))"
  let ?D = "2 ^ e :: nat"
  note div0 = fll_divider [OF assms(1,3), folded e_def]
  define m where "m = (t * push_bit e 1 + r div 2) div r"
  have m: "unat m = (unat t * ?D + unat r div 2) div unat r"
    unfolding m_def by (rule fll_multiplier [OF div0(4,5)])
  have r: "0 < unat r" using assms(2) by (simp add: unat_gt_0)
  note rd = round_div [OF r, of "unat t * ?D", folded m]
  have nz: "2 * t \<noteq> 0"
    using fll_limit [OF assms(1)] assms(3) by simp
  have calc: "calculate_fll_params True True t r = (0, Some (if m = 0 then 1 else m, 31 - builtin_clz (?limit - 1) + 1))"
    using assms(1,2) nz div0(1) by (simp add: calculate_fll_params_def Let_def m_def e_def)
  have d: "unat (31 - builtin_clz (?limit - 1) + 1) = e + 1"
    using div0(4) unfolding e_def by (subst unat_add_no_wrap) simp_all
  show ?thesis
  proof (intro exI conjI, rule calc)
    show "1 \<le> unat (31 - builtin_clz (?limit - 1) + 1)" "unat (31 - builtin_clz (?limit - 1) + 1) \<le> 31"
      using d div0(4) by simp_all
    show "?D = 2 ^ (unat (31 - builtin_clz (?limit - 1) + 1) - 1)" using d by simp
    show "?D < ?L" "?L \<le> 2 * ?D" by (rule div0(2,3))+
    show "1 \<le> unat (if m = 0 then 1 else m)" by (simp add: unat_gt_0 Suc_leI)
    show "unat r * unat (if m = 0 then 1 else m) \<le> max (unat t * ?D + unat r div 2) (unat r)"
      using max.coboundedI1 [OF rd(1), of "unat r"] by (cases "m = 0") simp_all
    show "unat t * ?D \<le> unat r * unat (if m = 0 then 1 else m) + unat r div 2"
      using rd by (cases "m = 0") simp_all
  qed
qed

theorem fll_params_correct_witness:
  "\<exists>m d D. calculate_fll_params True True 100000000 32768 = (0, Some (m, d)) \<and> D = 2 ^ (unat d - 1)
    \<and> D < (16 :: nat) \<and> 16 \<le> 2 * D"
  using fll_params_correct [of 100000000 32768] by auto

text \<open>The guard against too high targets rejects everything from just above 825 MHz up to
  2^31 - 1, but 2^31 + 1 Hz is accepted, because \<open>2 * target\<close> wraps: the overflow guard
  catches 2^31 only.\<close>

theorem fll_params_guard:
  "(2 ^ 31 > unat t \<and> unat t > 825000000 \<longrightarrow> calculate_fll_params True True t r = (- 1, None))
    \<and> calculate_fll_params True True (2 ^ 31) r = (- 1, None)
    \<and> calculate_fll_params True True (2 ^ 31 + 1) 32768 = (0, Some (32768, 31))"
proof (intro conjI impI)
  assume "2 ^ 31 > unat t \<and> unat t > 825000000"
  then have t: "unat t < 2 ^ 31" "825000000 < unat t" by simp_all
  then have nz: "t \<noteq> 0" by auto
  have "3300000000 div (2 * unat t) < 2"
    using t by (simp add: div_less_iff_less_mult)
  then have "3300000000 div (2 * t) \<le> 1"
    using fll_limit [OF nz t(1)] by (simp add: word_le_nat_alt)
  then show "calculate_fll_params True True t r = (- 1, None)"
    by (simp add: calculate_fll_params_def Let_def)
next
  show "calculate_fll_params True True (2 ^ 31) r = (- 1, None)"
    by (simp add: calculate_fll_params_def)
  show "calculate_fll_params True True (2 ^ 31 + 1) 32768 = (0, Some (32768, 31))"
    by code_simp
qed

theorem fll_params_guard_witness: "calculate_fll_params True True 900000000 32768 = (- 1, None)"
  using fll_params_guard [of 900000000 32768] by simp

subsection \<open>The configuration register\<close>

abbreviation conf1 :: "addr \<Rightarrow> addr" where "conf1 p \<equiv> p + 4"

lemma setFllFreq_peek:
  assumes "env_holds env R" and "conf1 p \<in> R"
  shows "peek32 (setFllFreq env p m d s) (conf1 p) =
    (peek32 s (conf1 p) AND 0xC3FF0000) OR (m OR push_bit 26 d)"
  using assms by (simp add: setFllFreq_def reg_offsets split_beta Let_def peek32_wr32_same rd32_held
      del: fst_rd32)

lemma initFll_peek:
  assumes "env_holds env R" and "conf1 p \<in> R"
  shows "peek32 (initFll env p s) (conf1 p) = push_bit 16 0xC958 OR (peek32 s (conf1 p) AND 0xFFFF)"
  using assms by (simp add: initFll_def reg_offsets split_beta Let_def peek32_wr32_same rd32_held
      del: fst_rd32)

lemma fll_sep_peek:
  assumes "env_holds env R" and "a \<in> R" and "sep32 a (conf1 p)"
  shows "peek32 (setFllFreq env p m d s) a = peek32 s a" and "peek32 (initFll env p s) a = peek32 s a"
  using assms by (simp_all add: setFllFreq_def initFll_def reg_offsets split_beta Let_def
      peek32_wr32_sep rd32_held del: fst_rd32)

text \<open>For a 16-bit multiplier and a 4-bit divider, \<open>setFllFreq\<close> leaves the multiplier in
  bits 15:0 and the divider in bits 29:26 and keeps every other bit; the field layout is not the
  26-bit multiplier and 6-bit divider of the driver's comment.\<close>

theorem setFllFreq_fields:
  assumes "env_holds env {conf1 p}" and "unat m < 2 ^ 16" and "unat d < 2 ^ 4"
  shows "\<forall>k < 32. bit (peek32 (setFllFreq env p m d s) (conf1 p)) k =
    (if k < 16 then bit m k else if 26 \<le> k \<and> k < 30 then bit d (k - 26) else bit (peek32 s (conf1 p)) k)"
proof (intro allI impI)
  fix k :: nat
  assume k: "k < 32"
  have small: "\<not> bit x j" if "unat x < 2 ^ n" "n \<le> j" for x :: u32 and n j
  proof -
    have "unat x < 2 ^ j" using that(1) by (rule less_le_trans) (use that(2) in simp)
    then show ?thesis by (simp add: bit_unat)
  qed
  have mask: "bit (0xC3FF0000 :: u32) k \<longleftrightarrow> \<not> k < 16 \<and> \<not> (26 \<le> k \<and> k < 30)"
  proof -
    have "\<forall>k \<in> {0..<32}. bit (0xC3FF0000 :: u32) k \<longleftrightarrow> \<not> k < 16 \<and> \<not> (26 \<le> k \<and> k < 30)"
      by code_simp
    with k show ?thesis by simp
  qed
  show "bit (peek32 (setFllFreq env p m d s) (conf1 p)) k =
    (if k < 16 then bit m k else if 26 \<le> k \<and> k < 30 then bit d (k - 26) else bit (peek32 s (conf1 p)) k)"
  proof -
    have "bit (peek32 (setFllFreq env p m d s) (conf1 p)) k \<longleftrightarrow>
        (bit (peek32 s (conf1 p)) k \<and> bit (0xC3FF0000 :: u32) k) \<or> bit m k \<or> (26 \<le> k \<and> bit d (k - 26))"
      using k by (simp add: setFllFreq_peek [OF assms(1)] bit_and_iff bit_or_iff bit_push_bit_iff)
    moreover have "16 \<le> k \<longrightarrow> \<not> bit m k" "30 \<le> k \<longrightarrow> \<not> bit d (k - 26)"
      using small [OF assms(2), of k] small [OF assms(3), of "k - 26"] by simp_all
    ultimately show ?thesis
      unfolding mask by (cases "k < 16"; cases "26 \<le> k \<and> k < 30") auto
  qed
qed

theorem setFllFreq_fields_witness:
  "\<forall>k < 32. bit (peek32 (setFllFreq quiet_env FLL_SOC_BASE 3052 5 s) (conf1 FLL_SOC_BASE)) k =
    (if k < 16 then bit (3052 :: u32) k else if 26 \<le> k \<and> k < 30 then bit (5 :: u32) (k - 26)
     else bit (peek32 s (conf1 FLL_SOC_BASE)) k)"
  by (rule setFllFreq_fields) simp_all

text \<open>The switch programs both FLLs to the same configuration word, which depends on the
  parameters only and not on what the registers held before.\<close>

theorem program_flls_both:
  assumes "env_holds env {conf1 FLL_SOC_BASE, conf1 FLL_CLU_BASE}"
  shows "peek32 (program_flls env m d s) (conf1 (getFllPtr 0)) = 0xC1580000 OR (m OR push_bit 26 d)
    \<and> peek32 (program_flls env m d s) (conf1 (getFllPtr 1)) = 0xC1580000 OR (m OR push_bit 26 d)"
proof -
  have sep: "sep32 (conf1 FLL_SOC_BASE) (conf1 FLL_CLU_BASE)"
    by (simp add: sep32_def reg_offsets)
  have word: "(0xC9580000 OR (v AND 0xFFFF)) AND 0xC3FF0000 = (0xC1580000 :: u32)" for v :: u32
  proof -
    have "(v AND 0xFFFF) AND 0xC3FF0000 = v AND (0xFFFF AND 0xC3FF0000)"
      by (simp only: and.assoc)
    also have "\<dots> = 0" by simp
    finally show ?thesis
      by (simp add: and.commute [of _ "0xC3FF0000"] bit.conj_disj_distrib)
  qed
  show ?thesis
    using sep sep32_sym [OF sep] assms
    by (simp add: program_flls_def getFllPtr_def Let_def setFllFreq_peek [OF assms]
        initFll_peek [OF assms] fll_sep_peek [OF assms] word)
qed

theorem program_flls_both_witness:
  "peek32 (program_flls quiet_env 3052 5 boot) 0x30004004 = 0xC1580000 OR (3052 OR push_bit 26 5)"
  using program_flls_both [of quiet_env 3052 5 boot] by (simp add: getFllPtr_def reg_offsets)

text \<open>What \<open>configure_fll\<close> returns on its early exits: 2^32 - 1 in a build without the FLL
  driver (where the header promises 0), and 0 with no register touched when the parameters cannot
  be computed.\<close>

theorem configure_fll_early:
  "configure_fll False tgt gw meter iface t r env s = Some (Ret (2 ^ 32 - 1, iface), s)
    \<and> (fst (calculate_fll_params True True t r) \<noteq> 0 \<longrightarrow>
        configure_fll True tgt gw meter iface t r env s = Some (Ret (0, iface), s))"
  by (auto simp: configure_fll_def split: prod.splits)

theorem configure_fll_early_witness:
  "configure_fll True ChimeraConvolve gw meter iface 900000000 32768 env s = Some (Ret (0, iface), s)"
proof -
  have "calculate_fll_params True True 900000000 32768 = (- 1, None)"
    by code_simp
  then show ?thesis
    using configure_fll_early [of ChimeraConvolve gw meter iface 900000000 32768 env s] by simp
qed

text \<open>\<open>restore_default_freq\<close> faults, dividing by zero in the frequency measurement, whenever
  the reference clock is slower than 128 Hz: the inverse period it asks for is then 0.\<close>

theorem restore_default_freq_slow_clock:
  assumes "rtc_freq < 128"
  shows "restore_default_freq True ChimeraOpen gw clint32_get_core_freq iface rtc_freq env s =
    Some (Fault DivisionByZero, s)"
proof -
  have "rtc_freq div 128 = 0"
    using assms by (simp add: word_eq_iff_unat unat_div word_less_nat_alt)
  then show ?thesis
    by (simp add: restore_default_freq_def remeasure_def clint32_get_core_freq_def)
qed

theorem restore_default_freq_slow_clock_witness:
  "restore_default_freq True ChimeraOpen gw clint32_get_core_freq iface 100 quiet_env s =
    Some (Fault DivisionByZero, s)"
  by (rule restore_default_freq_slow_clock) simp

text \<open>After a successful switch the UART instance points at a configuration that has gone out
  of scope: opening the interface again faults.\<close>

theorem configure_fll_dangling_cfg:
  assumes "if_base (inst iface) \<noteq> 0" and "api iface = Some (default_uart_api rv64)"
    and "remeasure meter iface r tinv env s = Some (Ret (f, iface'), s')"
  shows "iface_open (Some iface') env' s'' = Some (Fault InvalidPointer, s'')"
  using assms by (auto simp: remeasure_def Let_def iface_open_def default_uart_api_def
      uart_apb_open_def split: option.splits outcome.splits)

definition fixed_meter :: freq_meter where
  "fixed_meter env r tinv s = Some (Ret 100000000, s)"

theorem configure_fll_dangling_cfg_witness:
  "\<exists>f iface' s'. remeasure fixed_meter (default_uart_inst True) 32768 1 quiet_env boot = Some (Ret (f, iface'), s')
    \<and> iface_open (Some iface') quiet_env boot = Some (Fault InvalidPointer, boot)"
proof -
  obtain f iface' s' where r: "remeasure fixed_meter (default_uart_inst True) 32768 1 quiet_env boot =
      Some (Ret (f, iface'), s')"
    by (simp add: remeasure_def fixed_meter_def iface_open_def default_uart_inst_def
        default_uart_api_def uart_apb_open_def default_uart_cfg_def reg_offsets Let_def)
  have "if_base (inst (default_uart_inst True)) \<noteq> 0" "api (default_uart_inst True) = Some (default_uart_api True)"
    by (simp_all add: default_uart_inst_def reg_offsets)
  from configure_fll_dangling_cfg [OF this r] r show ?thesis by blast
qed

end
