(* ===== verification/Offload.thy ===== *)
theory Offload
  imports SocMap
begin

section \<open>The cluster offload driver (host/drivers/cluster/offload\_snitchCluster.c)\<close>

text \<open>
  The host side of an offload: stack-pointer generation, the trampoline arrays in the shared
  region, boot address and software interrupts, the busy and return registers, clock gating and
  reset. A host pointer is a \<open>'w word\<close> (64 bits on chimera-open, 32 on chimera-convolve). An
  index outside the geometry arrays, which C leaves undefined, is \<open>OutOfBounds\<close>.
\<close>

subsection \<open>The shared region (shared.h)\<close>

definition NUM_CLUSTERS :: nat where "NUM_CLUSTERS = 5"

definition NUM_CLUSTER_CORES :: "target \<Rightarrow> nat" where
  "NUM_CLUSTER_CORES t = sum_list (chimera_numCores t)"

definition shared_data :: addr where "shared_data = 0x48000000"

text \<open>The two HTIF words are 64 bits wide on chimera-convolve and 32 on chimera-open.\<close>

definition htif_bytes :: "target \<Rightarrow> nat" where
  "htif_bytes t = (case t of ChimeraConvolve \<Rightarrow> 8 | ChimeraOpen \<Rightarrow> 4)"

definition off_host_to_device :: "target \<Rightarrow> nat" where "off_host_to_device t = 0"
definition off_device_to_host :: "target \<Rightarrow> nat" where "off_device_to_host t = htif_bytes t"

definition off_trampoline_function :: "target \<Rightarrow> nat" where
  "off_trampoline_function t = 2 * htif_bytes t + 4 * NUM_CLUSTERS + 4 * NUM_CLUSTERS"

definition off_trampoline_args :: "target \<Rightarrow> nat" where
  "off_trampoline_args t = off_trampoline_function t + 4 * NUM_CLUSTER_CORES t"

definition off_trampoline_stack :: "target \<Rightarrow> nat" where
  "off_trampoline_stack t = off_trampoline_args t + 4 * NUM_CLUSTER_CORES t"

text \<open>The address of element \<open>idx\<close> of an array of \<open>uint32_t\<close> at offset \<open>off\<close>.\<close>

definition shared_elem :: "nat \<Rightarrow> u32 \<Rightarrow> addr" where
  "shared_elem off idx = shared_data + of_nat off + 4 * idx"

text \<open>The accesses a 32-bit core makes to an HTIF word: one on chimera-open, the low half and then
  the high half on chimera-convolve. The value read is given as its high and low half; what is
  written is always an address or zero, whose high half is zero.\<close>

definition htif_read :: "target \<Rightarrow> env \<Rightarrow> addr \<Rightarrow> machine \<Rightarrow> (u32 \<times> u32) \<times> machine" where
  "htif_read t env a s = (let (lo, s) = rd32 env a s in case t of
     ChimeraOpen \<Rightarrow> ((0, lo), s)
   | ChimeraConvolve \<Rightarrow> (let (hi, s) = rd32 env (a + 4) s in ((hi, lo), s)))"

definition htif_write :: "target \<Rightarrow> env \<Rightarrow> addr \<Rightarrow> u32 \<Rightarrow> machine \<Rightarrow> machine" where
  "htif_write t env a v s = (let s = wr32 env a v s in case t of
     ChimeraOpen \<Rightarrow> s
   | ChimeraConvolve \<Rightarrow> wr32 env (a + 4) 0 s)"

subsection \<open>Geometry and trampolines\<close>

definition cluster_cores :: "target \<Rightarrow> u8 \<Rightarrow> nat option" where
  "cluster_cores t clusterId = (if unat clusterId < length (chimera_numCores t)
     then Some (chimera_numCores t ! unat clusterId) else None)"

definition get_hart_id :: "target \<Rightarrow> u8 \<Rightarrow> u32 \<Rightarrow> u32 option" where
  "get_hart_id t clusterId core_id = (if unat clusterId < length (chimera_hartBase t)
     then Some (of_nat (chimera_hartBase t ! unat clusterId) + core_id) else None)"

definition setup_trampoline ::
  "target \<Rightarrow> env \<Rightarrow> u32 \<Rightarrow> 'w::len word \<Rightarrow> 'w word \<Rightarrow> 'w word \<Rightarrow> machine \<Rightarrow> machine" where
  "setup_trampoline t env hartID function args stack s =
     (let trampoline_idx = hartID - of_nat CLUSTER_HART_BASE;
          s = wr32 env (shared_elem (off_trampoline_function t) trampoline_idx) (ucast function) s;
          s = wr32 env (shared_elem (off_trampoline_args t) trampoline_idx) (ucast args) s;
          s = wr32 env (shared_elem (off_trampoline_stack t) trampoline_idx) (ucast stack) s
      in s)"

text \<open>A store through a \<open>void **\<close>: one pointer of the host's width.\<close>

definition wr_ptr :: "env \<Rightarrow> addr \<Rightarrow> 'w::len word \<Rightarrow> machine \<Rightarrow> machine" where
  "wr_ptr env a p s = (if LENGTH('w) = 64 then wr64 env a (ucast p) s else wr32 env a (ucast p) s)"

definition setup_snitchCluster_interruptHandler :: "env \<Rightarrow> 'w::len word \<Rightarrow> machine \<Rightarrow> machine" where
  "setup_snitchCluster_interruptHandler env handler s =
     wr_ptr env (SOC_CTRL_BASE + CHIMERA_SNITCH_INTR_HANDLER_ADDR_REG_OFFSET) handler s"

subsection \<open>Stack pointers\<close>

text \<open>The two loops fill \<open>stack_ptr[0 ..]\<close>, here the list that is returned, and return the end of
  the stack memory; the list argument holds the sizes of the cores in order.\<close>

primrec stack_pointers :: "'w::len word \<Rightarrow> u32 list \<Rightarrow> 'w word list \<times> 'w word" where
  "stack_pointers sp [] = ([], sp)"
| "stack_pointers sp (n # ns) =
    (let sp = sp AND NOT 0xF; (rest, final) = stack_pointers (sp - ucast n) ns in (sp # rest, final))"

definition generate_snitchCluster_SPs ::
  "target \<Rightarrow> u8 \<Rightarrow> 'w::len word \<Rightarrow> u32 list \<Rightarrow> ('w word list \<times> 'w word) outcome" where
  "generate_snitchCluster_SPs t clusterId sp stack_size = (case cluster_cores t clusterId of
     None \<Rightarrow> Fault OutOfBounds
   | Some n \<Rightarrow> if length stack_size < n then Fault OutOfBounds
       else Ret (stack_pointers sp (take n stack_size)))"

definition generate_snitchCluster_SPs_uniform ::
  "target \<Rightarrow> u8 \<Rightarrow> 'w::len word \<Rightarrow> u32 \<Rightarrow> ('w word list \<times> 'w word) outcome" where
  "generate_snitchCluster_SPs_uniform t clusterId sp stack_size = (case cluster_cores t clusterId of
     None \<Rightarrow> Fault OutOfBounds
   | Some n \<Rightarrow> Ret (stack_pointers sp (replicate n stack_size)))"

subsection \<open>Busy and return registers\<close>

definition busy_reg :: "u8 \<Rightarrow> addr option" where
  "busy_reg clusterId =
     (if clusterId = 0 then Some (SOC_CTRL_BASE + CHIMERA_CLUSTER_0_BUSY_REG_OFFSET)
      else if clusterId = 1 then Some (SOC_CTRL_BASE + CHIMERA_CLUSTER_1_BUSY_REG_OFFSET)
      else if clusterId = 2 then Some (SOC_CTRL_BASE + CHIMERA_CLUSTER_2_BUSY_REG_OFFSET)
      else if clusterId = 3 then Some (SOC_CTRL_BASE + CHIMERA_CLUSTER_3_BUSY_REG_OFFSET)
      else if clusterId = 4 then Some (SOC_CTRL_BASE + CHIMERA_CLUSTER_4_BUSY_REG_OFFSET)
      else None)"

definition snitchCluster_busy :: "env \<Rightarrow> u8 \<Rightarrow> machine \<Rightarrow> int \<times> machine" where
  "snitchCluster_busy env clusterId s = (case busy_reg clusterId of
     None \<Rightarrow> (- 1, s)
   | Some busy_ptr \<Rightarrow> (let (v, s1) = rd32 env busy_ptr s in (sint v, s1)))"

definition busy_body :: "env \<Rightarrow> u8 \<Rightarrow> machine \<Rightarrow> (unit option \<times> machine) option" where
  "busy_body env clusterId s =
     (let (b, s1) = snitchCluster_busy env clusterId s in Some (if b = 1 then None else Some (), s1))"

definition wait_snitchCluster_busy :: "env \<Rightarrow> u8 \<Rightarrow> machine \<Rightarrow> (unit \<times> machine) option" where
  "wait_snitchCluster_busy env clusterId s = (case loop (busy_body env clusterId) s of
     None \<Rightarrow> None
   | Some (_, s1) \<Rightarrow> Some ((), nops env 5000 s1))"

definition return_reg :: "u8 \<Rightarrow> addr option" where
  "return_reg clusterId =
     (if clusterId = 0 then Some (SOC_CTRL_BASE + CHIMERA_SNITCH_CLUSTER_0_RETURN_REG_OFFSET)
      else if clusterId = 1 then Some (SOC_CTRL_BASE + CHIMERA_SNITCH_CLUSTER_1_RETURN_REG_OFFSET)
      else if clusterId = 2 then Some (SOC_CTRL_BASE + CHIMERA_SNITCH_CLUSTER_2_RETURN_REG_OFFSET)
      else if clusterId = 3 then Some (SOC_CTRL_BASE + CHIMERA_SNITCH_CLUSTER_3_RETURN_REG_OFFSET)
      else if clusterId = 4 then Some (SOC_CTRL_BASE + CHIMERA_SNITCH_CLUSTER_4_RETURN_REG_OFFSET)
      else None)"

text \<open>The switch has no default: for another id the pointer is never assigned.\<close>

definition wait_snitchCluster_return :: "env \<Rightarrow> u8 \<Rightarrow> machine \<Rightarrow> (u32 outcome \<times> machine) option" where
  "wait_snitchCluster_return env clusterId s = (case return_reg clusterId of
     None \<Rightarrow> Some (Fault UninitialisedPointer, s)
   | Some a \<Rightarrow> (case poll32 env a (\<lambda>v. v \<noteq> 0) s of
       None \<Rightarrow> None
     | Some (_, s1) \<Rightarrow> (let (retVal, s2) = rd32 env a s1 in Some (Ret retVal, wr32 env a 0 s2))))"

subsection \<open>Offloading\<close>

definition send_interrupt :: "env \<Rightarrow> u32 \<Rightarrow> machine \<Rightarrow> machine" where
  "send_interrupt env hartId s = wr32 env (CLINT_CTRL_BASE + 4 * hartId) 1 s"

definition offload_snitchCluster_core ::
  "target \<Rightarrow> env \<Rightarrow> 'w::len word \<Rightarrow> 'w word \<Rightarrow> 'w word \<Rightarrow> 'w word \<Rightarrow> u8 \<Rightarrow> u32 \<Rightarrow> machine
    \<Rightarrow> (unit outcome \<times> machine) option" where
  "offload_snitchCluster_core t env function trampoline args stack_ptr clusterId core_id s =
     (case get_hart_id t clusterId core_id of
        None \<Rightarrow> Some (Fault OutOfBounds, s)
      | Some hartId \<Rightarrow>
         (let s = setup_trampoline t env hartId function args stack_ptr s;
              s = wr_ptr env (SOC_CTRL_BASE + CHIMERA_SNITCH_BOOT_ADDR_REG_OFFSET) trampoline s
          in case wait_snitchCluster_busy env clusterId s of
               None \<Rightarrow> None
             | Some (_, s) \<Rightarrow> Some (Ret (), send_interrupt env hartId s)))"

definition offload_step ::
  "target \<Rightarrow> env \<Rightarrow> 'w::len word \<Rightarrow> 'w word \<Rightarrow> 'w word \<Rightarrow> 'w word list \<Rightarrow> u32 \<Rightarrow> nat \<Rightarrow> machine \<Rightarrow> machine" where
  "offload_step t env function trampoline args stack_ptr hartId i s =
     (let s = setup_trampoline t env (hartId + of_nat i) function args (stack_ptr ! i) s;
          s = wr32 env (SOC_CTRL_BASE + CHIMERA_SNITCH_BOOT_ADDR_REG_OFFSET) (ucast trampoline) s;
          s = fence env s
      in send_interrupt env (hartId + of_nat i) s)"

definition offload_snitchCluster ::
  "target \<Rightarrow> env \<Rightarrow> 'w::len word \<Rightarrow> 'w word \<Rightarrow> 'w word \<Rightarrow> 'w word list \<Rightarrow> u8 \<Rightarrow> machine
    \<Rightarrow> (unit outcome \<times> machine) option" where
  "offload_snitchCluster t env function trampoline args stack_ptr clusterId s =
     (case (get_hart_id t clusterId 0, cluster_cores t clusterId) of
        (Some hartId, Some n) \<Rightarrow>
          (case wait_snitchCluster_busy env clusterId s of
             None \<Rightarrow> None
           | Some (_, s1) \<Rightarrow>
               if length stack_ptr < n then Some (Fault OutOfBounds, s1)
               else (let s2 = fold (offload_step t env function trampoline args stack_ptr hartId) [0..<n] s1
                 in Some (Ret (), nops env 10 s2)))
      | _ \<Rightarrow> Some (Fault OutOfBounds, s))"

subsection \<open>Clock gating and reset\<close>

definition clk_gate_reg :: "u8 \<Rightarrow> addr option" where
  "clk_gate_reg clusterId =
     (if clusterId = 0 then Some (SOC_CTRL_BASE + CHIMERA_CLUSTER_0_CLK_GATE_EN_REG_OFFSET)
      else if clusterId = 1 then Some (SOC_CTRL_BASE + CHIMERA_CLUSTER_1_CLK_GATE_EN_REG_OFFSET)
      else if clusterId = 2 then Some (SOC_CTRL_BASE + CHIMERA_CLUSTER_2_CLK_GATE_EN_REG_OFFSET)
      else if clusterId = 3 then Some (SOC_CTRL_BASE + CHIMERA_CLUSTER_3_CLK_GATE_EN_REG_OFFSET)
      else if clusterId = 4 then Some (SOC_CTRL_BASE + CHIMERA_CLUSTER_4_CLK_GATE_EN_REG_OFFSET)
      else None)"

definition set_snitchCluster_clockGating :: "env \<Rightarrow> u8 \<Rightarrow> bool \<Rightarrow> machine \<Rightarrow> machine" where
  "set_snitchCluster_clockGating env clusterId enable s = (case clk_gate_reg clusterId of
     None \<Rightarrow> s | Some a \<Rightarrow> wr8 env a (of_bool enable) s)"

definition setAll_snitchCluster_clockGating :: "env \<Rightarrow> bool \<Rightarrow> machine \<Rightarrow> machine" where
  "setAll_snitchCluster_clockGating env enable s =
     (let v = of_bool enable;
          s = wr8 env (SOC_CTRL_BASE + CHIMERA_CLUSTER_0_CLK_GATE_EN_REG_OFFSET) v s;
          s = wr8 env (SOC_CTRL_BASE + CHIMERA_CLUSTER_1_CLK_GATE_EN_REG_OFFSET) v s;
          s = wr8 env (SOC_CTRL_BASE + CHIMERA_CLUSTER_2_CLK_GATE_EN_REG_OFFSET) v s;
          s = wr8 env (SOC_CTRL_BASE + CHIMERA_CLUSTER_3_CLK_GATE_EN_REG_OFFSET) v s
      in wr8 env (SOC_CTRL_BASE + CHIMERA_CLUSTER_4_CLK_GATE_EN_REG_OFFSET) v s)"

definition reset_reg :: "u8 \<Rightarrow> addr option" where
  "reset_reg clusterId =
     (if clusterId = 0 then Some (SOC_CTRL_BASE + CHIMERA_RESET_CLUSTER_0_REG_OFFSET)
      else if clusterId = 1 then Some (SOC_CTRL_BASE + CHIMERA_RESET_CLUSTER_1_REG_OFFSET)
      else if clusterId = 2 then Some (SOC_CTRL_BASE + CHIMERA_RESET_CLUSTER_2_REG_OFFSET)
      else if clusterId = 3 then Some (SOC_CTRL_BASE + CHIMERA_RESET_CLUSTER_3_REG_OFFSET)
      else if clusterId = 4 then Some (SOC_CTRL_BASE + CHIMERA_RESET_CLUSTER_4_REG_OFFSET)
      else None)"

definition set_snitchCluster_reset :: "env \<Rightarrow> u8 \<Rightarrow> bool \<Rightarrow> machine \<Rightarrow> machine" where
  "set_snitchCluster_reset env clusterId enable s = (case reset_reg clusterId of
     None \<Rightarrow> s | Some a \<Rightarrow> wr8 env a (of_bool enable) s)"

definition setAll_snitchCluster_reset :: "env \<Rightarrow> bool \<Rightarrow> machine \<Rightarrow> machine" where
  "setAll_snitchCluster_reset env enable s =
     (let v = of_bool enable;
          s = wr8 env (SOC_CTRL_BASE + CHIMERA_RESET_CLUSTER_0_REG_OFFSET) v s;
          s = wr8 env (SOC_CTRL_BASE + CHIMERA_RESET_CLUSTER_1_REG_OFFSET) v s;
          s = wr8 env (SOC_CTRL_BASE + CHIMERA_RESET_CLUSTER_2_REG_OFFSET) v s;
          s = wr8 env (SOC_CTRL_BASE + CHIMERA_RESET_CLUSTER_3_REG_OFFSET) v s
      in wr8 env (SOC_CTRL_BASE + CHIMERA_RESET_CLUSTER_4_REG_OFFSET) v s)"

subsection \<open>The device API stubs\<close>

definition snitchcluster_open :: "int" where "snitchcluster_open = 0"
definition snitchcluster_close :: "int" where "snitchcluster_close = 0"
definition snitchcluster_read :: "u32 \<Rightarrow> int" where "snitchcluster_read len = - 1"

subsection \<open>Waiting for the cluster\<close>

lemma sint_eq_1_iff: "sint (v :: u32) = 1 \<longleftrightarrow> v = 1"
proof
  assume "sint v = 1"
  then have "sint v = sint (1 :: u32)" by simp
  then show "v = 1" by (rule signed_word_eqI)
qed simp

lemma busy_body_eq:
  "busy_reg c = Some a \<Longrightarrow> busy_body env c s =
    Some (if reg_at env s a 0 = 1 then None else Some (), snd (rd32 env a s))"
  by (simp add: busy_body_def snitchCluster_busy_def split_beta sint_eq_1_iff reg_at_0)

lemma iter_busy_eq:
  "busy_reg c = Some a \<Longrightarrow> iter (busy_body env c) k s = iter (poll_body env a (\<lambda>v. v \<noteq> 1)) k s"
  by (induction k arbitrary: s) (simp_all add: busy_body_eq poll_body_eq)

text \<open>For a cluster that exists the wait is the busy-wait loop on its busy register.\<close>

lemma wait_busy_eq:
  assumes "busy_reg c = Some a"
  shows "wait_snitchCluster_busy env c s = (case poll32 env a (\<lambda>v. v \<noteq> 1) s of
    None \<Rightarrow> None | Some (_, s1) \<Rightarrow> Some ((), nops env 5000 s1))"
proof (cases "poll32 env a (\<lambda>v. v \<noteq> 1) s")
  case None
  then have one: "reg_at env s a k = 1" for k by (simp add: poll32_None_iff)
  have "loop (busy_body env c) s = None"
  proof (rule loop_diverges [where I = "\<lambda>t. \<exists>k. t = reads32 env a k s"])
    show "\<exists>k. s = reads32 env a k s" by (rule exI [of _ 0]) simp
    fix t
    assume "\<exists>k. t = reads32 env a k s"
    then obtain k where t: "t = reads32 env a k s" by blast
    show "\<exists>t'. busy_body env c t = Some (None, t') \<and> (\<exists>k. t' = reads32 env a k s)"
      using one [of k] unfolding t
      by (intro exI [of _ "reads32 env a (Suc k) s"] conjI exI [of _ "Suc k"])
        (simp_all add: busy_body_eq [OF assms] reg_at_reads32 reads32_Suc del: reads32.simps)
  qed
  with None show ?thesis by (simp add: wait_snitchCluster_busy_def)
next
  case (Some y)
  obtain v s1 where y: "y = (v, s1)" by (cases y)
  from loop_SomeD [OF Some [unfolded y poll32_def]] obtain k t
    where it: "iter (poll_body env a (\<lambda>v. v \<noteq> 1)) k s = Some t"
      and b: "poll_body env a (\<lambda>v. v \<noteq> 1) t = Some (Some v, s1)" by auto
  then have "busy_body env c t = Some (Some (), s1)"
    by (auto simp: busy_body_eq [OF assms] poll_body_eq split: if_splits)
  with it have "loop (busy_body env c) s = Some ((), s1)"
    by (intro loop_returns [of _ k]) (simp_all add: iter_busy_eq [OF assms])
  with Some y show ?thesis by (simp add: wait_snitchCluster_busy_def)
qed

lemma wait_busy_none: "busy_reg c = None \<Longrightarrow> wait_snitchCluster_busy env c s = Some ((), nops env 5000 s)"
  by (simp add: wait_snitchCluster_busy_def busy_body_def snitchCluster_busy_def loop_unfold)

lemma nops_sel [simp]:
  "hw (nops env n s) = env (now s) (hw s)"
  "now (nops env n s) = Suc (now s)"
  "trace (nops env n s) = trace s @ [Nops n]"
  by (simp_all add: nops_def)

lemma small_id_cases: "unat (c :: u8) < 5 \<longleftrightarrow> c \<in> {0, 1, 2, 3, 4}"
proof
  assume "unat c < 5"
  then have "unat c \<in> {0, 1, 2, 3, 4}" by auto
  then show "c \<in> {0, 1, 2, 3, 4}" by (auto simp: word_eq_iff_unat)
qed auto

lemma busy_reg_cases:
  "busy_reg c = (if unat c < 5 then Some (SOC_CTRL_BASE + CHIMERA_CLUSTER_0_BUSY_REG_OFFSET + 4 * ucast c) else None)"
proof (cases "c \<in> {0, 1, 2, 3, 4}")
  case True
  then show ?thesis by (auto simp: busy_reg_def reg_offsets)
next
  case False
  then show ?thesis by (auto simp: busy_reg_def small_id_cases)
qed

lemma return_reg_cases:
  "return_reg c = (if unat c < 5
     then Some (SOC_CTRL_BASE + CHIMERA_SNITCH_CLUSTER_0_RETURN_REG_OFFSET + 4 * ucast c) else None)"
proof (cases "c \<in> {0, 1, 2, 3, 4}")
  case True
  then show ?thesis by (auto simp: return_reg_def reg_offsets)
next
  case False
  then show ?thesis by (auto simp: return_reg_def small_id_cases)
qed

subsection \<open>What an offload leaves for each core\<close>

text \<open>The words that core \<open>h\<close> (its hart id) is started with, and their natural-number addresses.\<close>

definition fn_word :: "target \<Rightarrow> nat \<Rightarrow> addr" where
  "fn_word t h = shared_elem (off_trampoline_function t) (of_nat h - of_nat CLUSTER_HART_BASE)"

definition args_word :: "target \<Rightarrow> nat \<Rightarrow> addr" where
  "args_word t h = shared_elem (off_trampoline_args t) (of_nat h - of_nat CLUSTER_HART_BASE)"

definition stack_word :: "target \<Rightarrow> nat \<Rightarrow> addr" where
  "stack_word t h = shared_elem (off_trampoline_stack t) (of_nat h - of_nat CLUSTER_HART_BASE)"

definition msip_word :: "nat \<Rightarrow> addr" where
  "msip_word h = CLINT_CTRL_BASE + 4 * of_nat h"

definition boot_word :: addr where
  "boot_word = SOC_CTRL_BASE + CHIMERA_SNITCH_BOOT_ADDR_REG_OFFSET"

definition core_words :: "target \<Rightarrow> nat \<Rightarrow> addr list" where
  "core_words t h = [fn_word t h, args_word t h, stack_word t h, msip_word h]"

definition launch_words :: "target \<Rightarrow> nat list \<Rightarrow> addr set" where
  "launch_words t hs = insert boot_word (\<Union>h\<in>set hs. {fn_word t h, args_word t h, stack_word t h})"

definition core_nats :: "target \<Rightarrow> nat \<Rightarrow> nat list" where
  "core_nats t h = (let b = 0x48000000 + off_trampoline_function t; n = 4 * NUM_CLUSTER_CORES t
     in [b + 4 * (h - 1), b + n + 4 * (h - 1), b + 2 * n + 4 * (h - 1), 0x2040000 + 4 * h])"

lemma core_words_nat:
  assumes "1 \<le> h"
  shows "core_words t h = map of_nat (core_nats t h)"
proof -
  obtain k where h: "h = Suc k"
    using assms by (cases h) auto
  show ?thesis
    by (simp add: h core_words_def core_nats_def fn_word_def args_word_def stack_word_def msip_word_def
        shared_elem_def shared_data_def off_trampoline_args_def off_trampoline_stack_def
        CLUSTER_HART_BASE_def HOST_NUMCORES_def CLINT_CTRL_BASE_def Let_def)
qed

lemma num_cluster_cores: "NUM_CLUSTER_CORES ChimeraConvolve = 17" "NUM_CLUSTER_CORES ChimeraOpen = 45"
  by (simp_all add: NUM_CLUSTER_CORES_def chimera_numCores_def)

lemma off_function_values:
  "off_trampoline_function ChimeraConvolve = 56" "off_trampoline_function ChimeraOpen = 48"
  by (simp_all add: off_trampoline_function_def htif_bytes_def NUM_CLUSTERS_def)

lemma sep32_aligned:
  assumes "4 dvd x" and "4 dvd y" and "x \<noteq> y" and "x < 2 ^ 31" and "y < 2 ^ 31"
  shows "sep32 (of_nat x) (of_nat y)"
proof -
  have "x + 4 \<le> y \<or> y + 4 \<le> x"
    using assms(1-3) by (auto elim!: dvdE)
  then show ?thesis
    using assms(4,5) sep32_of_nat sep32_sym by blast
qed

lemma core_nats_range:
  assumes "1 \<le> h" and "h \<le> NUM_CLUSTER_CORES t" and "x \<in> set (core_nats t h)"
  shows "4 dvd x" and "x < 2 ^ 31" and "x \<noteq> 0x30001000"
  using assms by (cases t; auto simp: core_nats_def Let_def num_cluster_cores off_function_values; presburger)+

lemma core_nats_distinct:
  assumes "1 \<le> h" and "h \<le> NUM_CLUSTER_CORES t"
  shows "distinct (core_nats t h)"
  using assms by (cases t) (auto simp: core_nats_def Let_def num_cluster_cores off_function_values)

lemma core_nats_disjoint:
  assumes "1 \<le> h" and "h \<le> NUM_CLUSTER_CORES t" and "1 \<le> h'" and "h' \<le> NUM_CLUSTER_CORES t" and "h \<noteq> h'"
  shows "set (core_nats t h) \<inter> set (core_nats t h') = {}"
  using assms by (cases t) (auto simp: core_nats_def Let_def num_cluster_cores off_function_values)

lemma core_words_sep:
  assumes "1 \<le> h" and "h \<le> NUM_CLUSTER_CORES t" and "1 \<le> h'" and "h' \<le> NUM_CLUSTER_CORES t" and "h \<noteq> h'"
    and "a \<in> set (core_words t h)" and "b \<in> set (core_words t h')"
  shows "sep32 a b"
proof -
  obtain x y where "a = of_nat x" "b = of_nat y" "x \<in> set (core_nats t h)" "y \<in> set (core_nats t h')"
    using assms(6,7) unfolding core_words_nat [OF assms(1)] core_words_nat [OF assms(3)] by auto
  then show ?thesis
    using core_nats_disjoint [OF assms(1-5)] core_nats_range assms(1-4)
    by (auto intro!: sep32_aligned)
qed

lemma boot_word_sep:
  assumes "1 \<le> h" and "h \<le> NUM_CLUSTER_CORES t" and "a \<in> set (core_words t h)"
  shows "sep32 a boot_word"
proof -
  obtain x where x: "a = of_nat x" "x \<in> set (core_nats t h)"
    using assms(3) unfolding core_words_nat [OF assms(1)] by auto
  have boot: "boot_word = of_nat 0x30001000"
    by (simp add: boot_word_def reg_offsets)
  show ?thesis
    unfolding boot x(1) using core_nats_range [OF assms(1,2) x(2)]
    by (intro sep32_aligned) auto
qed

lemma distinct_sorted_wrt: "distinct xs \<Longrightarrow> (\<And>x y. x \<in> set xs \<Longrightarrow> y \<in> set xs \<Longrightarrow> x \<noteq> y \<Longrightarrow> P x y) \<Longrightarrow> sorted_wrt P xs"
  by (induction xs) auto

lemma core_words_own_sep:
  assumes "1 \<le> h" and "h \<le> NUM_CLUSTER_CORES t"
  shows "sorted_wrt sep32 (core_words t h)"
proof -
  have "sorted_wrt (\<lambda>x y. sep32 (of_nat x) (of_nat y)) (core_nats t h)"
    using core_nats_range [OF assms] by (intro distinct_sorted_wrt core_nats_distinct assms sep32_aligned)
  then show ?thesis unfolding core_words_nat [OF assms(1)] sorted_wrt_map .
qed

definition core_ready :: "target \<Rightarrow> nat \<Rightarrow> u32 \<Rightarrow> u32 \<Rightarrow> u32 \<Rightarrow> machine \<Rightarrow> bool" where
  "core_ready t h f a sp s \<longleftrightarrow> peek32 s (fn_word t h) = f \<and> peek32 s (args_word t h) = a
     \<and> peek32 s (stack_word t h) = sp"

lemma offload_step_eq:
  "offload_step t env f tr args sps (of_nat hb) i s =
    wr32 env (msip_word (hb + i)) 1 (fence env (wr32 env boot_word (ucast tr)
      (wr32 env (stack_word t (hb + i)) (ucast (sps ! i)) (wr32 env (args_word t (hb + i)) (ucast args)
        (wr32 env (fn_word t (hb + i)) (ucast f) s)))))"
  by (simp add: offload_step_def setup_trampoline_def send_interrupt_def Let_def fn_word_def
      args_word_def stack_word_def msip_word_def boot_word_def)

text \<open>The accesses that start one core, in order.\<close>

definition start_events :: "target \<Rightarrow> nat \<Rightarrow> u32 \<Rightarrow> u32 \<Rightarrow> u32 \<Rightarrow> u32 \<Rightarrow> event list" where
  "start_events t h f a sp tr =
     [Store32 (fn_word t h) f, Store32 (args_word t h) a, Store32 (stack_word t h) sp,
      Store32 boot_word tr, Fence, Store32 (msip_word h) 1]"

lemma offload_step_trace:
  "trace (offload_step t env f tr args sps (of_nat hb) i s) =
    trace s @ start_events t (hb + i) (ucast f) (ucast args) (ucast (sps ! i)) (ucast tr)"
  by (simp add: offload_step_eq start_events_def)

text \<open>Harts \<open>hb\<close> to \<open>hb + n - 1\<close> are cluster cores and nobody else changes their words.\<close>

definition launch_held :: "target \<Rightarrow> env \<Rightarrow> nat \<Rightarrow> nat \<Rightarrow> bool" where
  "launch_held t env hb n \<longleftrightarrow> env_holds env (launch_words t [hb..<hb + n])
     \<and> 1 \<le> hb \<and> hb + n \<le> NUM_CLUSTER_CORES t + 1"

lemma launch_held_range:
  assumes "launch_held t env hb n" and "i < n"
  shows "1 \<le> hb + i" and "hb + i \<le> NUM_CLUSTER_CORES t"
  using assms by (auto simp: launch_held_def)

lemma launch_held_keep:
  assumes "launch_held t env hb n" and "i < n" and "a \<in> {fn_word t (hb + i), args_word t (hb + i), stack_word t (hb + i)}"
  shows "sep32 a b \<Longrightarrow> peek32 (wr32 env b v s) a = peek32 s a" and "peek32 (fence env s) a = peek32 s a"
proof -
  have h: "env_holds env (launch_words t [hb..<hb + n])"
    using assms(1) by (simp add: launch_held_def)
  have a: "a \<in> launch_words t [hb..<hb + n]"
    using assms(2,3) by (auto simp: launch_words_def)
  show "sep32 a b \<Longrightarrow> peek32 (wr32 env b v s) a = peek32 s a" and "peek32 (fence env s) a = peek32 s a"
    by (rule peek32_wr32_sep [OF h a] fence_held [OF h a]; assumption?)+
qed

lemma offload_step_boot:
  assumes L: "launch_held t env hb n" and "i < n"
  shows "peek32 (offload_step t env f tr args sps (of_nat hb) i s) boot_word = ucast tr"
proof -
  have b: "boot_word \<in> launch_words t [hb..<hb + n]" by (simp add: launch_words_def)
  have held: "env_holds env (launch_words t [hb..<hb + n])"
    using L by (simp add: launch_held_def)
  have "sep32 boot_word (msip_word (hb + i))"
    using boot_word_sep [OF launch_held_range [OF assms], of "msip_word (hb + i)"]
    by (auto simp: core_words_def intro: sep32_sym)
  then show ?thesis
    by (simp add: offload_step_eq peek32_wr32_sep [OF held b] fence_held [OF held b] peek32_wr32_same)
qed

lemma offload_step_self:
  assumes L: "launch_held t env hb n" and "i < n"
  shows "core_ready t (hb + i) (ucast f) (ucast args) (ucast (sps ! i))
    (offload_step t env f tr args sps (of_nat hb) i s)"
proof -
  note range = launch_held_range [OF assms]
  note seps = core_words_own_sep [OF range, unfolded core_words_def]
  note boot = boot_word_sep [OF range]
  show ?thesis
    using seps boot unfolding core_ready_def offload_step_eq
    by (simp add: launch_held_keep [OF assms] core_words_def peek32_wr32_same sep32_sym)
qed

lemma offload_step_other:
  assumes L: "launch_held t env hb n" and "i < n" and "j < n" and "i \<noteq> j"
    and ready: "core_ready t (hb + j) f' a' sp' s"
  shows "core_ready t (hb + j) f' a' sp' (offload_step t env f tr args sps (of_nat hb) i s)"
proof -
  note i = launch_held_range [OF L assms(2)] and j = launch_held_range [OF L assms(3)]
  note keep = launch_held_keep [OF L assms(3)]
  have "sep32 a b" if "a \<in> {fn_word t (hb + j), args_word t (hb + j), stack_word t (hb + j)}"
    "b \<in> insert boot_word (set (core_words t (hb + i)))" for a b
    using that boot_word_sep [OF j, of a] core_words_sep [OF j i, of a b] assms(4)
    by (auto simp: core_words_def)
  then show ?thesis
    using ready unfolding core_ready_def offload_step_eq by (simp add: keep core_words_def)
qed

lemma offload_fold_ready:
  assumes L: "launch_held t env hb n" and "m \<le> n" and "i < m"
  shows "core_ready t (hb + i) (ucast f) (ucast args) (ucast (sps ! i))
    (fold (offload_step t env f tr args sps (of_nat hb)) [0..<m] s)"
  using assms(2,3)
proof (induction m)
  case 0
  then show ?case by simp
next
  case (Suc m)
  show ?case
  proof (cases "i = m")
    case True
    with Suc.prems show ?thesis using offload_step_self [OF L, of m] by simp
  next
    case False
    with Suc show ?thesis using offload_step_other [OF L, of m i] by simp
  qed
qed

lemma offload_fold_boot:
  "launch_held t env hb n \<Longrightarrow> 0 < m \<Longrightarrow> m \<le> n \<Longrightarrow> peek32 (fold (offload_step t env f tr args sps (of_nat hb)) [0..<m] s) boot_word = ucast tr"
  by (cases m) (simp_all add: offload_step_boot)

lemma offload_fold_trace:
  "trace (fold (offload_step t env f tr args sps (of_nat hb)) [0..<m] s) = trace s @
    concat (map (\<lambda>i. start_events t (hb + i) (ucast f) (ucast args) (ucast (sps ! i)) (ucast tr)) [0..<m])"
  by (induction m) (simp_all add: offload_step_trace)

lemma reads32_trace_eq:
  "trace (reads32 env a k s) = trace s @ map (\<lambda>i. Load32 a (reg_at env s a i)) [0..<k]"
proof (induction k)
  case (Suc k)
  have "reg_at env s a k = fst (rd32 env a (reads32 env a k s))"
    by (rule reg_at_reads32 [of env a k s, symmetric, unfolded reg_at_0])
  with Suc show ?case by (simp add: reads32_Suc del: reads32.simps)
qed simp

definition cluster_hart :: "target \<Rightarrow> u8 \<Rightarrow> nat" where
  "cluster_hart t c = chimera_hartBase t ! unat c"

definition cluster_size :: "target \<Rightarrow> u8 \<Rightarrow> nat" where
  "cluster_size t c = chimera_numCores t ! unat c"

lemma cluster_geometry:
  assumes "unat c < 5"
  shows "get_hart_id t c core = Some (of_nat (cluster_hart t c) + core)"
    and "cluster_cores t c = Some (cluster_size t c)" and "0 < cluster_size t c"
    and "1 \<le> cluster_hart t c" and "cluster_hart t c + cluster_size t c \<le> NUM_CLUSTER_CORES t + 1"
  using assms by (cases t; auto simp: small_id_cases cluster_hart_def cluster_size_def get_hart_id_def
      cluster_cores_def chimera_numCores_def chimera_hartBase_values num_cluster_cores)+

lemma cluster_geometry_none:
  assumes "\<not> unat c < 5"
  shows "get_hart_id t c core = None" and "cluster_cores t c = None"
  using assms by (cases t; auto simp: get_hart_id_def cluster_cores_def chimera_numCores_def chimera_hartBase_values)+

lemma offload_eq:
  assumes "unat c < 5" and "cluster_size t c \<le> length sps" and "busy_reg c = Some a"
  shows "offload_snitchCluster t env f tr args sps c s =
    (case poll32 env a (\<lambda>v. v \<noteq> 1) s of None \<Rightarrow> None
     | Some (_, s1) \<Rightarrow> Some (Ret (), nops env 10 (fold (offload_step t env f tr args sps (of_nat (cluster_hart t c)))
         [0..<cluster_size t c] (nops env 5000 s1))))"
  using assms(2) unfolding offload_snitchCluster_def wait_busy_eq [OF assms(3)]
  by (auto simp: cluster_geometry [OF assms(1)] split: option.splits)

lemma nops_held: "env_holds env R \<Longrightarrow> a \<in> R \<Longrightarrow> peek32 (nops env n s) a = peek32 s a"
  by (simp add: peek32_def env_holdsD)

definition cluster_busy_word :: "u8 \<Rightarrow> addr" where
  "cluster_busy_word c = SOC_CTRL_BASE + CHIMERA_CLUSTER_0_BUSY_REG_OFFSET + 4 * ucast c"

lemma launch_words_in:
  assumes "i < n"
  shows "fn_word t (hb + i) \<in> launch_words t [hb..<hb + n]" "args_word t (hb + i) \<in> launch_words t [hb..<hb + n]"
    "stack_word t (hb + i) \<in> launch_words t [hb..<hb + n]"
  using assms by (auto simp: launch_words_def)

subsection \<open>Properties: offload\<close>

lemma offload_words:
  assumes "unat c < 5"
    and "env_holds env (launch_words t [cluster_hart t c..<cluster_hart t c + cluster_size t c])"
    and "cluster_size t c \<le> length sps"
    and "offload_snitchCluster t env f tr args sps c s = Some (r, s')"
  shows "r = Ret () \<and> peek32 s' boot_word = ucast tr \<and>
    (\<forall>i<cluster_size t c. core_ready t (cluster_hart t c + i) (ucast f) (ucast args) (ucast (sps ! i)) s')"
proof -
  have L: "launch_held t env (cluster_hart t c) (cluster_size t c)"
    using assms(2) cluster_geometry [OF assms(1)] by (simp add: launch_held_def)
  have a: "busy_reg c = Some (cluster_busy_word c)"
    using assms(1) by (simp add: busy_reg_cases cluster_busy_word_def)
  from assms(4) obtain s1 where r: "r = Ret ()" and s': "s' = nops env 10
      (fold (offload_step t env f tr args sps (of_nat (cluster_hart t c))) [0..<cluster_size t c] s1)"
    unfolding offload_eq [OF assms(1,3) a] by (auto split: option.splits)
  have keep: "peek32 (nops env 10 x) b = peek32 x b"
    if "b \<in> launch_words t [cluster_hart t c..<cluster_hart t c + cluster_size t c]" for b x
    by (rule nops_held [OF assms(2) that])
  have "peek32 s' boot_word = ucast tr"
    unfolding s' using offload_fold_boot [OF L cluster_geometry(3) [OF assms(1)] order_refl]
    by (simp add: keep launch_words_def)
  moreover have "core_ready t (cluster_hart t c + i) (ucast f) (ucast args) (ucast (sps ! i)) s'"
    if "i < cluster_size t c" for i
    using offload_fold_ready [OF L order_refl that, of f args sps tr s1]
    unfolding core_ready_def s' by (simp add: keep launch_words_in [OF that])
  ultimately show ?thesis using r by blast
qed

text \<open>When an offload returns, the boot address and, for every core of the cluster, the
  function, argument and stack words of the shared region hold what the caller passed, each
  truncated to 32 bits; nothing else may have changed those words.\<close>

theorem offload_starts_every_core:
  assumes "unat c < 5"
    and "env_holds env (launch_words t [cluster_hart t c..<cluster_hart t c + cluster_size t c])"
    and "cluster_size t c \<le> length sps"
    and "offload_snitchCluster t env f tr args sps c s = Some (r, s')"
  shows "r = Ret () \<and> peek32 s' boot_word = ucast tr \<and>
    (\<forall>i<cluster_size t c. core_ready t (cluster_hart t c + i) (ucast f) (ucast args) (ucast (sps ! i)) s')"
  by (rule offload_words [OF assms])

text \<open>C10: whatever the hardware does meanwhile, an offload polls the busy register until it is
  not 1, waits, and then for each core in turn stores function, argument, stack pointer and
  boot address, fences, and only then raises that core's software interrupt.\<close>

theorem offload_event_order:
  assumes "unat c < 5" and "cluster_size t c \<le> length sps"
    and "offload_snitchCluster t env f tr args sps c s = Some (r, s')"
  shows "\<exists>k. (\<forall>i<k. reg_at env s (cluster_busy_word c) i = 1) \<and> reg_at env s (cluster_busy_word c) k \<noteq> 1 \<and>
    trace s' = trace s @ map (\<lambda>i. Load32 (cluster_busy_word c) (reg_at env s (cluster_busy_word c) i)) [0..<Suc k]
      @ [Nops 5000]
      @ concat (map (\<lambda>i. start_events t (cluster_hart t c + i) (ucast f) (ucast args) (ucast (sps ! i)) (ucast tr))
          [0..<cluster_size t c]) @ [Nops 10]"
proof -
  have a: "busy_reg c = Some (cluster_busy_word c)"
    using assms(1) by (simp add: busy_reg_cases cluster_busy_word_def)
  from assms(3) obtain v s1 where p: "poll32 env (cluster_busy_word c) (\<lambda>v. v \<noteq> 1) s = Some (v, s1)"
    and s': "s' = nops env 10 (fold (offload_step t env f tr args sps (of_nat (cluster_hart t c)))
      [0..<cluster_size t c] (nops env 5000 s1))"
    unfolding offload_eq [OF assms(1,2) a] by (auto split: option.splits)
  from p obtain k where "\<forall>i<k. reg_at env s (cluster_busy_word c) i = 1"
    and "reg_at env s (cluster_busy_word c) k \<noteq> 1"
    and "s1 = reads32 env (cluster_busy_word c) (Suc k) s"
    unfolding poll32_Some_iff by auto
  then show ?thesis
    unfolding s' by (intro exI [of _ k]) (simp add: offload_fold_trace reads32_trace_eq del: reads32.simps upt_Suc)
qed

text \<open>An offload to an existing cluster returns exactly when the busy register is ever
  read as something other than 1.\<close>

theorem offload_returns_iff_idle:
  assumes "unat c < 5" and "cluster_size t c \<le> length sps"
  shows "(\<exists>s'. offload_snitchCluster t env f tr args sps c s = Some (Ret (), s')) \<longleftrightarrow>
    (\<exists>k. reg_at env s (cluster_busy_word c) k \<noteq> 1)"
proof -
  have a: "busy_reg c = Some (cluster_busy_word c)"
    using assms(1) by (simp add: busy_reg_cases cluster_busy_word_def)
  show ?thesis
    using poll32_None_iff [of env "cluster_busy_word c" "\<lambda>v. v \<noteq> 1" s]
    unfolding offload_eq [OF assms a] by (auto split: option.splits)
qed

text \<open>No cluster outside the chip is ever started: its indices are out of the geometry
  arrays, its busy status is the error code -1, its clock and reset requests are ignored, and
  waiting for its return value reads through a pointer that was never assigned.\<close>

theorem invalid_cluster_rejected:
  assumes "\<not> unat c < 5"
  shows "offload_snitchCluster t env f tr args sps c s = Some (Fault OutOfBounds, s) \<and>
    snitchCluster_busy env c s = (- 1, s) \<and>
    set_snitchCluster_clockGating env c e s = s \<and> set_snitchCluster_reset env c e s = s \<and>
    wait_snitchCluster_return env c s = Some (Fault UninitialisedPointer, s)"
proof -
  have "c \<notin> {0, 1, 2, 3, 4}" using assms small_id_cases by blast
  then have "clk_gate_reg c = None" "reset_reg c = None"
    by (simp_all add: clk_gate_reg_def reset_reg_def)
  with assms show ?thesis
    by (simp add: offload_snitchCluster_def cluster_geometry_none snitchCluster_busy_def busy_reg_cases
        set_snitchCluster_clockGating_def set_snitchCluster_reset_def wait_snitchCluster_return_def return_reg_cases)
qed

theorem invalid_cluster_rejected_witness:
  "offload_snitchCluster ChimeraOpen quiet_env (0 :: u64) 0 0 [] 5 boot = Some (Fault OutOfBounds, boot) \<and>
   snitchCluster_busy quiet_env 5 boot = (- 1, boot) \<and>
   set_snitchCluster_clockGating quiet_env 5 True boot = boot \<and> set_snitchCluster_reset quiet_env 5 True boot = boot \<and>
   wait_snitchCluster_return quiet_env 5 boot = Some (Fault UninitialisedPointer, boot)"
  by (rule invalid_cluster_rejected) simp

subsection \<open>Properties: the return register\<close>

definition cluster_return_word :: "u8 \<Rightarrow> addr" where
  "cluster_return_word c = SOC_CTRL_BASE + CHIMERA_SNITCH_CLUSTER_0_RETURN_REG_OFFSET + 4 * ucast c"

lemma rd32_reads32:
  "rd32 env a (reads32 env a k s) = (reg_at env s a k, reads32 env a (Suc k) s)"
  by (rule prod_eqI) (simp_all only: reads32_Suc reg_at_reads32 fst_conv snd_conv flip: reg_at_0)

text \<open>Waiting for a return value diverges exactly when the register is always read as zero;
  otherwise the value returned is the read that follows the first non-zero one, so that a device
  that keeps its result until it is cleared is returned that result, and the register is then
  written with zero.\<close>

theorem wait_return_value:
  assumes "unat c < 5"
  shows "(wait_snitchCluster_return env c s = None \<longleftrightarrow> (\<forall>k. reg_at env s (cluster_return_word c) k = 0)) \<and>
    (\<forall>k. (\<forall>i<k. reg_at env s (cluster_return_word c) i = 0) \<and> reg_at env s (cluster_return_word c) k \<noteq> 0 \<longrightarrow>
      (\<exists>s'. wait_snitchCluster_return env c s = Some (Ret (reg_at env s (cluster_return_word c) (Suc k)), s')
        \<and> peek32 s' (cluster_return_word c) = 0
        \<and> trace s' = trace s @ map (\<lambda>i. Load32 (cluster_return_word c) (reg_at env s (cluster_return_word c) i))
            [0..<Suc (Suc k)] @ [Store32 (cluster_return_word c) 0]))" (is "?A \<and> ?B")
proof
  let ?a = "cluster_return_word c"
  have r: "return_reg c = Some ?a"
    using assms by (simp add: return_reg_cases cluster_return_word_def)
  show ?A
    using poll32_None_iff [of env ?a "\<lambda>v. v \<noteq> 0" s]
    by (auto simp: wait_snitchCluster_return_def r split_beta split: option.splits)
  show ?B
  proof (intro allI impI)
    fix k
    assume k: "(\<forall>i<k. reg_at env s ?a i = 0) \<and> reg_at env s ?a k \<noteq> 0"
    then have "poll32 env ?a (\<lambda>v. v \<noteq> 0) s = Some (reg_at env s ?a k, reads32 env ?a (Suc k) s)"
      unfolding poll32_Some_iff by auto
    then have "wait_snitchCluster_return env c s =
        Some (Ret (reg_at env s ?a (Suc k)), wr32 env ?a 0 (reads32 env ?a (Suc (Suc k)) s))"
      by (simp add: wait_snitchCluster_return_def r rd32_reads32 del: reads32.simps)
    then show "\<exists>s'. wait_snitchCluster_return env c s = Some (Ret (reg_at env s ?a (Suc k)), s')
        \<and> peek32 s' ?a = 0
        \<and> trace s' = trace s @ map (\<lambda>i. Load32 ?a (reg_at env s ?a i)) [0..<Suc (Suc k)] @ [Store32 ?a 0]"
      by (intro exI [of _ "wr32 env ?a 0 (reads32 env ?a (Suc (Suc k)) s)"])
        (simp add: peek32_wr32_same reads32_trace_eq del: reads32.simps upt_Suc)
  qed
qed

subsection \<open>Properties: stack pointers\<close>

text \<open>Stacks of the given sizes below \<open>hi\<close>: 16-byte aligned, in descending order, disjoint, all
  above \<open>final\<close>, with at most 15 bytes lost for each.\<close>

definition stack_layout :: "nat \<Rightarrow> u32 list \<Rightarrow> 'w::len word list \<Rightarrow> 'w word \<Rightarrow> bool" where
  "stack_layout hi ns sps final \<longleftrightarrow> length sps = length ns \<and> unat final \<le> hi
     \<and> hi \<le> unat final + sum_list (map unat ns) + 15 * length ns
     \<and> (\<forall>i<length ns. 16 dvd unat (sps ! i) \<and> unat (sps ! i) \<le> hi
          \<and> unat final + unat (ns ! i) \<le> unat (sps ! i))
     \<and> (\<forall>i j. i < j \<and> j < length ns \<longrightarrow> unat (sps ! j) + unat (ns ! i) \<le> unat (sps ! i))"

lemma stack_layout_Cons:
  assumes "stack_layout (sp' - unat n) ns sps final" and "16 dvd sp'" and "sp' \<le> hi" and "hi < sp' + 16"
    and "unat n \<le> sp'" and "unat w = sp'"
  shows "stack_layout hi (n # ns) (w # sps) final"
  using assms unfolding stack_layout_def by (fastforce simp: less_Suc_eq_0_disj)

lemma stack_pointers_layout:
  fixes sp :: "'w::len word"
  assumes "32 \<le> LENGTH('w)"
  shows "sum_list (map unat ns) + 15 * length ns \<le> unat sp \<Longrightarrow> stack_pointers sp ns = (sps, final)
    \<Longrightarrow> stack_layout (unat sp) ns sps final"
proof (induction ns arbitrary: sp sps)
  case Nil
  then show ?case by (simp add: stack_layout_def)
next
  case (Cons n ns)
  define sp' where "sp' = sp AND NOT 0xF"
  have mask: "(0xF :: 'w word) = mask 4" by (simp add: mask_numeral)
  have al: "16 dvd unat sp'" and le: "unat sp' \<le> unat sp" and gt: "unat sp < unat sp' + 16"
    using and_not_mask_dvd [of 4 sp] and_not_mask_le [of sp 4] and_not_mask_gt [of sp 4]
    by (simp_all add: sp'_def mask word_le_nat_alt)
  have n: "unat (ucast n :: 'w word) = unat n" by (rule unat_ucast_up) (use assms(1) in simp)
  obtain rest where sps: "sps = sp' # rest" "stack_pointers (sp' - ucast n) ns = (rest, final)"
    using Cons.prems(2) by (auto simp: Let_def split_beta sp'_def prod_eq_iff)
  have le': "unat n \<le> unat sp'" using Cons.prems(1) gt by simp
  then have sub: "unat (sp' - ucast n) = unat sp' - unat n"
    by (subst unat_sub_le) (simp_all add: word_le_nat_alt n)
  have "sum_list (map unat ns) + 15 * length ns \<le> unat (sp' - ucast n)"
    using Cons.prems(1) gt sub by simp
  from Cons.IH [OF this sps(2)] show ?case
    unfolding sps(1) sub by (rule stack_layout_Cons) (use al le gt le' in simp_all)
qed

text \<open>Given enough memory, the generated stacks are 16-byte aligned, as large as asked for,
  disjoint and in descending order, and all lie between the returned end and the given top;
  alignment costs at most 15 bytes a core.\<close>

theorem generated_stacks_disjoint:
  fixes sp :: "'w::len word"
  assumes "32 \<le> LENGTH('w)" and "unat c < 5" and "cluster_size t c \<le> length sizes"
    and "sum_list (map unat (take (cluster_size t c) sizes)) + 15 * cluster_size t c \<le> unat sp"
  shows "\<exists>sps final. generate_snitchCluster_SPs t c sp sizes = Ret (sps, final)
    \<and> stack_layout (unat sp) (take (cluster_size t c) sizes) sps final"
proof -
  obtain sps final where sps: "stack_pointers sp (take (cluster_size t c) sizes) = (sps, final)"
    by (cases "stack_pointers sp (take (cluster_size t c) sizes)")
  have "generate_snitchCluster_SPs t c sp sizes = Ret (sps, final)"
    using assms(3) by (simp add: generate_snitchCluster_SPs_def cluster_geometry [OF assms(2)] sps)
  then show ?thesis
    using stack_pointers_layout [OF assms(1) _ sps] assms(3,4) by (simp add: min_absorb2)
qed

lemma generate_uniform_eq:
  "unat c < 5 \<Longrightarrow> generate_snitchCluster_SPs_uniform t c sp n =
    generate_snitchCluster_SPs t c sp (replicate (cluster_size t c) n)"
  by (simp add: generate_snitchCluster_SPs_uniform_def generate_snitchCluster_SPs_def cluster_geometry)

subsection \<open>Properties: clock gating and reset\<close>

definition clk_gate_word :: "u8 \<Rightarrow> addr" where
  "clk_gate_word c = SOC_CTRL_BASE + CHIMERA_CLUSTER_0_CLK_GATE_EN_REG_OFFSET + 4 * ucast c"

definition reset_word :: "u8 \<Rightarrow> addr" where
  "reset_word c = SOC_CTRL_BASE + CHIMERA_RESET_CLUSTER_0_REG_OFFSET + 4 * ucast c"

definition power_words :: "addr set" where
  "power_words = clk_gate_word ` {0, 1, 2, 3, 4} \<union> reset_word ` {0, 1, 2, 3, 4}"

lemma power_regs:
  assumes "unat c < 5"
  shows "clk_gate_reg c = Some (clk_gate_word c)" and "reset_reg c = Some (reset_word c)"
  using assms by (auto simp: small_id_cases clk_gate_reg_def clk_gate_word_def reset_reg_def reset_word_def reg_offsets)

lemma power_words_in: "unat c < 5 \<Longrightarrow> clk_gate_word c \<in> power_words \<and> reset_word c \<in> power_words"
  by (auto simp: power_words_def small_id_cases)

lemma power_words_sep:
  assumes "unat c < 5" and "unat c' < 5"
  shows "c' \<noteq> c \<Longrightarrow> sep32 (clk_gate_word c') (clk_gate_word c)" "c' \<noteq> c \<Longrightarrow> sep32 (reset_word c') (reset_word c)"
    and "sep32 (clk_gate_word c') (reset_word c)" "sep32 (reset_word c') (clk_gate_word c)"
  using assms by (auto simp: small_id_cases clk_gate_word_def reset_word_def reg_offsets sep32_def)

lemma load32_store8_sep:
  assumes "sep32 a b"
  shows "load32 (store8 m b v) a = load32 m a"
  using sep32_bytes [OF assms, of 0 0] sep32_bytes [OF assms, of 1 0]
    sep32_bytes [OF assms, of 2 0] sep32_bytes [OF assms, of 3 0]
  by (simp add: load32_def store8_def)

lemma peek32_wr8_sep:
  assumes "env_holds env R" and "a \<in> R" and "sep32 a b"
  shows "peek32 (wr8 env b v s) a = peek32 s a"
  using assms by (simp add: peek32_def Let_def load32_store8_sep env_holdsD)

lemma wr8_same: "mem (hw (wr8 env a v s)) a = v"
  by (simp add: Let_def store8_def)

text \<open>A clock-gate or reset request for a cluster sets the low byte of that cluster's register
  and leaves the registers of the other clusters, and the other kind of register of every
  cluster, as they were; the requests for all clusters are the five requests in a row.\<close>

theorem power_control_selects_cluster:
  assumes "unat c < 5" and "unat c' < 5" and "env_holds env power_words"
  shows "mem (hw (set_snitchCluster_clockGating env c e s)) (clk_gate_word c) = of_bool e \<and>
    mem (hw (set_snitchCluster_reset env c e s)) (reset_word c) = of_bool e \<and>
    (c' \<noteq> c \<longrightarrow> peek32 (set_snitchCluster_clockGating env c e s) (clk_gate_word c') = peek32 s (clk_gate_word c')
      \<and> peek32 (set_snitchCluster_reset env c e s) (reset_word c') = peek32 s (reset_word c')) \<and>
    peek32 (set_snitchCluster_clockGating env c e s) (reset_word c') = peek32 s (reset_word c') \<and>
    peek32 (set_snitchCluster_reset env c e s) (clk_gate_word c') = peek32 s (clk_gate_word c') \<and>
    setAll_snitchCluster_clockGating env e s = fold (\<lambda>i. set_snitchCluster_clockGating env i e) [0, 1, 2, 3, 4] s \<and>
    setAll_snitchCluster_reset env e s = fold (\<lambda>i. set_snitchCluster_reset env i e) [0, 1, 2, 3, 4] s"
  using assms(3) power_words_in [OF assms(2)] power_words_sep [OF assms(1,2)] power_regs [OF assms(1)]
  by (simp add: set_snitchCluster_clockGating_def set_snitchCluster_reset_def peek32_wr8_sep wr8_same
      setAll_snitchCluster_clockGating_def setAll_snitchCluster_reset_def clk_gate_reg_def reset_reg_def Let_def
      del: wr8_sel)

theorem power_control_selects_cluster_witness:
  "mem (hw (set_snitchCluster_clockGating quiet_env 2 True boot)) (clk_gate_word 2) = 1 \<and>
   peek32 (set_snitchCluster_clockGating quiet_env 2 True boot) (clk_gate_word 3) = 0"
  using power_control_selects_cluster [of 2 3 quiet_env True boot]
  by (simp add: peek32_def boot_def load32_def)

subsection \<open>Properties: pointer-sized register writes\<close>

lemma peek32_wr64:
  "peek32 (wr64 env a v s) a = ucast v \<and> peek32 (wr64 env a v s) (a + 4) = ucast (drop_bit 32 v)"
  by (simp add: peek32_def Let_def store64_def load32_store32_same load32_store32_sep sep32_def)

text \<open>The trap handler address is stored through a pointer to a pointer. On a 64-bit host
  the store is eight bytes wide: it also overwrites the register that follows, cluster 0's
  return register, with the upper half of the handler's address.\<close>

theorem handler_store_hits_return_register:
  fixes handler :: u64
  shows "peek32 (setup_snitchCluster_interruptHandler env handler s)
      (SOC_CTRL_BASE + CHIMERA_SNITCH_INTR_HANDLER_ADDR_REG_OFFSET) = ucast handler \<and>
    peek32 (setup_snitchCluster_interruptHandler env handler s)
      (SOC_CTRL_BASE + CHIMERA_SNITCH_CLUSTER_0_RETURN_REG_OFFSET) = ucast (drop_bit 32 handler)"
  using peek32_wr64 [of env "SOC_CTRL_BASE + CHIMERA_SNITCH_INTR_HANDLER_ADDR_REG_OFFSET" handler s]
  by (simp add: setup_snitchCluster_interruptHandler_def wr_ptr_def reg_offsets)

text \<open>The single-core offload writes the core's trampoline words and the boot address before it
  waits for the cluster to be idle, and raises the software interrupt of that core alone after it.\<close>

theorem offload_core_events:
  fixes f :: "32 word"
  assumes "unat c < 5" and "offload_snitchCluster_core t env f tr args sp c core s = Some (r, s')"
  shows "r = Ret () \<and> (\<exists>ls. ls \<noteq> [] \<and> (\<forall>e\<in>set ls. \<exists>v. e = Load32 (cluster_busy_word c) v) \<and>
    trace s' = trace s @
      [Store32 (shared_elem (off_trampoline_function t) (of_nat (cluster_hart t c) + core - of_nat CLUSTER_HART_BASE)) f,
       Store32 (shared_elem (off_trampoline_args t) (of_nat (cluster_hart t c) + core - of_nat CLUSTER_HART_BASE)) args,
       Store32 (shared_elem (off_trampoline_stack t) (of_nat (cluster_hart t c) + core - of_nat CLUSTER_HART_BASE)) sp,
       Store32 boot_word tr] @ ls @ [Nops 5000, Store32 (CLINT_CTRL_BASE + 4 * (of_nat (cluster_hart t c) + core)) 1])"
proof -
  let ?h = "of_nat (cluster_hart t c) + core"
  let ?s = "wr_ptr env boot_word tr (setup_trampoline t env ?h f args sp s)"
  have a: "busy_reg c = Some (cluster_busy_word c)"
    using assms(1) by (simp add: busy_reg_cases cluster_busy_word_def)
  from assms(2) obtain v s1 where p: "poll32 env (cluster_busy_word c) (\<lambda>v. v \<noteq> 1) ?s = Some (v, s1)"
    and r: "r = Ret ()" and s': "s' = send_interrupt env ?h (nops env 5000 s1)"
    unfolding offload_snitchCluster_core_def wait_busy_eq [OF a]
    by (auto simp: cluster_geometry [OF assms(1)] boot_word_def Let_def split: option.splits)
  from p obtain k where s1: "s1 = reads32 env (cluster_busy_word c) (Suc k) ?s"
    unfolding poll32_Some_iff by auto
  have "trace ?s = trace s @
      [Store32 (shared_elem (off_trampoline_function t) (?h - of_nat CLUSTER_HART_BASE)) f,
       Store32 (shared_elem (off_trampoline_args t) (?h - of_nat CLUSTER_HART_BASE)) args,
       Store32 (shared_elem (off_trampoline_stack t) (?h - of_nat CLUSTER_HART_BASE)) sp, Store32 boot_word tr]"
    by (simp add: wr_ptr_def setup_trampoline_def Let_def)
  then show ?thesis
    unfolding s' s1 r send_interrupt_def
    by (intro conjI exI [of _ "map (\<lambda>i. Load32 (cluster_busy_word c) (reg_at env ?s (cluster_busy_word c) i)) [0..<Suc k]"])
      (auto simp: reads32_trace_eq simp del: reads32.simps upt_Suc)
qed

subsection \<open>Witnesses\<close>

lemma idle_at_boot: "poll32 quiet_env (cluster_busy_word c) (\<lambda>v. v \<noteq> 1) boot \<noteq> None"
  using poll32_held [OF env_holds_quiet, of "cluster_busy_word c" UNIV "\<lambda>v. v \<noteq> 1" boot]
  by (simp add: peek32_def boot_def load32_def)

lemma offload_at_boot:
  "\<exists>s'. offload_snitchCluster ChimeraConvolve quiet_env (0x1C0010 :: u32) 0x1C0000 7 [0x40001000, 0x40000800] 0 boot
    = Some (Ret (), s')"
  using idle_at_boot [of 0] busy_reg_cases [of 0]
  by (subst offload_eq) (auto simp: cluster_size_def chimera_numCores_def cluster_busy_word_def)

theorem offload_starts_every_core_witness:
  "\<exists>s'. offload_snitchCluster ChimeraConvolve quiet_env (0x1C0010 :: u32) 0x1C0000 7 [0x40001000, 0x40000800] 0 boot
      = Some (Ret (), s') \<and> peek32 s' boot_word = 0x1C0000
    \<and> core_ready ChimeraConvolve 1 0x1C0010 7 0x40001000 s' \<and> core_ready ChimeraConvolve 2 0x1C0010 7 0x40000800 s'"
proof -
  obtain s' where s': "offload_snitchCluster ChimeraConvolve quiet_env (0x1C0010 :: u32) 0x1C0000 7
      [0x40001000, 0x40000800] 0 boot = Some (Ret (), s')"
    using offload_at_boot by blast
  have "Ret () = Ret () \<and> peek32 s' boot_word = ucast (0x1C0000 :: u32) \<and>
    (\<forall>i<cluster_size ChimeraConvolve 0. core_ready ChimeraConvolve (cluster_hart ChimeraConvolve 0 + i)
      (ucast (0x1C0010 :: u32)) (ucast (7 :: u32)) (ucast ([0x40001000, 0x40000800 :: u32] ! i)) s')"
    by (rule offload_starts_every_core [OF _ _ _ s']) (simp_all add: cluster_size_def chimera_numCores_def)
  then show ?thesis
    using s' by (auto simp: cluster_size_def chimera_numCores_def cluster_hart_def chimera_hartBase_values
        numeral_2_eq_2 less_Suc_eq all_conj_distrib)
qed

theorem offload_event_order_witness:
  "\<exists>k s'. offload_snitchCluster ChimeraConvolve quiet_env (0x1C0010 :: u32) 0x1C0000 7 [0x40001000, 0x40000800] 0 boot
      = Some (Ret (), s') \<and>
    trace s' = map (\<lambda>i. Load32 (cluster_busy_word 0) (reg_at quiet_env boot (cluster_busy_word 0) i)) [0..<Suc k]
    @ [Nops 5000] @ start_events ChimeraConvolve 1 0x1C0010 7 0x40001000 0x1C0000
    @ start_events ChimeraConvolve 2 0x1C0010 7 0x40000800 0x1C0000 @ [Nops 10]"
proof -
  obtain s' where s': "offload_snitchCluster ChimeraConvolve quiet_env (0x1C0010 :: u32) 0x1C0000 7
      [0x40001000, 0x40000800] 0 boot = Some (Ret (), s')"
    using offload_at_boot by blast
  have two: "concat (map g [0..<2]) = g 0 @ g 1" for g :: "nat \<Rightarrow> event list"
    by (simp add: numeral_2_eq_2)
  obtain k where "trace s' = trace boot @ map (\<lambda>i. Load32 (cluster_busy_word 0) (reg_at quiet_env boot (cluster_busy_word 0) i)) [0..<Suc k]
    @ [Nops 5000] @ concat (map (\<lambda>i. start_events ChimeraConvolve (1 + i) 0x1C0010 7 ([0x40001000, 0x40000800] ! i) 0x1C0000) [0..<2])
    @ [Nops 10]"
    using offload_event_order [OF _ _ s']
    by (auto simp: cluster_size_def chimera_numCores_def cluster_hart_def chimera_hartBase_values simp del: upt_Suc)
  moreover have "trace boot = []" by (simp add: boot_def)
  ultimately show ?thesis
    unfolding two using s' by (intro exI [of _ k] exI [of _ s']) (simp add: numeral_2_eq_2)
qed

theorem offload_returns_iff_idle_witness:
  "\<exists>s'. offload_snitchCluster ChimeraConvolve quiet_env (0x1C0010 :: u32) 0x1C0000 7 [0x40001000, 0x40000800] 0 boot
    = Some (Ret (), s')"
  using offload_returns_iff_idle [of 0 ChimeraConvolve "[0x40001000, 0x40000800 :: u32]" quiet_env "0x1C0010" "0x1C0000" 7 boot]
    idle_at_boot [of 0] poll32_None_iff [of quiet_env "cluster_busy_word 0" "\<lambda>v. v \<noteq> 1" boot]
  by (simp add: cluster_size_def chimera_numCores_def)

definition result_env :: env where
  "result_env n h = (if n = 1 then h\<lparr>mem := store32 (mem h) (cluster_return_word 0) 42\<rparr> else h)"

theorem wait_return_value_witness:
  "\<exists>s'. wait_snitchCluster_return result_env 0 boot = Some (Ret 42, s') \<and> peek32 s' (cluster_return_word 0) = 0"
proof -
  have "reg_at result_env boot (cluster_return_word 0) 0 = 0"
    "reg_at result_env boot (cluster_return_word 0) 1 = 42" "reg_at result_env boot (cluster_return_word 0) (Suc 1) = 42"
    by (simp_all add: reg_at_def result_env_def boot_def load32_store32_same) (simp add: load32_def)
  with spec [OF conjunct2 [OF wait_return_value [of 0 result_env boot]], of 1] show ?thesis
    by auto
qed

theorem generated_stacks_disjoint_witness:
  "\<exists>sps final. generate_snitchCluster_SPs ChimeraConvolve 1 (0x40200FFC :: u64) [0x400, 0x401] = Ret (sps, final)
    \<and> stack_layout 0x40200FFC [0x400, 0x401] sps final"
  using generated_stacks_disjoint [of 1 ChimeraConvolve "[0x400, 0x401]" "0x40200FFC :: u64"]
  by (simp add: cluster_size_def chimera_numCores_def)

theorem offload_core_events_witness:
  "\<exists>ls s'. offload_snitchCluster_core ChimeraConvolve quiet_env (0x1C0010 :: u32) 0x1C0000 7 0x40001000 0 1 boot
      = Some (Ret (), s') \<and> ls \<noteq> [] \<and>
    trace s' = [Store32 0x4800003C 0x1C0010, Store32 0x48000080 7, Store32 0x480000C4 0x40001000,
      Store32 boot_word 0x1C0000] @ ls @ [Nops 5000, Store32 0x2040008 1]"
proof -
  let ?s = "wr_ptr quiet_env boot_word (0x1C0000 :: u32)
    (setup_trampoline ChimeraConvolve quiet_env 2 (0x1C0010 :: u32) 7 0x40001000 boot)"
  have "peek32 ?s (cluster_busy_word 0) = 0"
    by (simp add: wr_ptr_def setup_trampoline_def Let_def cluster_busy_word_def boot_word_def reg_offsets
        shared_elem_def shared_data_def off_function_values off_trampoline_args_def off_trampoline_stack_def
        CLUSTER_HART_BASE_def HOST_NUMCORES_def peek32_wr32_sep [OF env_holds_quiet UNIV_I] sep32_def num_cluster_cores
        del: wr32_sel)
      (simp add: peek32_def boot_def load32_def)
  then have "poll32 quiet_env (cluster_busy_word 0) (\<lambda>v. v \<noteq> 1) ?s \<noteq> None"
    using poll32_held [OF env_holds_quiet, of "cluster_busy_word 0" UNIV "\<lambda>v. v \<noteq> 1" ?s] by simp
  then have "\<exists>s'. offload_snitchCluster_core ChimeraConvolve quiet_env (0x1C0010 :: u32) 0x1C0000 7 0x40001000 0 1 boot
      = Some (Ret (), s')"
    using cluster_geometry(1) [of 0 ChimeraConvolve 1] busy_reg_cases [of 0]
    by (auto simp: offload_snitchCluster_core_def wait_busy_eq cluster_busy_word_def boot_word_def
        cluster_hart_def chimera_hartBase_values)
  then obtain s' where "offload_snitchCluster_core ChimeraConvolve quiet_env (0x1C0010 :: u32) 0x1C0000 7 0x40001000 0 1 boot
      = Some (Ret (), s')" by blast
  with offload_core_events [OF _ this] show ?thesis
    by (auto simp: shared_elem_def shared_data_def off_function_values off_trampoline_args_def off_trampoline_stack_def
        CLUSTER_HART_BASE_def HOST_NUMCORES_def num_cluster_cores cluster_hart_def chimera_hartBase_values boot_def
        CLINT_CTRL_BASE_def)
qed

end
