(* ===== verification/Device.thy ===== *)
theory Device
  imports Offload
begin

section \<open>The Snitch cluster side: trampoline, busy flag, start-up and exit\<close>

text \<open>
  The code a cluster core runs: the trampoline of
  \<open>targets/*/devices/snitch_cluster/src/trampoline.c\<close>, the busy-flag macros of its
  \<open>trampoline.h\<close> (the same in both targets), and \<open>snrt_init\<close> and \<open>snrt_exit\<close> of
  \<open>devices/snitch_cluster/runtime/init.c\<close>. Cores are RV32, so pointers are \<open>u32\<close>. Linker
  symbols, the hart's cluster index and the DMA engine of the Snitch SDK are parameters.
\<close>

subsection \<open>Busy flag\<close>

text \<open>The assembler fragment counts the thresholds that the hart id has reached: each is one
  \<open>sltu\<close>, one \<open>xori\<close> with 1 and one \<open>add\<close>.\<close>

definition sltu :: "u32 \<Rightarrow> u32 \<Rightarrow> u32" where
  "sltu a b = (if a < b then 1 else 0)"

definition cluster_id_asm :: "u32 list \<Rightarrow> u32 \<Rightarrow> u32" where
  "cluster_id_asm thresholds mhartid = fold (\<lambda>th t1. t1 + (sltu mhartid th XOR 1)) thresholds 0"

definition busy_thresholds :: "target \<Rightarrow> u32 list" where
  "busy_thresholds t = map (\<lambda>k. of_nat (HOST_NUMCORES + sum_list (take k (chimera_numCores t)))) [1, 2, 3, 4]"

definition SET_CLUSTER_BUSY :: "target \<Rightarrow> env \<Rightarrow> u32 \<Rightarrow> machine \<Rightarrow> machine" where
  "SET_CLUSTER_BUSY t env mhartid s =
     (let t1 = cluster_id_asm (busy_thresholds t) mhartid;
          t1 = push_bit 2 t1;
          t1 = SOC_CTRL_BASE + CHIMERA_CLUSTER_0_BUSY_REG_OFFSET + t1
      in wr32 env t1 1 s)"

definition CLEAR_CLUSTER_BUSY :: "target \<Rightarrow> env \<Rightarrow> u32 \<Rightarrow> machine \<Rightarrow> machine" where
  "CLEAR_CLUSTER_BUSY t env mhartid s =
     (let t1 = cluster_id_asm (busy_thresholds t) mhartid;
          t1 = push_bit 2 t1;
          t1 = SOC_CTRL_BASE + CHIMERA_CLUSTER_0_BUSY_REG_OFFSET + t1
      in wr32 env t1 0 s)"

subsection \<open>Trampoline\<close>

text \<open>What the trampoline needs of the link: the global pointer and the thread-local sections.\<close>

record link_syms =
  global_pointer :: u32
  tdata_start :: u32
  tdata_end :: u32
  tbss_start :: u32
  tbss_end :: u32

record core_regs =
  gp_reg :: u32
  sp_reg :: u32
  tp_reg :: u32
  a0_reg :: u32
  pc_reg :: u32

definition trampoline :: "target \<Rightarrow> env \<Rightarrow> link_syms \<Rightarrow> u32 \<Rightarrow> machine \<Rightarrow> core_regs \<times> machine" where
  "trampoline t env l mhartid s =
     (let gp = global_pointer l;
          t0 = push_bit 2 (mhartid - of_nat CLUSTER_HART_BASE);
          a0 = shared_data + of_nat (off_trampoline_stack t) + t0;
          (sp, s) = rd32 env a0 s;
          sp = sp - (tdata_end l - tdata_start l);
          sp = sp - (tbss_end l - tbss_start l);
          tp = sp;
          sp = sp AND (- 0xF);
          a1 = shared_data + of_nat (off_trampoline_function t) + t0;
          (a1, s) = rd32 env a1 s;
          a0 = shared_data + of_nat (off_trampoline_args t) + t0;
          (a0, s) = rd32 env a0 s
      in (\<lparr>gp_reg = gp, sp_reg = sp, tp_reg = tp, a0_reg = a0, pc_reg = a1\<rparr>, s))"

subsection \<open>Exit\<close>

definition snrt_exit :: "env \<Rightarrow> u32 \<Rightarrow> u32 \<Rightarrow> machine \<Rightarrow> machine" where
  "snrt_exit env snrt_cluster_idx exit_code s =
     wr32 env (reg32 SOC_CTRL_BASE (CHIMERA_SNITCH_CLUSTER_0_RETURN_REG_OFFSET + snrt_cluster_idx)) exit_code s"

subsection \<open>Start-up\<close>

text \<open>Memory is the byte memory of the bus; \<open>memcpy\<close> and \<open>memset\<close> are those of the C library,
  here without their return values.\<close>

fun memcpy :: "addr \<Rightarrow> addr \<Rightarrow> nat \<Rightarrow> memory \<Rightarrow> memory" where
  "memcpy dst src 0 m = m"
| "memcpy dst src (Suc n) m = memcpy (dst + 1) (src + 1) n (m(dst := m src))"

fun memset :: "addr \<Rightarrow> u8 \<Rightarrow> nat \<Rightarrow> memory \<Rightarrow> memory" where
  "memset dst b 0 m = m"
| "memset dst b (Suc n) m = memset (dst + 1) b n (m(dst := b))"

record snrt_allocator =
  a_base :: u32
  a_end :: u32
  a_next :: u32

text \<open>The linker's symbols that \<open>snrt_init\<close> uses, with the per-cluster arrays of \<open>symbols.c\<close>.\<close>

record init_syms = link_syms +
  base_l1_alias :: u32
  cbss_start :: u32
  cbss_end :: u32
  cdata_start :: u32
  cdata_end :: u32
  cdata_lma_start :: u32
  l3_heap_start :: u32
  l3_heap_end :: u32
  clusterHeapStart :: "u32 list"
  clusterL1Start :: "u32 list"
  clusterL1LmaStart :: "u32 list"
  clusterL1LmaEnd :: "u32 list"

text \<open>
  What comes from the Snitch SDK: starting a one-dimensional DMA transfer (destination, source,
  size) on a device state, waiting for all of them, the address of the zero memory, the end of
  L1, \<open>sizeof(cls_t)\<close>, \<open>MIN_CHUNK_SIZE\<close> and \<open>ALIGN_UP\<close>, and the L1 allocation made by
  \<open>snrt_l1_alloc\<close>, which returns a pointer and the new allocator.
\<close>

record 'd sdk =
  dma_start_1d :: "u32 \<Rightarrow> u32 \<Rightarrow> u32 \<Rightarrow> 'd \<Rightarrow> memory \<Rightarrow> 'd \<times> memory"
  dma_wait_all :: "'d \<Rightarrow> memory \<Rightarrow> 'd \<times> memory"
  zero_memory_ptr :: u32
  l1_end_addr :: u32
  sizeof_cls :: u32
  MIN_CHUNK_SIZE :: u32
  ALIGN_UP :: "u32 \<Rightarrow> u32 \<Rightarrow> u32"
  l1_alloc :: "u32 \<Rightarrow> snrt_allocator \<Rightarrow> u32 \<times> snrt_allocator"

record 'd init_state =
  i_mem :: memory
  i_dma :: 'd
  cls_ptr :: u32
  l1_allocator :: snrt_allocator
  l3_allocator :: snrt_allocator
  printf_mutex :: u32

text \<open>\<open>snrt_printf_init\<close> of \<open>putc.c\<close>.\<close>

definition snrt_printf_init :: "'d sdk \<Rightarrow> 'd init_state \<Rightarrow> 'd init_state" where
  "snrt_printf_init k st =
     (let (p, al) = l1_alloc k 4 (l1_allocator st)
      in st\<lparr>l1_allocator := al, printf_mutex := p, i_mem := store32 (i_mem st) p 0\<rparr>)"

definition dma_if :: "'d sdk \<Rightarrow> u32 \<Rightarrow> u32 \<Rightarrow> u32 \<Rightarrow> 'd init_state \<Rightarrow> 'd init_state" where
  "dma_if k dst src len st = (if len = 0 then st
     else let (d, m) = dma_start_1d k dst src len (i_dma st) (i_mem st) in st\<lparr>i_dma := d, i_mem := m\<rparr>)"

definition init_tls :: "init_syms \<Rightarrow> u32 \<Rightarrow> 'd init_state \<Rightarrow> 'd init_state" where
  "init_tls l tp st =
     (let size_tdata = tdata_end l - tdata_start l;
          m = memcpy tp (tdata_start l) (unat size_tdata) (i_mem st);
          size_tbss = tbss_end l - tbss_start l;
          tbss_off = tbss_start l - tdata_start l;
          m = memset (tp + tbss_off) 0 (unat size_tbss) m
      in st\<lparr>i_mem := m\<rparr>)"

definition init_cluster :: "'d sdk \<Rightarrow> init_syms \<Rightarrow> nat \<Rightarrow> 'd init_state \<Rightarrow> 'd init_state" where
  "init_cluster k l cluster_idx st =
     (let l1_lma_start = clusterL1LmaStart l ! cluster_idx;
          l1_lma_end = clusterL1LmaEnd l ! cluster_idx;
          size_l1 = l1_lma_end - l1_lma_start;
          st = dma_if k (clusterL1Start l ! cluster_idx) l1_lma_start size_l1 st;
          size_cdata = cdata_end l - cdata_start l;
          cdata_local_start = cdata_start l - base_l1_alias l + chimera_clusterBase ! cluster_idx;
          st = dma_if k cdata_local_start (cdata_lma_start l) size_cdata st;
          size_cbss = cbss_end l - cbss_start l;
          cbss_local_start = cbss_start l - base_l1_alias l + chimera_clusterBase ! cluster_idx;
          st = dma_if k cbss_local_start (zero_memory_ptr k) size_cbss st;
          l1_heap_base = clusterHeapStart l ! cluster_idx;
          b1 = ALIGN_UP k (l1_heap_base + sizeof_cls k) (MIN_CHUNK_SIZE k);
          b3 = ALIGN_UP k (l3_heap_start l) (MIN_CHUNK_SIZE k);
          st = st\<lparr>cls_ptr := l1_heap_base,
             l1_allocator := \<lparr>a_base = b1, a_end = l1_end_addr k, a_next = b1\<rparr>,
             l3_allocator := \<lparr>a_base = b3, a_end = l3_heap_end l, a_next = b3\<rparr>\<rparr>;
          (d, m) = dma_wait_all k (i_dma st) (i_mem st)
      in snrt_printf_init k (st\<lparr>i_dma := d, i_mem := m\<rparr>))"

text \<open>The hardware barrier at the end is the synchronisation of the cores, not a change of state.\<close>

definition snrt_init :: "'d sdk \<Rightarrow> init_syms \<Rightarrow> bool \<Rightarrow> nat \<Rightarrow> u32 \<Rightarrow> 'd init_state \<Rightarrow> 'd init_state" where
  "snrt_init k l is_dm_core cluster_idx tp st =
     (let st = init_tls l tp st in if is_dm_core then init_cluster k l cluster_idx st else st)"

subsection \<open>Properties: busy flag and exit\<close>

lemma cluster_id_asm_all:
  "list_all (\<lambda>c. list_all (\<lambda>i. cluster_id_asm (busy_thresholds t) (of_nat (cluster_hart t c + i)) = ucast c)
     [0..<cluster_size t c]) [0, 1, 2, 3, 4]"
  by (cases t; hypsubst; code_simp)

lemma cluster_id_asm_values:
  assumes "unat c < 5" and "i < cluster_size t c"
  shows "cluster_id_asm (busy_thresholds t) (of_nat (cluster_hart t c + i)) = ucast c"
  using cluster_id_asm_all [of t] assms by (auto simp: small_id_cases list_all_iff)

lemma busy_word_asm: "SOC_CTRL_BASE + CHIMERA_CLUSTER_0_BUSY_REG_OFFSET + push_bit 2 (ucast c) = cluster_busy_word c"
  by (simp add: cluster_busy_word_def push_bit_eq_mult algebra_simps)

text \<open>C34: on both targets every core of a cluster computes the busy register that the host polls for
  that cluster: once a core has set the flag the host sees the cluster busy, and once it has
  cleared it the host sees it idle.\<close>

theorem busy_flag_seen_by_host:
  assumes "unat c < 5" and "i < cluster_size t c" and "env_holds env {cluster_busy_word c}"
  shows "fst (snitchCluster_busy env c (SET_CLUSTER_BUSY t env (of_nat (cluster_hart t c + i)) s)) = 1 \<and>
    fst (snitchCluster_busy env c (CLEAR_CLUSTER_BUSY t env (of_nat (cluster_hart t c + i)) s)) = 0"
proof -
  have "busy_reg c = Some (cluster_busy_word c)"
    using assms(1) by (simp add: busy_reg_cases cluster_busy_word_def)
  then show ?thesis
    unfolding SET_CLUSTER_BUSY_def CLEAR_CLUSTER_BUSY_def cluster_id_asm_values [OF assms(1,2)] Let_def busy_word_asm
    by (simp add: snitchCluster_busy_def split_beta rd32_held [OF assms(3) singletonI] peek32_wr32_same
        del: fst_rd32 wr32_sel)
qed

theorem busy_flag_seen_by_host_witness:
  "fst (snitchCluster_busy quiet_env 4 (SET_CLUSTER_BUSY ChimeraConvolve quiet_env 17 boot)) = 1"
  using busy_flag_seen_by_host [of 4 8 ChimeraConvolve quiet_env boot]
  by (simp add: cluster_size_def chimera_numCores_def cluster_hart_def chimera_hartBase_values)

text \<open>The exit code of cluster 0 is what the host reads back as its return value, but the
  cluster index is added to the register's address without being scaled to the register width:
  no other cluster's exit reaches its own return register, and cluster 4 writes its exit code to
  the return register of cluster 1.\<close>

theorem exit_code_registers:
  "peek32 (snrt_exit env 0 code s) (cluster_return_word 0) = code \<and>
   peek32 (snrt_exit env 4 code s) (cluster_return_word 1) = code \<and>
   map (\<lambda>c. reg32 SOC_CTRL_BASE (CHIMERA_SNITCH_CLUSTER_0_RETURN_REG_OFFSET + ucast c) = cluster_return_word c)
     [0, 1, 2, 3, 4] = [True, False, False, False, False]"
  by (simp add: snrt_exit_def reg32_def cluster_return_word_def reg_offsets peek32_wr32_same del: wr32_sel)

subsection \<open>Properties: start-up\<close>

lemma shift_outside:
  fixes a dst :: addr
  assumes "\<forall>j<Suc n. a \<noteq> dst + of_nat j"
  shows "a \<noteq> dst" and "\<forall>j<n. a \<noteq> (dst + 1) + of_nat j"
  using assms [rule_format, of 0] assms [rule_format, of "Suc _"] by (simp_all add: add.assoc)

lemma memcpy_outside: "\<forall>j<n. a \<noteq> dst + of_nat j \<Longrightarrow> memcpy dst src n m a = m a"
proof (induction n arbitrary: dst src m)
  case (Suc n)
  from shift_outside [OF Suc.prems] Suc.IH show ?case by simp
qed simp

lemma memset_outside: "\<forall>j<n. a \<noteq> dst + of_nat j \<Longrightarrow> memset dst b n m a = m a"
proof (induction n arbitrary: dst m)
  case (Suc n)
  from shift_outside [OF Suc.prems] Suc.IH show ?case by simp
qed simp

text \<open>A block of fewer than \<open>2^32\<close> bytes does not meet itself.\<close>

lemma offset_inj:
  assumes "(of_nat i :: addr) = of_nat j" and "i < 2 ^ 32" and "j < 2 ^ 32"
  shows "i = j"
  using arg_cong [OF assms(1), of unat] assms(2,3) by (simp add: unat_of_nat)

lemma next_outside:
  assumes "n < 2 ^ 32"
  shows "\<forall>j<n. dst \<noteq> (dst + 1 :: addr) + of_nat j"
proof (intro allI impI notI)
  fix j
  assume "j < n" and "dst = dst + 1 + of_nat j"
  then have "(of_nat 0 :: addr) = of_nat (Suc j)" by (simp add: add.assoc)
  from offset_inj [OF this] \<open>j < n\<close> assms show False by simp
qed

lemma memset_inside: "n \<le> 2 ^ 32 \<Longrightarrow> j < n \<Longrightarrow> memset dst b n m (dst + of_nat j) = b"
proof (induction n arbitrary: dst m j)
  case (Suc n)
  show ?case
  proof (cases j)
    case 0
    have "memset (dst + 1) b n (m(dst := b)) dst = b"
      using Suc.prems by (simp add: memset_outside [OF next_outside])
    with 0 show ?thesis by simp
  next
    case (Suc i)
    with Suc.IH [of i "dst + 1"] Suc.prems show ?thesis by (simp add: add.assoc)
  qed
qed simp

lemma memcpy_inside:
  "n \<le> 2 ^ 32 \<Longrightarrow> \<forall>i<n. \<forall>k<n. dst + of_nat i \<noteq> src + of_nat k \<Longrightarrow> j < n \<Longrightarrow>
    memcpy dst src n m (dst + of_nat j) = m (src + of_nat j)"
proof (induction n arbitrary: dst src m j)
  case (Suc n)
  note sep = Suc.prems(2) [rule_format]
  show ?case
  proof (cases j)
    case 0
    with Suc.prems show ?thesis by (simp add: memcpy_outside [OF next_outside])
  next
    case (Suc i)
    have "memcpy (dst + 1) (src + 1) n (m(dst := m src)) (dst + 1 + of_nat i) = (m(dst := m src)) (src + 1 + of_nat i)"
      using Suc Suc.prems sep [of "Suc _" "Suc _"] by (intro Suc.IH) (simp_all add: add.assoc)
    moreover have "dst \<noteq> src + 1 + of_nat i"
      using sep [of 0 "Suc i"] Suc Suc.prems by (simp add: add.assoc)
    ultimately show ?thesis using Suc by (simp add: add.assoc)
  qed
qed simp

definition tdata_size :: "init_syms \<Rightarrow> nat" where
  "tdata_size l = unat (tdata_end l - tdata_start l)"

definition tbss_size :: "init_syms \<Rightarrow> nat" where
  "tbss_size l = unat (tbss_end l - tbss_start l)"

definition tbss_off :: "init_syms \<Rightarrow> u32" where
  "tbss_off l = tbss_start l - tdata_start l"

lemma init_compute_core_mem:
  "i_mem (snrt_init k l False c tp st) =
    memset (tp + tbss_off l) 0 (tbss_size l) (memcpy tp (tdata_start l) (tdata_size l) (i_mem st))"
  by (simp add: snrt_init_def init_tls_def Let_def tdata_size_def tbss_size_def tbss_off_def)

text \<open>On a compute core start-up fills the core's thread-local block, which the trampoline has
  reserved at the thread pointer: the bytes of \<open>.tdata\<close> are copied there, \<open>.tbss\<close>, which
  follows them, is zero, and no other byte of memory changes.\<close>

theorem init_thread_local_storage:
  assumes "tdata_size l \<le> unat (tbss_off l)" and "unat (tbss_off l) + tbss_size l \<le> 2 ^ 32"
    and "\<forall>i<tdata_size l. \<forall>k<tdata_size l. tp + of_nat i \<noteq> tdata_start l + of_nat k"
  shows "(\<forall>j<tdata_size l. i_mem (snrt_init k l False c tp st) (tp + of_nat j) = i_mem st (tdata_start l + of_nat j)) \<and>
    (\<forall>j<tbss_size l. i_mem (snrt_init k l False c tp st) (tp + tbss_off l + of_nat j) = 0) \<and>
    (\<forall>a. (\<forall>j<unat (tbss_off l) + tbss_size l. a \<noteq> tp + of_nat j) \<longrightarrow>
      i_mem (snrt_init k l False c tp st) a = i_mem st a)" (is "?D \<and> ?B \<and> ?F")
proof (intro conjI)
  have nd: "tdata_size l \<le> 2 ^ 32" and nb: "tbss_size l \<le> 2 ^ 32"
    using assms(1,2) by linarith+
  show ?D
  proof (intro allI impI)
    fix j
    assume j: "j < tdata_size l"
    have "tp + of_nat j \<noteq> tp + tbss_off l + of_nat i" if "i < tbss_size l" for i
    proof
      assume "tp + of_nat j = tp + tbss_off l + of_nat i"
      then have "(of_nat j :: addr) = of_nat (unat (tbss_off l) + i)" by (simp add: add.assoc)
      from offset_inj [OF this] j that assms(1,2) show False by linarith
    qed
    then show "i_mem (snrt_init k l False c tp st) (tp + of_nat j) = i_mem st (tdata_start l + of_nat j)"
      using memcpy_inside [OF nd assms(3) j] by (simp add: init_compute_core_mem memset_outside)
  qed
  show ?B
    using memset_inside [OF nb] by (simp add: init_compute_core_mem)
  show ?F
  proof (intro allI impI)
    fix a
    assume out: "\<forall>j<unat (tbss_off l) + tbss_size l. a \<noteq> tp + of_nat j"
    have "\<forall>j<tbss_size l. a \<noteq> tp + tbss_off l + of_nat j"
      using out [rule_format, of "unat (tbss_off l) + _"] by (simp add: add.assoc)
    moreover have "\<forall>j<tdata_size l. a \<noteq> tp + of_nat j"
      using out assms(1) by simp
    ultimately show "i_mem (snrt_init k l False c tp st) a = i_mem st a"
      by (simp add: init_compute_core_mem memset_outside memcpy_outside)
  qed
qed

text \<open>A link with six bytes of \<open>.tdata\<close> and five of \<open>.tbss\<close>, and the DMA engine that only
  queues its transfers.\<close>

definition sample_syms :: init_syms where
  "sample_syms = \<lparr>global_pointer = 0x1C800, tdata_start = 0x1C000, tdata_end = 0x1C006, tbss_start = 0x1C008,
     tbss_end = 0x1C00D, base_l1_alias = 0x10000000, cbss_start = 0x10000100, cbss_end = 0x10000180,
     cdata_start = 0x10000080, cdata_end = 0x100000C0, cdata_lma_start = 0x1D000, l3_heap_start = 0x1E004,
     l3_heap_end = 0x1F000, clusterHeapStart = [0x40001000, 0x40201000, 0x40401000, 0x40601000, 0x40801000],
     clusterL1Start = [0x40000000, 0x40200000, 0x40400000, 0x40600000, 0x40800000],
     clusterL1LmaStart = [0x1D100, 0x1D110, 0x1D110, 0x1D110, 0x1D110],
     clusterL1LmaEnd = [0x1D110, 0x1D110, 0x1D110, 0x1D110, 0x1D110]\<rparr>"

type_synonym transfers = "(u32 \<times> u32 \<times> u32) list"

definition run_transfers :: "transfers \<Rightarrow> memory \<Rightarrow> memory" where
  "run_transfers ts m = fold (\<lambda>(dst, src, n). memcpy dst src (unat n)) ts m"

definition sample_sdk :: "transfers sdk" where
  "sample_sdk = \<lparr>dma_start_1d = (\<lambda>dst src n d m. (d @ [(dst, src, n)], m)),
     dma_wait_all = (\<lambda>d m. ([], run_transfers d m)), zero_memory_ptr = 0x40030000, l1_end_addr = 0x40020000,
     sizeof_cls = 64, MIN_CHUNK_SIZE = 8, ALIGN_UP = (\<lambda>x a. (x + a - 1) AND NOT (a - 1)),
     l1_alloc = (\<lambda>n al. (a_next al, al\<lparr>a_next := a_next al + 8\<rparr>))\<rparr>"

definition sample_init :: "transfers init_state" where
  "sample_init = \<lparr>i_mem = (\<lambda>a. ucast a), i_dma = [], cls_ptr = 0, l1_allocator = \<lparr>a_base = 0, a_end = 0, a_next = 0\<rparr>,
     l3_allocator = \<lparr>a_base = 0, a_end = 0, a_next = 0\<rparr>, printf_mutex = 0\<rparr>"

theorem init_thread_local_storage_witness:
  "i_mem (snrt_init sample_sdk sample_syms False 0 0x40001F00 sample_init) (0x40001F00 + of_nat 5) = 5 \<and>
   i_mem (snrt_init sample_sdk sample_syms False 0 0x40001F00 sample_init) (0x40001F08 + of_nat 4) = 0"
proof -
  have sizes: "tdata_size sample_syms = 6" "tbss_size sample_syms = 5" "tbss_off sample_syms = 8"
    by (simp_all add: tdata_size_def tbss_size_def tbss_off_def sample_syms_def)
  have starts: "tdata_start sample_syms = 0x1C000" by (simp add: sample_syms_def)
  have "\<forall>i<6. \<forall>k<6. 0x40001F00 + of_nat i \<noteq> (0x1C000 :: addr) + of_nat k"
  proof (intro allI impI)
    fix i k :: nat
    assume "i < 6" and "k < 6"
    then have "i \<in> {0, 1, 2, 3, 4, 5}" "k \<in> {0, 1, 2, 3, 4, 5}" by auto
    then show "0x40001F00 + of_nat i \<noteq> (0x1C000 :: addr) + of_nat k" by auto
  qed
  then show ?thesis
    using init_thread_local_storage [of sample_syms "0x40001F00" sample_sdk 0 sample_init]
    unfolding sizes starts by (auto simp: sample_init_def dest: spec [of _ 5] spec [of _ 4])
qed

text \<open>The queue contract of the DMA engine: starting a transfer appends it and touches no memory.\<close>

definition dma_queues :: "'d sdk \<Rightarrow> ('d \<Rightarrow> transfers) \<Rightarrow> bool" where
  "dma_queues k pending \<longleftrightarrow> (\<forall>dst src n d m.
     pending (fst (dma_start_1d k dst src n d m)) = pending d @ [(dst, src, n)]
     \<and> snd (dma_start_1d k dst src n d m) = m) \<and>
   (\<forall>d m. pending (fst (dma_wait_all k d m)) = [] \<and> snd (dma_wait_all k d m) = run_transfers (pending d) m)"

text \<open>The transfers that a cluster needs: its private L1 image, its copy of the cluster-local data
  and zeros for its cluster-local bss, each left out when it is empty.\<close>

definition cluster_transfers :: "'d sdk \<Rightarrow> init_syms \<Rightarrow> nat \<Rightarrow> transfers" where
  "cluster_transfers k l c = filter (\<lambda>(dst, src, n). n \<noteq> 0)
     [(clusterL1Start l ! c, clusterL1LmaStart l ! c, clusterL1LmaEnd l ! c - clusterL1LmaStart l ! c),
      (chimera_clusterBase ! c + (cdata_start l - base_l1_alias l), cdata_lma_start l, cdata_end l - cdata_start l),
      (chimera_clusterBase ! c + (cbss_start l - base_l1_alias l), zero_memory_ptr k, cbss_end l - cbss_start l)]"

lemma dma_if_queues:
  assumes "dma_queues k pending"
  shows "pending (i_dma (dma_if k dst src n st)) = pending (i_dma st) @ filter (\<lambda>(dst, src, n). n \<noteq> 0) [(dst, src, n)]"
    and "i_mem (dma_if k dst src n st) = i_mem st"
  using assms by (auto simp: dma_if_def dma_queues_def split_beta)



subsection \<open>Properties: trampoline\<close>

lemma dvd16_iff: "16 dvd unat (x :: u32) \<longleftrightarrow> take_bit 4 x = 0"
proof -
  have "16 dvd unat x \<longleftrightarrow> take_bit 4 (unat x) = 0"
    by (simp add: take_bit_eq_mod mod_eq_0_iff_dvd)
  also have "take_bit 4 (unat x) = unat (take_bit 4 x)"
    by (simp add: unsigned_take_bit_eq)
  also have "unat (take_bit 4 x) = 0 \<longleftrightarrow> take_bit 4 x = 0"
    by (rule unat_eq_0)
  finally show ?thesis .
qed

lemma take_bit4_minus15: "take_bit 4 (x AND - 0xF :: u32) = take_bit 1 x"
proof (rule bit_word_eqI)
  fix n
  assume "n < LENGTH(32)"
  have "bit (- 15 :: u32) 0" "\<not> bit (- 15 :: u32) 1" "\<not> bit (- 15 :: u32) 2" "\<not> bit (- 15 :: u32) 3"
    by simp_all
  moreover have "n < 4 \<Longrightarrow> n \<in> {0, 1, 2, 3}" by auto
  ultimately show "bit (take_bit 4 (x AND - 0xF)) n = bit (take_bit 1 x) n"
    by (cases "n < 4") (auto simp: bit_take_bit_iff bit_and_iff bit_0)
qed

text \<open>A stack pointer rounded by the trampoline's mask loses at most 15 bytes.\<close>

lemma round_minus15:
  fixes x :: u32
  shows "unat (x AND - 0xF) \<le> unat x" and "unat x < unat (x AND - 0xF) + 16"
proof -
  have le: "x AND - 0xF \<le> x" by (rule word_and_le2)
  then show "unat (x AND - 0xF) \<le> unat x" by (simp add: word_le_nat_alt)
  have "x = (x AND 0xE) + (x AND - 0xF)"
  proof -
    have "(x AND 0xE) + (x AND - 0xF) = (x AND 0xE) OR (x AND - 0xF)"
      by (rule disjunctive_add_eq_or) (simp add: ac_simps)
    also have "\<dots> = x AND (0xE OR - 0xF)" by (simp only: bit.conj_disj_distrib)
    finally show ?thesis by simp
  qed
  then have "x - (x AND - 0xF) = x AND 0xE" by (simp add: algebra_simps)
  moreover have "unat (x AND 0xE) \<le> 14"
    using order_trans [OF word_and_le1 order_refl, of x "0xE :: u32"] by (simp add: word_le_nat_alt)
  ultimately have "unat (x - (x AND - 0xF)) \<le> 14" by simp
  then show "unat x < unat (x AND - 0xF) + 16"
    using le by (simp add: unat_sub_le word_le_nat_alt)
qed

text \<open>The trampoline leaves the thread pointer below the given stack by the size of the
  thread-local sections and rounds the stack pointer down from there, but its mask keeps bit 0:
  the stack pointer is 16-byte aligned exactly when the thread pointer is even.\<close>

theorem trampoline_alignment:
  "let r = fst (trampoline t env l mhartid s);
       stack = fst (rd32 env (shared_data + of_nat (off_trampoline_stack t)
         + push_bit 2 (mhartid - of_nat CLUSTER_HART_BASE)) s) in
    tp_reg r = stack - (tdata_end l - tdata_start l) - (tbss_end l - tbss_start l) \<and>
    sp_reg r \<le> tp_reg r \<and> tp_reg r - sp_reg r < 16 \<and>
    (16 dvd unat (sp_reg r) \<longleftrightarrow> even (unat (tp_reg r)))"
proof -
  have le: "x AND - 0xF \<le> x" for x :: u32
    by (rule word_and_le2)
  have lt: "x - (x AND - 0xF) < 16" for x :: u32
    using round_minus15 [of x] le [of x] by (simp add: word_less_nat_alt unat_sub_le)
  have ev: "take_bit 1 x = 0 \<longleftrightarrow> even (unat x)" for x :: u32
  proof -
    have "take_bit 1 x = 0 \<longleftrightarrow> unat (take_bit 1 x) = 0" by (rule unat_eq_0 [symmetric])
    also have "unat (take_bit 1 x) = unat x mod 2"
      by (simp add: unat_mod_distrib)
    finally show ?thesis by (simp only: even_iff_mod_2_eq_zero)
  qed
  have al: "16 dvd unat (x AND - 0xF) \<longleftrightarrow> even (unat x)" for x :: u32
    by (simp only: dvd16_iff take_bit4_minus15 ev)
  show ?thesis
    unfolding trampoline_def Let_def split_beta by (simp add: le lt al del: fst_rd32)
qed

end
