(* ===== verification/Putc.thy ===== *)
theory Putc
  imports Offload
begin

section \<open>Character output of a cluster core (devices/snitch\_cluster/runtime/putc.c)\<close>

text \<open>
  \<open>snrt_putchar\<close>: each core's line buffer in \<open>.noinit\<close>, and the semihosting request a full
  buffer or a newline makes of the host. A buffer is its 36-byte header (the size, then the eight
  words of \<open>syscall_mem\<close>) and 1020 bytes of data, on RV32. The HTIF words are those of either
  target, 32 or 64 bits wide. The lock operations of the Snitch SDK are parameters on the
  machine: \<open>acquire\<close> is \<open>None\<close> when the lock is never obtained. A store past the data array
  is \<open>OutOfBounds\<close>.
\<close>

definition PUTC_BUFFER_LEN :: u32 where "PUTC_BUFFER_LEN = 1024 - 4"

definition putc_stride :: u32 where "putc_stride = 4 + 8 * 4 + PUTC_BUFFER_LEN"

definition putc_buf :: "addr \<Rightarrow> nat \<Rightarrow> addr" where
  "putc_buf putc_buffer core = putc_buffer + putc_stride * of_nat core"

definition off_data :: addr where "off_data = 4 + 8 * 4"

definition host_to_device_word :: "target \<Rightarrow> addr" where
  "host_to_device_word tg = shared_data + of_nat (off_host_to_device tg)"

definition device_to_host_word :: "target \<Rightarrow> addr" where
  "device_to_host_word tg = shared_data + of_nat (off_device_to_host tg)"

definition msip0_word :: addr where
  "msip0_word = reg32 base_clint CLINT_MSIP_REG_OFFSET"

text \<open>\<open>buf->data[buf->hdr.size++] = c\<close> and the test that follows it: the result says whether the
  buffer is to be flushed.\<close>

definition putc_append :: "env \<Rightarrow> addr \<Rightarrow> u8 \<Rightarrow> machine \<Rightarrow> bool outcome \<times> machine" where
  "putc_append env buf c s =
     (let (n, s) = rd32 env buf s in
      if unat n \<ge> unat PUTC_BUFFER_LEN then (Fault OutOfBounds, s)
      else let s = wr32 env buf (n + 1) s;
               s = wr8 env (buf + off_data + n) c s;
               (n, s) = rd32 env buf s
           in (Ret (n = PUTC_BUFFER_LEN \<or> c = 10), s))"

text \<open>Up to the interrupt: the request header, the lock, the mailbox and the host's MSIP bit.\<close>

definition putc_request ::
  "target \<Rightarrow> env \<Rightarrow> (machine \<Rightarrow> machine option) \<Rightarrow> u32 \<Rightarrow> addr \<Rightarrow> machine \<Rightarrow> machine option" where
  "putc_request tg env acquire stdout_ptr buf s =
     (let s = wr32 env (buf + 4) 64 s;
          s = wr32 env (buf + 8) stdout_ptr s;
          s = wr32 env (buf + 12) (buf + off_data) s;
          (n, s) = rd32 env buf s;
          s = wr32 env (buf + 16) n s
      in case acquire s of None \<Rightarrow> None
       | Some s \<Rightarrow> (let s = htif_write tg env (device_to_host_word tg) (buf + 4) s in Some (wr32 env msip0_word 1 s)))"

definition await_body :: "target \<Rightarrow> env \<Rightarrow> machine \<Rightarrow> (unit option \<times> machine) option" where
  "await_body tg env s = (let (v, s) = htif_read tg env (host_to_device_word tg) s in
     Some (if v = (0, 0) then None else Some (), s))"

definition putc_finish :: "target \<Rightarrow> env \<Rightarrow> (machine \<Rightarrow> machine) \<Rightarrow> addr \<Rightarrow> machine \<Rightarrow> machine option" where
  "putc_finish tg env release buf s = (case loop (await_body tg env) s of None \<Rightarrow> None
     | Some (_, s) \<Rightarrow>
        (let s = htif_write tg env (host_to_device_word tg) 0 s;
             s = wr32 env buf 0 s
         in Some (release s)))"

definition snrt_putchar ::
  "target \<Rightarrow> env \<Rightarrow> (machine \<Rightarrow> machine option) \<Rightarrow> (machine \<Rightarrow> machine) \<Rightarrow> u32 \<Rightarrow> addr \<Rightarrow> nat \<Rightarrow> nat \<Rightarrow> u8 \<Rightarrow> machine
    \<Rightarrow> (u8 outcome \<times> machine) option" where
  "snrt_putchar tg env acquire release stdout_ptr putc_buffer ncores core c s =
     (if core \<ge> ncores then Some (Fault OutOfBounds, s)
      else let buf = putc_buf putc_buffer core in
        case putc_append env buf c s of
          (Fault f, s) \<Rightarrow> Some (Fault f, s)
        | (Ret flush, s) \<Rightarrow>
            if \<not> flush then Some (Ret c, s)
            else case putc_request tg env acquire stdout_ptr buf s of None \<Rightarrow> None
              | Some s \<Rightarrow> (case putc_finish tg env release buf s of None \<Rightarrow> None | Some s \<Rightarrow> Some (Ret c, s)))"

subsection \<open>The core's own memory\<close>

text \<open>The bytes of a core's buffer.\<close>

definition buf_bytes :: "addr \<Rightarrow> addr set" where
  "buf_bytes buf = {a. unat (a - buf) < 1056}"

definition data_byte :: "machine \<Rightarrow> addr \<Rightarrow> nat \<Rightarrow> u8" where
  "data_byte s buf i = mem (hw s) (buf + off_data + of_nat i)"

lemma buf_off: "n < 1056 \<Longrightarrow> buf + of_nat n \<in> buf_bytes buf"
  by (simp add: buf_bytes_def unat_of_nat)

lemma env_keeps_word:
  assumes "env_keeps env (buf_bytes buf)" and "n \<le> 1052"
  shows "env_holds env {buf + of_nat n}"
proof -
  have "buf + of_nat n + k \<in> buf_bytes buf" if "k \<in> {0, 1, 2, 3}" for k
  proof -
    have "buf + of_nat n + k = buf + of_nat (n + unat k)" by simp
    with that show ?thesis by (simp only:) (rule buf_off, use assms(2) in auto)
  qed
  from this [of 0] this [of 1] this [of 2] this [of 3] show ?thesis
    using assms(1) by (auto simp: env_holds_def env_keeps_def load32_def)
qed

text \<open>Offsets into the buffer are numbers below its length.\<close>

lemma off_le:
  assumes "i < 1056" and "j < 1056" and "j + 4 \<le> i \<or> i < j"
  shows "4 \<le> (buf + of_nat i :: addr) - (buf + of_nat j)"
proof -
  have "(buf + of_nat i :: addr) - (buf + of_nat j) = of_nat i - of_nat j" by simp
  then show ?thesis
    using assms by (auto simp: word_le_nat_alt unat_sub_if' unat_of_nat)
qed

lemma off_neq: "i < 1056 \<Longrightarrow> j < 1056 \<Longrightarrow> i \<noteq> j \<Longrightarrow> (buf + of_nat i :: addr) \<noteq> buf + of_nat j"
  by (auto simp: word_eq_iff_unat [of "of_nat i"] unat_of_nat)

text \<open>Reading and writing inside a buffer, by offset.\<close>

lemma buf_mem:
  assumes "env_keeps env (buf_bytes buf)" and "i < 1056"
  shows "j < 1056 \<Longrightarrow> j + 4 \<le> i \<or> i < j \<Longrightarrow>
      mem (hw (wr32 env (buf + of_nat j) v s)) (buf + of_nat i) = mem (hw s) (buf + of_nat i)"
    and "j < 1056 \<Longrightarrow> i \<noteq> j \<Longrightarrow>
      mem (hw (wr8 env (buf + of_nat j) c s)) (buf + of_nat i) = mem (hw s) (buf + of_nat i)"
    and "mem (hw (snd (rd32 env a s))) (buf + of_nat i) = mem (hw s) (buf + of_nat i)"
  using keep_byte [OF assms(1) buf_off [OF assms(2)]] assms(2) off_le off_neq by blast+

lemma peek_cong:
  assumes "\<And>k. k < 4 \<Longrightarrow> mem (hw s) (buf + of_nat (i + k)) = mem (hw s') (buf + of_nat (i + k))"
  shows "peek32 s (buf + of_nat i) = peek32 s' (buf + of_nat i)"
  using assms [of 0] assms [of 1] assms [of 2] assms [of 3]
  by (simp add: peek32_def load32_def add.assoc add.commute add.left_commute)

lemma buf_peek:
  assumes "env_keeps env (buf_bytes buf)" and "i \<le> 1052"
  shows "j < 1056 \<Longrightarrow> j + 4 \<le> i \<or> i + 4 \<le> j \<Longrightarrow>
      peek32 (wr32 env (buf + of_nat j) v s) (buf + of_nat i) = peek32 s (buf + of_nat i)"
    and "peek32 (wr32 env (buf + of_nat i) v s) (buf + of_nat i) = v"
    and "j < 1056 \<Longrightarrow> j < i \<or> i + 4 \<le> j \<Longrightarrow>
      peek32 (wr8 env (buf + of_nat j) c s) (buf + of_nat i) = peek32 s (buf + of_nat i)"
    and "peek32 (snd (rd32 env a s)) (buf + of_nat i) = peek32 s (buf + of_nat i)"
    and "fst (rd32 env (buf + of_nat i) s) = peek32 s (buf + of_nat i)"
proof -
  show "j < 1056 \<Longrightarrow> j + 4 \<le> i \<or> i + 4 \<le> j \<Longrightarrow>
      peek32 (wr32 env (buf + of_nat j) v s) (buf + of_nat i) = peek32 s (buf + of_nat i)"
    using assms(2) by (intro peek_cong buf_mem(1) [OF assms(1)]) auto
  show "j < 1056 \<Longrightarrow> j < i \<or> i + 4 \<le> j \<Longrightarrow>
      peek32 (wr8 env (buf + of_nat j) c s) (buf + of_nat i) = peek32 s (buf + of_nat i)"
    using assms(2) by (intro peek_cong buf_mem(2) [OF assms(1)]) auto
  show "peek32 (snd (rd32 env a s)) (buf + of_nat i) = peek32 s (buf + of_nat i)"
    using assms(2) by (intro peek_cong buf_mem(3) [OF assms(1)]) auto
qed (simp_all only: peek32_wr32_same rd32_held [OF env_keeps_word [OF assms] singletonI])

lemma buf_offs:
  "(buf :: addr) = buf + of_nat 0" "(buf :: addr) + 4 = buf + of_nat 4" "(buf :: addr) + 8 = buf + of_nat 8"
  "(buf :: addr) + 12 = buf + of_nat 12" "(buf :: addr) + 16 = buf + of_nat 16"
  by simp_all

definition appended :: "env \<Rightarrow> addr \<Rightarrow> u8 \<Rightarrow> machine \<Rightarrow> machine" where
  "appended env buf c s = snd (rd32 env buf (wr8 env (buf + of_nat (36 + unat (peek32 s buf))) c
     (wr32 env buf (peek32 s buf + 1) (snd (rd32 env buf s)))))"

lemma size_read:
  assumes "env_keeps env (buf_bytes buf)"
  shows "fst (rd32 env buf s) = peek32 s buf" and "peek32 (snd (rd32 env a s)) buf = peek32 s buf"
    and "peek32 (wr32 env buf v s) buf = v"
  using buf_peek(2,4,5) [OF assms, of 0] by simp_all

lemma appended_size:
  assumes "env_keeps env (buf_bytes buf)" and "unat (peek32 s buf) < 1020"
  shows "peek32 (appended env buf c s) buf = peek32 s buf + 1"
proof -
  have "peek32 (wr8 env (buf + of_nat (36 + unat (peek32 s buf))) c t) (buf + of_nat 0) = peek32 t (buf + of_nat 0)" for t
    using assms(2) by (intro buf_peek(3) [OF assms(1)]) simp_all
  then show ?thesis
    by (simp add: appended_def size_read [OF assms(1)] del: fst_rd32 snd_rd32_sel wr32_sel wr8_sel)
qed

lemma appended_byte:
  assumes "env_keeps env (buf_bytes buf)" and "unat (peek32 s buf) < 1020"
  shows "i < 1020 \<Longrightarrow> data_byte (appended env buf c s) buf i = (if i = unat (peek32 s buf) then c else data_byte s buf i)"
proof -
  assume i: "i < 1020"
  have d: "buf + off_data + of_nat i = buf + of_nat (36 + i)"
    by (simp add: off_data_def add.assoc)
  note keep = buf_mem [OF assms(1), of "36 + i"]
  have "mem (hw (wr8 env (buf + of_nat (36 + unat (peek32 s buf))) c t)) (buf + of_nat (36 + i))
      = (if i = unat (peek32 s buf) then c else mem (hw t) (buf + of_nat (36 + i)))" for t
    using keep(2) i assms(2) by (auto simp: wr8_same simp del: wr8_sel of_nat_add)
  then show ?thesis
    using keep(1) [of 0] keep(3) i
    by (simp add: data_byte_def d appended_def del: fst_rd32 snd_rd32_sel wr32_sel wr8_sel of_nat_add)
qed

lemma appended_trace:
  assumes "env_keeps env (buf_bytes buf)" and "unat (peek32 s buf) < 1020"
  shows "trace (appended env buf c s) = trace s @ [Load32 buf (peek32 s buf), Store32 buf (peek32 s buf + 1),
    Store8 (buf + off_data + peek32 s buf) c, Load32 buf (peek32 s buf + 1)]"
proof -
  let ?t = "wr8 env (buf + of_nat (36 + unat (peek32 s buf))) c (wr32 env buf (peek32 s buf + 1) (snd (rd32 env buf s)))"
  have "snd (rd32 env buf t) = emit (Load32 buf (fst (rd32 env buf t))) (advance env t)" for t
    by (simp add: rd32_eq)
  then have tr: "trace (snd (rd32 env buf t)) = trace t @ [Load32 buf (peek32 t buf)]" for t
    by (simp add: size_read [OF assms(1)] del: fst_rd32)
  have "peek32 ?t buf = peek32 s buf + 1"
    using appended_size [OF assms] by (simp add: appended_def size_read [OF assms(1)] del: fst_rd32 snd_rd32_sel wr32_sel wr8_sel)
  then show ?thesis
    by (simp add: appended_def tr off_data_def add.assoc del: snd_rd32_sel(3))
qed

lemma putc_append_eq:
  assumes "env_keeps env (buf_bytes buf)"
  shows "putc_append env buf c s = (if unat (peek32 s buf) < 1020
     then (Ret (peek32 s buf = 1019 \<or> c = 10), appended env buf c s)
     else (Fault OutOfBounds, snd (rd32 env buf s)))"
proof (cases "unat (peek32 s buf) < 1020")
  case True
  let ?n = "peek32 s buf"
  let ?t = "wr8 env (buf + of_nat (36 + unat ?n)) c (wr32 env buf (?n + 1) (snd (rd32 env buf s)))"
  have "fst (rd32 env buf ?t) = ?n + 1"
    using appended_size [OF assms True] by (simp add: appended_def size_read [OF assms] del: fst_rd32 snd_rd32_sel wr32_sel wr8_sel)
  moreover have "?n + 1 = 1020 \<longleftrightarrow> ?n = 1019"
    using eq_diff_eq [of ?n 1020 1] by simp
  ultimately show ?thesis
    using True by (simp add: putc_append_def size_read [OF assms] split_beta PUTC_BUFFER_LEN_def off_data_def
        appended_def add.assoc del: fst_rd32 snd_rd32_sel wr32_sel wr8_sel)
next
  case False
  then show ?thesis
    by (simp add: putc_append_def size_read [OF assms] split_beta PUTC_BUFFER_LEN_def del: fst_rd32)
qed

definition line :: "machine \<Rightarrow> addr \<Rightarrow> u8 list" where
  "line s buf = map (data_byte s buf) [0..<unat (peek32 s buf)]"

lemma appended_line:
  assumes "env_keeps env (buf_bytes buf)" and "unat (peek32 s buf) < 1020"
  shows "line (appended env buf c s) buf = line s buf @ [c]"
proof -
  have "unat (peek32 s buf + 1) = Suc (unat (peek32 s buf))"
    using assms(2) by (subst unat_add_no_wrap) simp_all
  then show ?thesis
    unfolding line_def appended_size [OF assms] using appended_byte [OF assms] assms(2)
    by (auto simp: map_eq_conv)
qed

text \<open>The lock of the Snitch SDK: it is obtained sooner or later, and neither operation touches
  the bytes of \<open>B\<close>.\<close>

definition lock_leaves :: "(machine \<Rightarrow> machine option) \<Rightarrow> (machine \<Rightarrow> machine) \<Rightarrow> addr set \<Rightarrow> bool" where
  "lock_leaves acquire release B \<longleftrightarrow>
     (\<forall>s. \<exists>s1. acquire s = Some s1 \<and> (\<forall>a\<in>B. mem (hw s1) a = mem (hw s) a)) \<and>
     (\<forall>s. \<forall>a\<in>B. mem (hw (release s)) a = mem (hw s) a)"

text \<open>The mailboxes and the interrupt register are no part of the buffer.\<close>

definition mailbox_words :: "target \<Rightarrow> addr set" where
  "mailbox_words tg = {host_to_device_word tg, device_to_host_word tg, msip0_word}
     \<union> (if tg = ChimeraConvolve then {host_to_device_word tg + 4, device_to_host_word tg + 4} else {})"

definition mailboxes_apart :: "target \<Rightarrow> addr \<Rightarrow> bool" where
  "mailboxes_apart tg buf \<longleftrightarrow> (\<forall>w\<in>mailbox_words tg. \<forall>a\<in>buf_bytes buf. 4 \<le> a - w)"

text \<open>States that agree on the whole buffer agree on its size, its header and its line.\<close>

definition same_buf :: "addr \<Rightarrow> machine \<Rightarrow> machine \<Rightarrow> bool" where
  "same_buf buf s s' \<longleftrightarrow> (\<forall>a\<in>buf_bytes buf. mem (hw s) a = mem (hw s') a)"

lemma same_buf_trans: "same_buf buf s t \<Longrightarrow> same_buf buf t u \<Longrightarrow> same_buf buf s u"
  by (simp add: same_buf_def)

lemma same_buf_peek: "same_buf buf s s' \<Longrightarrow> i \<le> 1052 \<Longrightarrow> peek32 s (buf + of_nat i) = peek32 s' (buf + of_nat i)"
proof (rule peek_cong)
  fix k :: nat
  assume "same_buf buf s s'" and "i \<le> 1052" and "k < 4"
  then show "mem (hw s) (buf + of_nat (i + k)) = mem (hw s') (buf + of_nat (i + k))"
    using buf_off [of "i + k" buf] unfolding same_buf_def by (simp only:) 
qed

lemma same_buf_byte: "same_buf buf s s' \<Longrightarrow> i < 1020 \<Longrightarrow> data_byte s buf i = data_byte s' buf i"
  using buf_off [of "36 + i" buf] by (simp add: same_buf_def data_byte_def off_data_def add.assoc)

lemma mailbox_same:
  assumes "env_keeps env (buf_bytes buf)" and "mailboxes_apart tg buf"
    and "w \<in> mailbox_words tg"
  shows "same_buf buf (wr32 env w v s) s"
  using assms keep_byte(1) [OF assms(1)] by (auto simp: same_buf_def mailboxes_apart_def simp del: wr32_sel)

lemma htif_write_same:
  assumes "env_keeps env (buf_bytes buf)" and "mailboxes_apart tg buf"
    and "w \<in> {host_to_device_word tg, device_to_host_word tg}"
  shows "same_buf buf (htif_write tg env w v s) s"
proof (cases tg)
  case ChimeraOpen
  then show ?thesis
    using assms(3) mailbox_same [OF assms(1,2), of w v s] by (auto simp: htif_write_def mailbox_words_def Let_def)
next
  case ChimeraConvolve
  then have "w \<in> mailbox_words tg" and "w + 4 \<in> mailbox_words tg"
    using assms(3) by (auto simp: mailbox_words_def)
  note same = this [THEN mailbox_same [OF assms(1,2)]]
  from same_buf_trans [OF same(2) same(1)] ChimeraConvolve show ?thesis
    by (simp add: htif_write_def Let_def)
qed

text \<open>The header that the host finds.\<close>

definition header_set :: "addr \<Rightarrow> u32 \<Rightarrow> u32 \<Rightarrow> machine \<Rightarrow> bool" where
  "header_set buf stdout_ptr n s \<longleftrightarrow> peek32 s (buf + 4) = 64 \<and> peek32 s (buf + 8) = stdout_ptr
     \<and> peek32 s (buf + 12) = buf + off_data \<and> peek32 s (buf + 16) = n"

definition with_header :: "env \<Rightarrow> u32 \<Rightarrow> addr \<Rightarrow> machine \<Rightarrow> machine" where
  "with_header env out buf s =
     (let t = wr32 env (buf + 12) (buf + off_data) (wr32 env (buf + 8) out (wr32 env (buf + 4) 64 s))
      in wr32 env (buf + 16) (fst (rd32 env buf t)) (snd (rd32 env buf t)))"

lemma with_header_effect:
  assumes "env_keeps env (buf_bytes buf)" and "unat (peek32 s buf) \<le> 1020"
  shows "header_set buf out (peek32 s buf) (with_header env out buf s)"
    and "peek32 (with_header env out buf s) buf = peek32 s buf" and "line (with_header env out buf s) buf = line s buf"
proof -
  define t where "t = wr32 env (buf + 12) (buf + off_data) (wr32 env (buf + 8) out (wr32 env (buf + 4) 64 s))"
  define u where "u = wr32 env (buf + 16) (fst (rd32 env buf t)) (snd (rd32 env buf t))"
  have with_header: "with_header env out buf s = u"
    by (simp add: with_header_def Let_def u_def t_def)
  note p = buf_peek [OF assms(1)] buf_mem [OF assms(1)]
  note dl = fst_rd32 snd_rd32_sel wr32_sel wr8_sel
  note at = buf_offs(2-5)
  have at0: "(buf + of_nat 0 :: addr) = buf" by simp
  note p0 = p(1,2,4,5) [where i = 0, unfolded at0]
  have size: "peek32 u buf = peek32 s buf"
    by (simp add: u_def t_def at p0 del: dl of_nat_numeral)
  then show "peek32 (with_header env out buf s) buf = peek32 s buf" by (simp only: with_header)
  show "header_set buf out (peek32 s buf) (with_header env out buf s)"
    unfolding with_header
    by (simp add: header_set_def u_def t_def at p p0 del: dl of_nat_numeral)
  have "mem (hw u) (buf + of_nat (36 + i)) = mem (hw s) (buf + of_nat (36 + i))" if "i < 1020" for i
    using that by (simp add: u_def t_def at p del: dl of_nat_numeral of_nat_add)
  then show "line (with_header env out buf s) buf = line s buf"
    unfolding with_header line_def size using assms(2) by (auto simp: data_byte_def off_data_def add.assoc)
qed

lemma same_buf_line:
  assumes "same_buf buf s s'" and "unat (peek32 s buf) \<le> 1020"
  shows "line s buf = line s' buf" and "peek32 s buf = peek32 s' buf"
    and "header_set buf out n s = header_set buf out n s'"
proof -
  note pk = same_buf_peek [OF assms(1)]
  show size: "peek32 s buf = peek32 s' buf" using pk [of 0] by simp
  show "line s buf = line s' buf"
    unfolding line_def size [symmetric] using same_buf_byte [OF assms(1)] assms(2) by auto
  show "header_set buf out n s = header_set buf out n s'"
    unfolding header_set_def buf_offs(2-5) using pk [of 4] pk [of 8] pk [of 12] pk [of 16] by simp
qed

lemma putc_request_eq:
  "putc_request tg env acquire out buf s = (case acquire (with_header env out buf s) of None \<Rightarrow> None
     | Some t \<Rightarrow> Some (wr32 env msip0_word 1 (htif_write tg env (device_to_host_word tg) (buf + 4) t)))"
  by (simp add: putc_request_def with_header_def Let_def split_beta del: fst_rd32 split: option.split)

text \<open>The answer is looked for again and again: the state before the \<open>k\<close>-th look.\<close>

definition polled :: "target \<Rightarrow> env \<Rightarrow> nat \<Rightarrow> machine \<Rightarrow> machine" where
  "polled tg env k s = ((\<lambda>s. snd (htif_read tg env (host_to_device_word tg) s)) ^^ k) s"

definition answer_at :: "target \<Rightarrow> env \<Rightarrow> nat \<Rightarrow> machine \<Rightarrow> u32 \<times> u32" where
  "answer_at tg env k s = fst (htif_read tg env (host_to_device_word tg) (polled tg env k s))"

lemma await_None_iff: "loop (await_body tg env) s = None \<longleftrightarrow> (\<forall>k. answer_at tg env k s = (0, 0))"
proof -
  have "loop (await_body tg env) s = None \<longleftrightarrow>
      (\<forall>k. (\<lambda>s. if fst (htif_read tg env (host_to_device_word tg) s) = (0, 0) then None else Some ()) (polled tg env k s) = None)"
    unfolding polled_def by (rule loop_total_None) (simp add: await_body_def split_beta)
  then show ?thesis by (simp add: answer_at_def)
qed

subsection \<open>Properties\<close>

text \<open>A character that neither fills the buffer nor ends the line is appended to the core's
  line, and the core does nothing else: it touches its own buffer only, in four accesses.\<close>

theorem putchar_buffers_line:
  assumes "env_keeps env (buf_bytes (putc_buf b core))" and "core < ncores"
    and "unat (peek32 s (putc_buf b core)) < 1019" and "c \<noteq> 10"
  shows "\<exists>s'. snrt_putchar tg env acquire release out b ncores core c s = Some (Ret c, s') \<and>
    line s' (putc_buf b core) = line s (putc_buf b core) @ [c] \<and>
    (let buf = putc_buf b core; n = peek32 s buf in trace s' = trace s @
      [Load32 buf n, Store32 buf (n + 1), Store8 (buf + off_data + n) c, Load32 buf (n + 1)])"
proof -
  have n: "unat (peek32 s (putc_buf b core)) < 1020" "peek32 s (putc_buf b core) \<noteq> 1019"
    using assms(3) by auto
  show ?thesis
    using n assms(2,4)
    by (simp add: snrt_putchar_def putc_append_eq [OF assms(1)] appended_line [OF assms(1)]
        appended_trace [OF assms(1)] Let_def)
qed

text \<open>The state at the interrupt, when the lock has been obtained in \<open>u\<close>.\<close>

definition posted :: "target \<Rightarrow> env \<Rightarrow> addr \<Rightarrow> machine \<Rightarrow> machine" where
  "posted tg env buf u = wr32 env msip0_word 1 (htif_write tg env (device_to_host_word tg) (buf + 4) u)"

lemma flush_posts:
  assumes "env_keeps env (buf_bytes (putc_buf b core))" and "core < ncores"
    and "unat (peek32 s (putc_buf b core)) < 1020"
    and "c = 10 \<or> unat (peek32 s (putc_buf b core)) = 1019"
    and "lock_leaves acquire release (buf_bytes (putc_buf b core))" and "mailboxes_apart tg (putc_buf b core)"
  obtains u where "header_set (putc_buf b core) out (peek32 s (putc_buf b core) + 1) (posted tg env (putc_buf b core) u)"
    and "line (posted tg env (putc_buf b core) u) (putc_buf b core) = line s (putc_buf b core) @ [c]"
    and "peek32 (posted tg env (putc_buf b core) u) (putc_buf b core) = peek32 s (putc_buf b core) + 1"
    and "snrt_putchar tg env acquire release out b ncores core c s =
      (case putc_finish tg env release (putc_buf b core) (posted tg env (putc_buf b core) u) of
         None \<Rightarrow> None | Some s \<Rightarrow> Some (Ret c, s))"
proof -
  let ?buf = "putc_buf b core"
  let ?u = "with_header env out ?buf (appended env ?buf c s)"
  have size: "peek32 (appended env ?buf c s) ?buf = peek32 s ?buf + 1"
    by (rule appended_size [OF assms(1,3)])
  have size_le: "unat (peek32 (appended env ?buf c s) ?buf) \<le> 1020"
    unfolding size using assms(3) by (subst unat_add_no_wrap) simp_all
  note head = with_header_effect [OF assms(1) size_le]
  obtain u where u: "acquire ?u = Some u" and uu: "same_buf ?buf u ?u"
    using assms(5) unfolding lock_leaves_def same_buf_def by blast
  have "same_buf ?buf (posted tg env ?buf u) ?u"
    unfolding posted_def
    by (rule same_buf_trans [OF mailbox_same [OF assms(1,6)] same_buf_trans [OF htif_write_same [OF assms(1,6)] uu]])
      (simp_all add: mailbox_words_def)
  then have "same_buf ?buf ?u (posted tg env ?buf u)" by (simp add: same_buf_def)
  note same = same_buf_line [OF this]
  have le: "unat (peek32 ?u ?buf) \<le> 1020" using head(2) size_le by simp
  have req: "putc_request tg env acquire out ?buf (appended env ?buf c s) = Some (posted tg env ?buf u)"
    by (simp add: putc_request_eq u posted_def)
  have flush: "peek32 s ?buf = 1019 \<or> c = 10"
    using assms(4) by (simp only: word_eq_iff_unat [of "peek32 s ?buf" 1019]) auto
  show ?thesis
  proof (rule that [of u])
    show "header_set ?buf out (peek32 s ?buf + 1) (posted tg env ?buf u)"
      using head(1) [of out] unfolding size same(3) [OF le] .
    show "line (posted tg env ?buf u) ?buf = line s ?buf @ [c]"
      using same(1) [OF le] head(3) [of out] appended_line [OF assms(1,3)] by simp
    show "peek32 (posted tg env ?buf u) ?buf = peek32 s ?buf + 1"
      using same(2) [OF le] head(2) [of out] size by simp
    show "snrt_putchar tg env acquire release out b ncores core c s =
      (case putc_finish tg env release ?buf (posted tg env ?buf u) of None \<Rightarrow> None | Some s \<Rightarrow> Some (Ret c, s))"
      using assms(2,3) flush req by (simp add: snrt_putchar_def putc_append_eq [OF assms(1)] Let_def)
  qed
qed

text \<open>The rest of the call: it returns once an answer is read, and the line is then empty.\<close>

lemma finish_None_iff: "putc_finish tg env release buf t = None \<longleftrightarrow> (\<forall>k. answer_at tg env k t = (0, 0))"
  using await_None_iff [of tg env t] by (auto simp: putc_finish_def Let_def split: option.splits)

lemma finish_empties:
  assumes "putc_finish tg env release buf t = Some s'" and "lock_leaves acquire release (buf_bytes buf)"
  shows "line s' buf = []"
proof -
  obtain x where s': "s' = release (wr32 env buf 0 x)"
    using assms(1) by (auto simp: putc_finish_def Let_def split: option.splits)
  have "same_buf buf s' (wr32 env buf 0 x)"
    using assms(2) by (simp add: s' lock_leaves_def same_buf_def)
  from same_buf_peek [OF this, of 0] have "peek32 s' buf = 0"
    by (simp add: peek32_wr32_same)
  then show ?thesis by (simp add: line_def)
qed

text \<open>A newline, or the character that fills the buffer, makes one request. When the interrupt is
  raised the header says write, the stream, the address and the length of the data, the data is
  the whole line, and the mailbox store comes just before the interrupt; the call then returns
  exactly when the host answers, and leaves an empty line.\<close>

theorem putchar_flushes_line:
  assumes "env_keeps env (buf_bytes (putc_buf b core))" and "core < ncores"
    and "unat (peek32 s (putc_buf b core)) < 1020"
    and "c = 10 \<or> unat (peek32 s (putc_buf b core)) = 1019"
    and "lock_leaves acquire release (buf_bytes (putc_buf b core))" and "mailboxes_apart tg (putc_buf b core)"
  shows "\<exists>t. header_set (putc_buf b core) out (peek32 s (putc_buf b core) + 1) t \<and>
    line t (putc_buf b core) = line s (putc_buf b core) @ [c] \<and>
    (\<exists>es. trace t = es @ Store32 (device_to_host_word tg) (putc_buf b core + 4)
        # (if tg = ChimeraConvolve then [Store32 (device_to_host_word tg + 4) 0] else []) @ [Store32 msip0_word 1]) \<and>
    (if \<forall>k. answer_at tg env k t = (0, 0)
     then snrt_putchar tg env acquire release out b ncores core c s = None
     else \<exists>s'. snrt_putchar tg env acquire release out b ncores core c s = Some (Ret c, s')
       \<and> line s' (putc_buf b core) = [])"
proof -
  let ?buf = "putc_buf b core"
  obtain u where u: "header_set ?buf out (peek32 s ?buf + 1) (posted tg env ?buf u)"
      "line (posted tg env ?buf u) ?buf = line s ?buf @ [c]"
      "snrt_putchar tg env acquire release out b ncores core c s =
        (case putc_finish tg env release ?buf (posted tg env ?buf u) of None \<Rightarrow> None | Some s \<Rightarrow> Some (Ret c, s))"
    using flush_posts [OF assms] by metis
  have "\<exists>es. trace (posted tg env ?buf u) = es @ Store32 (device_to_host_word tg) (?buf + 4)
      # (if tg = ChimeraConvolve then [Store32 (device_to_host_word tg + 4) 0] else []) @ [Store32 msip0_word 1]"
    by (cases tg) (simp_all add: posted_def htif_write_def)
  moreover have "if \<forall>k. answer_at tg env k (posted tg env ?buf u) = (0, 0)
      then snrt_putchar tg env acquire release out b ncores core c s = None
      else \<exists>s'. snrt_putchar tg env acquire release out b ncores core c s = Some (Ret c, s') \<and> line s' ?buf = []"
    using finish_None_iff [of tg env release ?buf "posted tg env ?buf u"]
      finish_empties [OF _ assms(5), of tg env "posted tg env ?buf u"]
    unfolding u(3) by (cases "putc_finish tg env release ?buf (posted tg env ?buf u)") auto
  ultimately show ?thesis
    using u(1,2) by blast
qed

text \<open>Nothing initialises the size of a buffer in \<open>.noinit\<close>: a core whose size word starts at
  1020 or more stores its first character outside the data array.\<close>

theorem putchar_uninitialised_buffer:
  assumes "env_keeps env (buf_bytes (putc_buf b core))" and "core < ncores"
    and "1020 \<le> unat (peek32 s (putc_buf b core))"
  shows "\<exists>s'. snrt_putchar tg env acquire release out b ncores core c s = Some (Fault OutOfBounds, s')"
  using assms(2,3) by (simp add: snrt_putchar_def putc_append_eq [OF assms(1)] Let_def)

subsection \<open>Witnesses\<close>

lemma above_apart:
  assumes "unat buf + 1056 \<le> unat w" and "unat w < 2 ^ 31" and "a \<in> buf_bytes buf"
  shows "4 \<le> a - w"
proof -
  define k where "k = a - buf"
  have a: "a = buf + k" and k: "unat k < 1056"
    using assms(3) by (simp_all add: buf_bytes_def k_def)
  have "unat a = unat buf + unat k"
    unfolding a using k assms(1,2) by (intro unat_add_no_wrap) simp
  then show ?thesis
    using k assms(1,2) by (simp add: word_le_nat_alt unat_sub_if')
qed

definition sample_buffers :: addr where "sample_buffers = 0x1C2000"

lemma sample_buf: "putc_buf sample_buffers 3 = 0x1C2C60"
  by (simp add: putc_buf_def sample_buffers_def putc_stride_def PUTC_BUFFER_LEN_def)

lemma mailbox_values:
  "host_to_device_word tg = 0x48000000" "device_to_host_word ChimeraOpen = 0x48000004"
  "device_to_host_word ChimeraConvolve = 0x48000008" "msip0_word = 0x2040000"
  by (simp_all add: host_to_device_word_def device_to_host_word_def msip0_word_def shared_data_def
      off_host_to_device_def off_device_to_host_def htif_bytes_def reg32_def reg_offsets)

lemma sample_apart: "mailboxes_apart tg (putc_buf sample_buffers 3)"
  unfolding mailboxes_apart_def sample_buf
  by (cases tg) (auto simp: mailbox_words_def mailbox_values intro!: above_apart [of "0x1C2C60"])

lemma sample_lock: "lock_leaves Some id B"
  by (simp add: lock_leaves_def)

text \<open>A host that answers every request at once.\<close>

definition answer_env :: env where
  "answer_env n h = h\<lparr>mem := store32 (mem h) (host_to_device_word ChimeraOpen) 1\<rparr>"

lemma answer_env_keeps: "env_keeps answer_env (buf_bytes (putc_buf sample_buffers 3))"
  using sample_apart [of ChimeraOpen]
  by (auto simp: env_keeps_def answer_env_def mailboxes_apart_def mailbox_words_def store32_other)

lemma answer_env_answers: "answer_at ChimeraOpen answer_env 0 t = (0, 1)"
  by (simp add: answer_at_def polled_def htif_read_def split_beta answer_env_def load32_store32_same)

lemma boot_line: "peek32 boot a = 0" "line boot a = []"
  by (simp_all add: line_def peek32_def boot_def load32_def)

theorem putchar_buffers_line_witness:
  "\<exists>s'. snrt_putchar ChimeraOpen quiet_env Some id 7 sample_buffers 9 3 65 boot = Some (Ret 65, s') \<and>
    line s' (putc_buf sample_buffers 3) = [65]"
  using putchar_buffers_line [of quiet_env sample_buffers 3 9 boot 65 ChimeraOpen Some id 7]
  by (auto simp: boot_line)

theorem putchar_flushes_line_witness:
  "\<exists>s'. snrt_putchar ChimeraOpen answer_env Some id 7 sample_buffers 9 3 10 boot = Some (Ret 10, s') \<and>
    line s' (putc_buf sample_buffers 3) = []"
proof -
  have "\<not> (\<forall>k. answer_at ChimeraOpen answer_env k t = (0, 0))" for t
    using answer_env_answers [of t] by (metis prod.inject zero_neq_one)
  then show ?thesis
    using putchar_flushes_line [OF answer_env_keeps, of 9 boot 10 Some id ChimeraOpen 7] sample_lock sample_apart
    by (auto simp: boot_line)
qed

definition noinit_boot :: machine where
  "noinit_boot = boot\<lparr>hw := (hw boot)\<lparr>mem := (\<lambda>_. 0xA5)\<rparr>\<rparr>"

theorem putchar_uninitialised_buffer_witness:
  "\<exists>s'. snrt_putchar ChimeraOpen quiet_env Some id 7 sample_buffers 9 3 65 noinit_boot = Some (Fault OutOfBounds, s')"
  using putchar_uninitialised_buffer [of quiet_env sample_buffers 3 9 noinit_boot ChimeraOpen Some id 7 65]
  by (simp add: noinit_boot_def peek32_def load32_def)

end
