(* ===== verification/Htif.thy ===== *)
theory Htif
  imports Prelude
begin

section \<open>The semihosting protocol between the cluster cores and the host\<close>

text \<open>
  A step relation for the two mailboxes of \<open>shared.h\<close>: the cores run the flush of
  \<open>snrt_putchar\<close> (\<open>putc.c\<close>) and the host the service loop of
  \<open>targets/chimera-convolve/host/src/test.c\<close> or of the host tests, each store, load and lock
  operation being one step, in any interleaving. A request is named by its core \<open>k\<close>; the
  address it stores is the non-zero number \<open>Suc k\<close>. The two hosts differ in the mailbox they
  answer in: the host tests write \<open>host_to_device\<close>, \<open>test.c\<close> writes \<open>device_to_host\<close>. The
  buffers are taken to be empty at the start, which \<open>putc.c\<close> does not ensure (see Putc).
\<close>

text \<open>A core is collecting characters, or at one of the statements of the flush.\<close>

datatype core_pc = Idle | WantLock | Post | Ring | Wait | Clear | Reset | Release

datatype host_pc = Poll | Ack nat | Print nat | Notify nat

datatype reply = ToDevice | ToHost

record htif =
  device_to_host :: nat
  host_to_device :: nat
  msip0 :: bool
  lock :: "nat option"
  pc :: "nat \<Rightarrow> core_pc"
  buf :: "nat \<Rightarrow> u8 list"
  host :: host_pc
  shown :: "(nat \<times> u8 list) list"
  input :: "nat \<Rightarrow> u8 list"

definition htif_init :: htif where
  "htif_init = \<lparr>device_to_host = 0, host_to_device = 0, msip0 = False, lock = None, pc = (\<lambda>_. Idle),
     buf = (\<lambda>_. []), host = Poll, shown = [], input = (\<lambda>_. [])\<rparr>"

definition flushes :: "u8 list \<Rightarrow> u8 \<Rightarrow> bool" where
  "flushes l c \<longleftrightarrow> length l = 1019 \<or> c = 10"

text \<open>\<open>input\<close> records every character a core has been given; no step reads it.\<close>

inductive core_step :: "nat \<Rightarrow> htif \<Rightarrow> htif \<Rightarrow> bool" for k where
  Put: "pc st k = Idle \<Longrightarrow> core_step k st (st\<lparr>buf := (buf st)(k := buf st k @ [c]),
    input := (input st)(k := input st k @ [c]),
    pc := (pc st)(k := if flushes (buf st k) c then WantLock else Idle)\<rparr>)"
| Lock: "pc st k = WantLock \<Longrightarrow> lock st = None \<Longrightarrow> core_step k st (st\<lparr>lock := Some k, pc := (pc st)(k := Post)\<rparr>)"
| Post: "pc st k = Post \<Longrightarrow> core_step k st (st\<lparr>device_to_host := Suc k, pc := (pc st)(k := Ring)\<rparr>)"
| Ring: "pc st k = Ring \<Longrightarrow> core_step k st (st\<lparr>msip0 := True, pc := (pc st)(k := Wait)\<rparr>)"
| Seen: "pc st k = Wait \<Longrightarrow> host_to_device st \<noteq> 0 \<Longrightarrow> core_step k st (st\<lparr>pc := (pc st)(k := Clear)\<rparr>)"
| Clear: "pc st k = Clear \<Longrightarrow> core_step k st (st\<lparr>host_to_device := 0, pc := (pc st)(k := Reset)\<rparr>)"
| Reset: "pc st k = Reset \<Longrightarrow> core_step k st (st\<lparr>buf := (buf st)(k := []), pc := (pc st)(k := Release)\<rparr>)"
| Release: "pc st k = Release \<Longrightarrow> core_step k st (st\<lparr>lock := None, pc := (pc st)(k := Idle)\<rparr>)"

inductive host_step :: "reply \<Rightarrow> htif \<Rightarrow> htif \<Rightarrow> bool" for r where
  Poll: "host st = Poll \<Longrightarrow> device_to_host st \<noteq> 0 \<Longrightarrow> host_step r st (st\<lparr>host := Ack (device_to_host st)\<rparr>)"
| Ack: "host st = Ack a \<Longrightarrow> host_step r st (st\<lparr>device_to_host := 0, host := Print a\<rparr>)"
| Print: "host st = Print a \<Longrightarrow>
    host_step r st (st\<lparr>shown := shown st @ [(a - 1, buf st (a - 1))], host := Notify a\<rparr>)"
| Notify: "host st = Notify a \<Longrightarrow> host_step r st (case r of
    ToDevice \<Rightarrow> st\<lparr>host_to_device := a, host := Poll\<rparr> | ToHost \<Rightarrow> st\<lparr>device_to_host := a, host := Poll\<rparr>)"

inductive step :: "reply \<Rightarrow> htif \<Rightarrow> htif \<Rightarrow> bool" for r where
  core: "core_step k st st' \<Longrightarrow> step r st st'"
| host: "host_step r st st' \<Longrightarrow> step r st st'"

inductive reachable :: "reply \<Rightarrow> htif \<Rightarrow> bool" for r where
  init: "reachable r htif_init"
| step: "reachable r st \<Longrightarrow> step r st st' \<Longrightarrow> reachable r st'"

inductive_cases core_stepE: "core_step k st st'"
inductive_cases host_stepE: "host_step r st st'"
inductive_cases stepE: "step r st st'"

subsection \<open>The invariant of the protocol\<close>

text \<open>The lock holder is the only core past the lock; the phase of its request fixes both
  mailboxes and the host.\<close>

definition in_flight :: "htif \<Rightarrow> nat \<Rightarrow> bool" where
  "in_flight st k \<longleftrightarrow> (device_to_host st = Suc k \<and> host_to_device st = 0 \<and> host st \<in> {Poll, Ack (Suc k)})
     \<or> (device_to_host st = 0 \<and> host_to_device st = 0 \<and> host st \<in> {Print (Suc k), Notify (Suc k)})
     \<or> (device_to_host st = 0 \<and> host_to_device st = Suc k \<and> host st = Poll)"

definition quiet :: "htif \<Rightarrow> bool" where
  "quiet st \<longleftrightarrow> device_to_host st = 0 \<and> host_to_device st = 0 \<and> host st = Poll"

definition phase_ok :: "htif \<Rightarrow> nat \<Rightarrow> bool" where
  "phase_ok st k = (case pc st k of
     Post \<Rightarrow> quiet st | Ring \<Rightarrow> in_flight st k | Wait \<Rightarrow> in_flight st k
   | Clear \<Rightarrow> device_to_host st = 0 \<and> host_to_device st = Suc k \<and> host st = Poll
   | Reset \<Rightarrow> quiet st | Release \<Rightarrow> quiet st | _ \<Rightarrow> False)"

definition protocol_inv :: "htif \<Rightarrow> bool" where
  "protocol_inv st \<longleftrightarrow> (case lock st of None \<Rightarrow> quiet st | Some k \<Rightarrow> phase_ok st k) \<and>
     (\<forall>j. lock st \<noteq> Some j \<longrightarrow> pc st j \<in> {Idle, WantLock})"

lemma lock_holder: "protocol_inv st \<Longrightarrow> pc st k \<notin> {Idle, WantLock} \<Longrightarrow> lock st = Some k"
  by (auto simp: protocol_inv_def)

lemma core_inv:
  assumes "core_step k st st'" and inv: "protocol_inv st"
  shows "protocol_inv st'"
  using assms(1)
proof cases
  case (Put c)
  then have "lock st \<noteq> Some k"
    using inv by (auto simp: protocol_inv_def phase_ok_def)
  with Put inv show ?thesis
    by (auto simp: protocol_inv_def phase_ok_def quiet_def in_flight_def split: option.splits core_pc.splits)
next
  case Lock
  with inv show ?thesis by (auto simp: protocol_inv_def phase_ok_def quiet_def)
next
  case Post
  with inv lock_holder [OF inv, of k] show ?thesis
    by (auto simp: protocol_inv_def phase_ok_def quiet_def in_flight_def)
next
  case Ring
  with inv lock_holder [OF inv, of k] show ?thesis by (auto simp: protocol_inv_def phase_ok_def in_flight_def)
next
  case Seen
  with inv lock_holder [OF inv, of k] show ?thesis by (auto simp: protocol_inv_def phase_ok_def in_flight_def)
next
  case Clear
  with inv lock_holder [OF inv, of k] show ?thesis by (auto simp: protocol_inv_def phase_ok_def quiet_def)
next
  case Reset
  with inv lock_holder [OF inv, of k] show ?thesis by (auto simp: protocol_inv_def phase_ok_def quiet_def)
next
  case Release
  with inv lock_holder [OF inv, of k] show ?thesis by (auto simp: protocol_inv_def phase_ok_def quiet_def)
qed

text \<open>The host acts only while the holder's request is in flight.\<close>

lemma host_in_flight:
  assumes "protocol_inv st" and "host st \<noteq> Poll \<or> device_to_host st \<noteq> 0"
  obtains k where "lock st = Some k" and "pc st k \<in> {Ring, Wait}" and "in_flight st k"
  using assms by (auto simp: protocol_inv_def phase_ok_def quiet_def split: option.splits core_pc.splits)

lemma host_inv:
  assumes "host_step ToDevice st st'" and inv: "protocol_inv st"
  shows "protocol_inv st'"
proof -
  from assms(1) have "host st \<noteq> Poll \<or> device_to_host st \<noteq> 0"
    by cases auto
  from host_in_flight [OF inv this] obtain k where k: "lock st = Some k" "pc st k \<in> {Ring, Wait}" "in_flight st k" .
  have others: "\<forall>j. j \<noteq> k \<longrightarrow> pc st j \<in> {Idle, WantLock}"
    using inv k(1) by (auto simp: protocol_inv_def)
  from assms(1) show ?thesis
    by cases (use k others in \<open>auto simp: protocol_inv_def phase_ok_def in_flight_def\<close>)
qed

subsection \<open>Lines\<close>

text \<open>A line under construction, and one that is flushed: it ends at its only newline or fills the
  buffer.\<close>

definition partial_line :: "u8 list \<Rightarrow> bool" where
  "partial_line l \<longleftrightarrow> 10 \<notin> set l \<and> length l < 1020"

definition complete_line :: "u8 list \<Rightarrow> bool" where
  "complete_line l \<longleftrightarrow> l \<noteq> [] \<and> (last l = 10 \<or> length l = 1020) \<and> 10 \<notin> set (butlast l) \<and> length l \<le> 1020"

lemma line_append:
  assumes "partial_line l"
  shows "flushes l c \<Longrightarrow> complete_line (l @ [c])" and "\<not> flushes l c \<Longrightarrow> partial_line (l @ [c])"
  using assms by (auto simp: partial_line_def complete_line_def flushes_def)

text \<open>What the host has printed for a core, and whether the line in the core's buffer is part of it.\<close>

definition printed_lines :: "htif \<Rightarrow> nat \<Rightarrow> u8 list list" where
  "printed_lines st k = map snd (filter (\<lambda>p. fst p = k) (shown st))"

definition buf_printed :: "htif \<Rightarrow> nat \<Rightarrow> bool" where
  "buf_printed st k \<longleftrightarrow> lock st = Some k \<and> (host st = Notify (Suc k) \<or> host_to_device st \<noteq> 0 \<or> pc st k = Reset)"

fun buf_state :: "core_pc \<Rightarrow> u8 list \<Rightarrow> bool" where
  "buf_state Idle l = partial_line l"
| "buf_state Release l = (l = [])"
| "buf_state _ l = complete_line l"

definition data_inv :: "htif \<Rightarrow> bool" where
  "data_inv st \<longleftrightarrow> (\<forall>k. buf_state (pc st k) (buf st k)
       \<and> input st k = concat (printed_lines st k) @ (if buf_printed st k then [] else buf st k))
     \<and> (\<forall>p\<in>set (shown st). complete_line (snd p))"

lemmas data_unfold = data_inv_def printed_lines_def buf_printed_def

lemma core_data:
  assumes "core_step k st st'" and inv: "protocol_inv st" and data: "data_inv st"
  shows "data_inv st'"
proof -
  have bs: "buf_state (pc st k) (buf st k)"
    using data by (simp add: data_inv_def)
  note held = lock_holder [OF inv, of k]
  from assms(1) show ?thesis
  proof cases
    case (Put c)
    then have "lock st \<noteq> Some k" "partial_line (buf st k)"
      using inv bs by (auto simp: protocol_inv_def phase_ok_def)
    then show ?thesis
      using data Put line_append [of "buf st k" c] by (auto simp: data_unfold)
  next
    case Lock
    with inv data bs show ?thesis by (auto simp: data_unfold protocol_inv_def quiet_def)
  next
    case Post
    with held data bs show ?thesis by (auto simp: data_unfold)
  next
    case Ring
    with held data bs show ?thesis by (auto simp: data_unfold)
  next
    case Seen
    with held data bs show ?thesis by (auto simp: data_unfold)
  next
    case Clear
    with held inv data bs show ?thesis by (auto simp: data_unfold protocol_inv_def phase_ok_def)
  next
    case Reset
    with held inv data bs show ?thesis by (auto simp: data_unfold protocol_inv_def phase_ok_def quiet_def)
  next
    case Release
    with held inv data bs show ?thesis
      by (auto simp: data_unfold partial_line_def protocol_inv_def phase_ok_def quiet_def)
  qed
qed

lemma host_data:
  assumes "host_step ToDevice st st'" and inv: "protocol_inv st" and data: "data_inv st"
  shows "data_inv st'"
proof -
  from assms(1) have "host st \<noteq> Poll \<or> device_to_host st \<noteq> 0"
    by cases auto
  from host_in_flight [OF inv this] obtain k where k: "lock st = Some k" "pc st k \<in> {Ring, Wait}" "in_flight st k" .
  have "complete_line (buf st k)"
    using data k(2) by (auto simp: data_inv_def dest: spec [of _ k])
  with assms(1) k data show ?thesis
    by cases (auto simp: data_unfold in_flight_def)
qed

lemma reachable_inv: "reachable ToDevice st \<Longrightarrow> protocol_inv st \<and> data_inv st"
proof (induction rule: reachable.induct)
  case init
  show ?case
    by (simp add: htif_init_def protocol_inv_def quiet_def data_inv_def printed_lines_def buf_printed_def partial_line_def)
next
  case (step st st')
  from step.hyps(2) show ?case
    by cases (use step.IH core_inv core_data host_inv host_data in blast)+
qed

text \<open>A host that answers in the wrong mailbox never lets a core past its wait.\<close>

lemma reachable_to_host: "reachable ToHost st \<Longrightarrow> host_to_device st = 0 \<and> (\<forall>k. pc st k \<notin> {Clear, Reset, Release})"
proof (induction rule: reachable.induct)
  case init
  show ?case by (simp add: htif_init_def)
next
  case (step st st')
  from step.hyps(2) step.IH show ?case
    by (auto elim!: stepE core_stepE host_stepE split: if_splits)
qed

subsection \<open>Progress of a flush\<close>

text \<open>The steps that are left until the holder of the lock has released it.\<close>

definition remaining :: "htif \<Rightarrow> nat \<Rightarrow> nat" where
  "remaining st k = (case pc st k of
     Post \<Rightarrow> 10 | Release \<Rightarrow> 1 | Reset \<Rightarrow> 2 | Clear \<Rightarrow> 3
   | Wait \<Rightarrow> 3 + (case host st of Poll \<Rightarrow> (if host_to_device st \<noteq> 0 then 1 else 5) | Ack _ \<Rightarrow> 4 | Print _ \<Rightarrow> 3 | Notify _ \<Rightarrow> 2)
   | Ring \<Rightarrow> 4 + (case host st of Poll \<Rightarrow> (if host_to_device st \<noteq> 0 then 1 else 5) | Ack _ \<Rightarrow> 4 | Print _ \<Rightarrow> 3 | Notify _ \<Rightarrow> 2)
   | _ \<Rightarrow> 0)"

text \<open>Some step of the holder or of the host is always possible, and brings the release nearer.\<close>

definition flush_nearer :: "htif \<Rightarrow> nat \<Rightarrow> htif \<Rightarrow> bool" where
  "flush_nearer st k st' \<longleftrightarrow> step ToDevice st st' \<and> remaining st' k < remaining st k \<and>
    (if pc st k = Release then lock st' = None \<and> pc st' k = Idle else lock st' = Some k)"

lemmas flush_defs = flush_nearer_def remaining_def phase_ok_def quiet_def in_flight_def

lemma flush_wait_step:
  assumes lock: "lock st = Some k" and wait: "pc st k = Wait" "in_flight st k"
  shows "\<exists>st'. flush_nearer st k st'"
proof -
  from wait(2) consider (poll) "host st = Poll" "device_to_host st = Suc k" "host_to_device st = 0"
    | (ack) "host st = Ack (Suc k)" | (print) "host st = Print (Suc k)" | (notify) "host st = Notify (Suc k)"
    | (seen) "host st = Poll" "host_to_device st = Suc k"
    by (auto simp: in_flight_def)
  then show ?thesis
  proof cases
    case poll
    with step.host [OF host_step.Poll [OF poll(1)], of ToDevice] wait lock show ?thesis
      by (fastforce simp: flush_defs)
  next
    case ack
    with step.host [OF host_step.Ack [OF ack], of ToDevice] wait lock show ?thesis
      by (fastforce simp: flush_defs)
  next
    case print
    with step.host [OF host_step.Print [OF print], of ToDevice] wait lock show ?thesis
      by (fastforce simp: flush_defs)
  next
    case notify
    with step.host [OF host_step.Notify [OF notify], of ToDevice] wait lock show ?thesis
      by (fastforce simp: flush_defs)
  next
    case seen
    with step.core [OF core_step.Seen [OF wait(1)], of ToDevice] wait lock show ?thesis
      by (fastforce simp: flush_defs)
  qed
qed

lemma flush_step:
  assumes "protocol_inv st" and lock: "lock st = Some k"
  shows "\<exists>st'. flush_nearer st k st'"
proof -
  have ok: "phase_ok st k" using assms by (simp add: protocol_inv_def)
  then consider (post) "pc st k = Post" | (ring) "pc st k = Ring" | (clear) "pc st k = Clear"
    | (reset) "pc st k = Reset" | (release) "pc st k = Release" | (wait) "pc st k = Wait" "in_flight st k"
    by (cases "pc st k") (auto simp: phase_ok_def)
  then show ?thesis
  proof cases
    case post
    with step.core [OF core_step.Post [OF post], of ToDevice] ok lock show ?thesis
      by (fastforce simp: flush_defs split: host_pc.splits)
  next
    case ring
    with step.core [OF core_step.Ring [OF ring], of ToDevice] ok lock show ?thesis
      by (fastforce simp: flush_defs split: host_pc.splits)
  next
    case clear
    with step.core [OF core_step.Clear [OF clear], of ToDevice] ok lock show ?thesis
      by (fastforce simp: flush_defs split: host_pc.splits)
  next
    case reset
    with step.core [OF core_step.Reset [OF reset], of ToDevice] ok lock show ?thesis
      by (fastforce simp: flush_defs split: host_pc.splits)
  next
    case release
    with step.core [OF core_step.Release [OF release], of ToDevice] ok lock show ?thesis
      by (fastforce simp: flush_defs split: host_pc.splits)
  next
    case wait
    then show ?thesis by (rule flush_wait_step [OF lock])
  qed
qed

subsection \<open>Properties\<close>


text \<open>C8: at most one core is past the lock, and while it is, its request is the only one in the
  mailboxes: both are empty before it is posted and after it has been answered and cleared.\<close>

theorem one_request_at_a_time:
  assumes "reachable ToDevice st"
  shows "(\<forall>i j. pc st i \<notin> {Idle, WantLock} \<and> pc st j \<notin> {Idle, WantLock} \<longrightarrow> i = j) \<and>
    (\<forall>k. pc st k \<notin> {Idle, WantLock} \<longrightarrow> lock st = Some k \<and> device_to_host st \<in> {0, Suc k} \<and> host_to_device st \<in> {0, Suc k}) \<and>
    (lock st = None \<longrightarrow> device_to_host st = 0 \<and> host_to_device st = 0 \<and> host st = Poll)"
proof -
  have inv: "protocol_inv st" using reachable_inv [OF assms] by simp
  have "device_to_host st \<in> {0, Suc k} \<and> host_to_device st \<in> {0, Suc k}" if "lock st = Some k" for k
    using inv that by (auto simp: protocol_inv_def phase_ok_def quiet_def in_flight_def split: core_pc.splits)
  then show ?thesis
    using lock_holder [OF inv] inv by (auto simp: protocol_inv_def quiet_def)
qed

lemma flush_can_finish:
  assumes "reachable ToDevice st" and "lock st = Some k"
  shows "\<exists>st'. (step ToDevice)\<^sup>*\<^sup>* st st' \<and> lock st' = None \<and> pc st' k = Idle"
  using assms
proof (induction "remaining st k" arbitrary: st rule: less_induct)
  case less
  have "protocol_inv st" using reachable_inv [OF less.prems(1)] by simp
  from flush_step [OF this less.prems(2)] obtain t where t: "flush_nearer st k t" ..
  then have st: "step ToDevice st t" by (simp add: flush_nearer_def)
  show ?case
  proof (cases "pc st k = Release")
    case True
    with t st show ?thesis by (auto simp: flush_nearer_def)
  next
    case False
    with t have "lock t = Some k" "remaining t k < remaining st k" by (simp_all add: flush_nearer_def)
    with less.hyps [of t] reachable.step [OF less.prems(1) st] show ?thesis
      by (meson converse_rtranclp_into_rtranclp st)
  qed
qed


lemma wrong_mailbox_round:
  assumes "reachable ToHost st" and "host st = Poll" and "device_to_host st = Suc k"
  shows "\<exists>st'. reachable ToHost st' \<and> host st' = Poll \<and> device_to_host st' = Suc k \<and> buf st' = buf st
    \<and> shown st' = shown st @ [(k, buf st k)]"
proof -
  let ?a = "st\<lparr>host := Ack (Suc k)\<rparr>"
  let ?b = "?a\<lparr>device_to_host := 0, host := Print (Suc k)\<rparr>"
  let ?c = "?b\<lparr>shown := shown st @ [(k, buf st k)], host := Notify (Suc k)\<rparr>"
  let ?d = "?c\<lparr>device_to_host := Suc k, host := Poll\<rparr>"
  have "host_step ToHost st ?a" using host_step.Poll [of st ToHost] assms(2,3) by simp
  moreover have "host_step ToHost ?a ?b" using host_step.Ack [of ?a "Suc k" ToHost] by simp
  moreover have "host_step ToHost ?b ?c" using host_step.Print [of ?b "Suc k" ToHost] by simp
  moreover have "host_step ToHost ?c ?d" using host_step.Notify [of ?c "Suc k" ToHost] by simp
  ultimately have "reachable ToHost ?d"
    using assms(1) by (meson reachable.step step.host)
  then show ?thesis by (intro exI [of _ ?d]) simp
qed

lemma first_request:
  "\<exists>st. reachable r st \<and> host st = Poll \<and> device_to_host st = 1 \<and> buf st 0 = [10] \<and> shown st = [] \<and>
    pc st 0 = Ring \<and> lock st = Some 0 \<and> input st 0 = [10] \<and> host_to_device st = 0"
proof -
  let ?a = "htif_init\<lparr>buf := (\<lambda>_. [])(0 := [10]), input := (\<lambda>_. [])(0 := [10]), pc := (\<lambda>_. Idle)(0 := WantLock)\<rparr>"
  let ?b = "?a\<lparr>lock := Some 0, pc := (\<lambda>_. Idle)(0 := Post)\<rparr>"
  let ?c = "?b\<lparr>device_to_host := 1, pc := (\<lambda>_. Idle)(0 := Ring)\<rparr>"
  have "core_step 0 htif_init ?a"
    using core_step.Put [of htif_init 0 10] by (simp add: htif_init_def flushes_def)
  moreover have "core_step 0 ?a ?b" using core_step.Lock [of ?a 0] by (simp add: htif_init_def)
  moreover have "core_step 0 ?b ?c" using core_step.Post [of ?b 0] by simp
  ultimately have "reachable r ?c"
    by (meson reachable.init reachable.step step.core)
  then show ?thesis by (intro exI [of _ ?c]) (simp add: htif_init_def)
qed

lemma repeated_line:
  "\<exists>st. reachable ToHost st \<and> host st = Poll \<and> device_to_host st = 1 \<and> buf st 0 = [10] \<and> shown st = replicate n (0, [10])"
proof (induction n)
  case 0
  show ?case using first_request [of ToHost] by auto
next
  case (Suc n)
  then obtain st where "reachable ToHost st" "host st = Poll" "device_to_host st = 1" "buf st 0 = [10]"
    "shown st = replicate n (0, [10])" by blast
  with wrong_mailbox_round [of st 0] show ?case
    by (auto simp: replicate_append_same)
qed

text \<open>The host of \<open>test.c\<close> answers in \<open>device_to_host\<close>, its own mailbox: no core ever gets
  past its wait, and the host serves the same request over and over, so that the console can
  show one line any number of times.\<close>

theorem wrong_mailbox:
  "(\<forall>st. reachable ToHost st \<longrightarrow> host_to_device st = 0 \<and> (\<forall>k. pc st k \<notin> {Clear, Reset, Release})) \<and>
   (\<forall>n. \<exists>st. reachable ToHost st \<and> shown st = replicate n (0, [10]))"
  using reachable_to_host repeated_line by blast

subsection \<open>Witnesses\<close>

lemma first_line_printed:
  "\<exists>st. reachable ToDevice st \<and> pc st 0 = Ring \<and> shown st = [(0, [10])] \<and> host st = Notify 1 \<and> lock st = Some 0"
proof -
  obtain st where st: "reachable ToDevice st" "host st = Poll" "device_to_host st = 1" "buf st 0 = [10]"
    "shown st = []" "pc st 0 = Ring" "lock st = Some 0"
    using first_request [of ToDevice] by blast
  let ?a = "st\<lparr>host := Ack 1\<rparr>"
  let ?b = "?a\<lparr>device_to_host := 0, host := Print 1\<rparr>"
  let ?c = "?b\<lparr>shown := [(0, [10])], host := Notify 1\<rparr>"
  have "host_step ToDevice st ?a" using host_step.Poll [of st ToDevice] st by simp
  moreover have "host_step ToDevice ?a ?b" using host_step.Ack [of ?a 1 ToDevice] by simp
  moreover have "host_step ToDevice ?b ?c" using host_step.Print [of ?b 1 ToDevice] st by simp
  ultimately have "reachable ToDevice ?c"
    using st(1) by (meson reachable.step step.host)
  with st show ?thesis by (intro exI [of _ ?c]) simp
qed


theorem one_request_at_a_time_witness:
  "\<exists>st. reachable ToDevice st \<and> pc st 0 = Ring \<and> (\<forall>j. pc st j \<notin> {Idle, WantLock} \<longrightarrow> j = 0)"
proof -
  obtain st where st: "reachable ToDevice st" "pc st 0 = Ring"
    using first_line_printed by blast
  moreover have "\<forall>j. pc st j \<notin> {Idle, WantLock} \<longrightarrow> j = 0"
    using one_request_at_a_time [OF st(1)] st(2) by auto
  ultimately show ?thesis by blast
qed


theorem wrong_mailbox_witness:
  "\<exists>st. reachable ToHost st \<and> shown st = [(0, [10]), (0, [10])] \<and> host_to_device st = 0"
proof -
  obtain st where st: "reachable ToHost st" "shown st = replicate 2 (0, [10])"
    using wrong_mailbox by blast
  moreover from st(1) have "host_to_device st = 0"
    using wrong_mailbox by blast
  ultimately show ?thesis by (auto simp: numeral_2_eq_2)
qed

end
