(* ===== verification/Padframe.thy ===== *)
theory Padframe
  imports SocMap
begin

section \<open>Pad configuration drivers of chimera-convolve\<close>

text \<open>
  \<open>targets/chimera-convolve/host/src/padframe_gpio.c\<close> has the same eighteen functions for each of
  sixteen pads: a setter and a getter for each of the eight signals of the pad's configuration
  register, and for the pad's multiplexer. They are modelled by one function of the operation
  (\<open>pad_exec\<close>), applied to each pad's registers as \<open>regs/padframe_gpio_regs.h\<close> defines them.
  \<open>padframe_hyperbus.c\<close> has a setter and a getter for each of the fifteen fields of one drive
  strength register. The bit-field operations come from OpenTitan's \<open>bitfield.h\<close>, which is not
  part of the repository: they are the parameter \<open>bitfield\<close>, and \<open>bitfield_spec\<close> states what
  its documentation promises.
\<close>

record bitfield =
  bit32_write :: "u32 \<Rightarrow> nat \<Rightarrow> bool \<Rightarrow> u32"
  bit32_read :: "u32 \<Rightarrow> nat \<Rightarrow> bool"
  field32_write :: "u32 \<Rightarrow> u32 \<times> nat \<Rightarrow> u32 \<Rightarrow> u32"
  field32_read :: "u32 \<Rightarrow> u32 \<times> nat \<Rightarrow> u32"

subsection \<open>GPIO pads\<close>

text \<open>The entities that can control a pad: its configuration register or a port of the pad's group.\<close>

datatype mux_sel = REGISTER | GPIOA nat | I2C0_SCL | I2C0_SDA | QSPI0_CSB0 | QSPI0_CSB1 | QSPI0_SCK
  | QSPI0_SD0 | QSPI0_SD1 | QSPI0_SD2 | QSPI0_SD3 | UART0_RX | UART0_TX

text \<open>A pad's registers, the places of its signals and the multiplexer values of its ports.\<close>

record pad_regs =
  CFG_REG_OFFSET :: addr
  CHIP2PAD_BIT :: nat
  DRV_FIELD :: "u32 \<times> nat"
  PDE_BIT :: nat
  PUE_BIT :: nat
  RXE_BIT :: nat
  SLW_BIT :: nat
  SMT_BIT :: nat
  TRIE_BIT :: nat
  MUX_SEL_REG_OFFSET :: addr
  MUX_SEL_VALUES :: "(mux_sel \<times> u32) list"

definition CONFIG_GPIO_0 :: pad_regs where
  "CONFIG_GPIO_0 = \<lparr>CFG_REG_OFFSET = 0x4, CHIP2PAD_BIT = 0, DRV_FIELD = (0x3, 1), PDE_BIT = 3, PUE_BIT = 4,
     RXE_BIT = 5, SLW_BIT = 6, SMT_BIT = 7, TRIE_BIT = 8, MUX_SEL_REG_OFFSET = 0x8,
     MUX_SEL_VALUES = [
       (REGISTER, 0x0), (GPIOA 0, 0x1), (I2C0_SCL, 0x2), (I2C0_SDA, 0x3), (QSPI0_CSB0, 0x4),
       (QSPI0_CSB1, 0x5), (QSPI0_SCK, 0x6), (QSPI0_SD0, 0x7), (QSPI0_SD1, 0x8), (QSPI0_SD2, 0x9),
       (QSPI0_SD3, 0xa), (UART0_RX, 0xb), (UART0_TX, 0xc)]\<rparr>"

definition CONFIG_GPIO_1 :: pad_regs where
  "CONFIG_GPIO_1 = \<lparr>CFG_REG_OFFSET = 0xc, CHIP2PAD_BIT = 0, DRV_FIELD = (0x3, 1), PDE_BIT = 3, PUE_BIT = 4,
     RXE_BIT = 5, SLW_BIT = 6, SMT_BIT = 7, TRIE_BIT = 8, MUX_SEL_REG_OFFSET = 0x10,
     MUX_SEL_VALUES = [
       (REGISTER, 0x0), (GPIOA 1, 0x1), (I2C0_SCL, 0x2), (I2C0_SDA, 0x3), (QSPI0_CSB0, 0x4),
       (QSPI0_CSB1, 0x5), (QSPI0_SCK, 0x6), (QSPI0_SD0, 0x7), (QSPI0_SD1, 0x8), (QSPI0_SD2, 0x9),
       (QSPI0_SD3, 0xa), (UART0_RX, 0xb), (UART0_TX, 0xc)]\<rparr>"

definition CONFIG_GPIO_2 :: pad_regs where
  "CONFIG_GPIO_2 = \<lparr>CFG_REG_OFFSET = 0x14, CHIP2PAD_BIT = 0, DRV_FIELD = (0x3, 1), PDE_BIT = 3, PUE_BIT = 4,
     RXE_BIT = 5, SLW_BIT = 6, SMT_BIT = 7, TRIE_BIT = 8, MUX_SEL_REG_OFFSET = 0x18,
     MUX_SEL_VALUES = [
       (REGISTER, 0x0), (GPIOA 2, 0x1), (I2C0_SCL, 0x2), (I2C0_SDA, 0x3), (QSPI0_CSB0, 0x4),
       (QSPI0_CSB1, 0x5), (QSPI0_SCK, 0x6), (QSPI0_SD0, 0x7), (QSPI0_SD1, 0x8), (QSPI0_SD2, 0x9),
       (QSPI0_SD3, 0xa), (UART0_RX, 0xb), (UART0_TX, 0xc)]\<rparr>"

definition CONFIG_GPIO_3 :: pad_regs where
  "CONFIG_GPIO_3 = \<lparr>CFG_REG_OFFSET = 0x1c, CHIP2PAD_BIT = 0, DRV_FIELD = (0x3, 1), PDE_BIT = 3, PUE_BIT = 4,
     RXE_BIT = 5, SLW_BIT = 6, SMT_BIT = 7, TRIE_BIT = 8, MUX_SEL_REG_OFFSET = 0x20,
     MUX_SEL_VALUES = [
       (REGISTER, 0x0), (GPIOA 3, 0x1), (I2C0_SCL, 0x2), (I2C0_SDA, 0x3), (QSPI0_CSB0, 0x4),
       (QSPI0_CSB1, 0x5), (QSPI0_SCK, 0x6), (QSPI0_SD0, 0x7), (QSPI0_SD1, 0x8), (QSPI0_SD2, 0x9),
       (QSPI0_SD3, 0xa), (UART0_RX, 0xb), (UART0_TX, 0xc)]\<rparr>"

definition CONFIG_GPIO_4 :: pad_regs where
  "CONFIG_GPIO_4 = \<lparr>CFG_REG_OFFSET = 0x24, CHIP2PAD_BIT = 0, DRV_FIELD = (0x3, 1), PDE_BIT = 3, PUE_BIT = 4,
     RXE_BIT = 5, SLW_BIT = 6, SMT_BIT = 7, TRIE_BIT = 8, MUX_SEL_REG_OFFSET = 0x28,
     MUX_SEL_VALUES = [
       (REGISTER, 0x0), (GPIOA 4, 0x1), (I2C0_SCL, 0x2), (I2C0_SDA, 0x3), (QSPI0_CSB0, 0x4),
       (QSPI0_CSB1, 0x5), (QSPI0_SCK, 0x6), (QSPI0_SD0, 0x7), (QSPI0_SD1, 0x8), (QSPI0_SD2, 0x9),
       (QSPI0_SD3, 0xa), (UART0_RX, 0xb), (UART0_TX, 0xc)]\<rparr>"

definition CONFIG_GPIO_5 :: pad_regs where
  "CONFIG_GPIO_5 = \<lparr>CFG_REG_OFFSET = 0x2c, CHIP2PAD_BIT = 0, DRV_FIELD = (0x3, 1), PDE_BIT = 3, PUE_BIT = 4,
     RXE_BIT = 5, SLW_BIT = 6, SMT_BIT = 7, TRIE_BIT = 8, MUX_SEL_REG_OFFSET = 0x30,
     MUX_SEL_VALUES = [
       (REGISTER, 0x0), (GPIOA 5, 0x1), (I2C0_SCL, 0x2), (I2C0_SDA, 0x3), (QSPI0_CSB0, 0x4),
       (QSPI0_CSB1, 0x5), (QSPI0_SCK, 0x6), (QSPI0_SD0, 0x7), (QSPI0_SD1, 0x8), (QSPI0_SD2, 0x9),
       (QSPI0_SD3, 0xa), (UART0_RX, 0xb), (UART0_TX, 0xc)]\<rparr>"

definition CONFIG_GPIO_6 :: pad_regs where
  "CONFIG_GPIO_6 = \<lparr>CFG_REG_OFFSET = 0x34, CHIP2PAD_BIT = 0, DRV_FIELD = (0x3, 1), PDE_BIT = 3, PUE_BIT = 4,
     RXE_BIT = 5, SLW_BIT = 6, SMT_BIT = 7, TRIE_BIT = 8, MUX_SEL_REG_OFFSET = 0x38,
     MUX_SEL_VALUES = [
       (REGISTER, 0x0), (GPIOA 6, 0x1), (I2C0_SCL, 0x2), (I2C0_SDA, 0x3), (QSPI0_CSB0, 0x4),
       (QSPI0_CSB1, 0x5), (QSPI0_SCK, 0x6), (QSPI0_SD0, 0x7), (QSPI0_SD1, 0x8), (QSPI0_SD2, 0x9),
       (QSPI0_SD3, 0xa), (UART0_RX, 0xb), (UART0_TX, 0xc)]\<rparr>"

definition CONFIG_GPIO_7 :: pad_regs where
  "CONFIG_GPIO_7 = \<lparr>CFG_REG_OFFSET = 0x3c, CHIP2PAD_BIT = 0, DRV_FIELD = (0x3, 1), PDE_BIT = 3, PUE_BIT = 4,
     RXE_BIT = 5, SLW_BIT = 6, SMT_BIT = 7, TRIE_BIT = 8, MUX_SEL_REG_OFFSET = 0x40,
     MUX_SEL_VALUES = [
       (REGISTER, 0x0), (GPIOA 7, 0x1), (I2C0_SCL, 0x2), (I2C0_SDA, 0x3), (QSPI0_CSB0, 0x4),
       (QSPI0_CSB1, 0x5), (QSPI0_SCK, 0x6), (QSPI0_SD0, 0x7), (QSPI0_SD1, 0x8), (QSPI0_SD2, 0x9),
       (QSPI0_SD3, 0xa), (UART0_RX, 0xb), (UART0_TX, 0xc)]\<rparr>"

definition CONFIG_GPIO_8 :: pad_regs where
  "CONFIG_GPIO_8 = \<lparr>CFG_REG_OFFSET = 0x44, CHIP2PAD_BIT = 0, DRV_FIELD = (0x3, 1), PDE_BIT = 3, PUE_BIT = 4,
     RXE_BIT = 5, SLW_BIT = 6, SMT_BIT = 7, TRIE_BIT = 8, MUX_SEL_REG_OFFSET = 0x48,
     MUX_SEL_VALUES = [
       (REGISTER, 0x0), (GPIOA 8, 0x1), (I2C0_SCL, 0x2), (I2C0_SDA, 0x3), (QSPI0_CSB0, 0x4),
       (QSPI0_CSB1, 0x5), (QSPI0_SCK, 0x6), (QSPI0_SD0, 0x7), (QSPI0_SD1, 0x8), (QSPI0_SD2, 0x9),
       (QSPI0_SD3, 0xa), (UART0_RX, 0xb), (UART0_TX, 0xc)]\<rparr>"

definition CONFIG_GPIO_9 :: pad_regs where
  "CONFIG_GPIO_9 = \<lparr>CFG_REG_OFFSET = 0x4c, CHIP2PAD_BIT = 0, DRV_FIELD = (0x3, 1), PDE_BIT = 3, PUE_BIT = 4,
     RXE_BIT = 5, SLW_BIT = 6, SMT_BIT = 7, TRIE_BIT = 8, MUX_SEL_REG_OFFSET = 0x50,
     MUX_SEL_VALUES = [
       (REGISTER, 0x0), (GPIOA 9, 0x1), (I2C0_SCL, 0x2), (I2C0_SDA, 0x3), (QSPI0_CSB0, 0x4),
       (QSPI0_CSB1, 0x5), (QSPI0_SCK, 0x6), (QSPI0_SD0, 0x7), (QSPI0_SD1, 0x8), (QSPI0_SD2, 0x9),
       (QSPI0_SD3, 0xa), (UART0_RX, 0xb), (UART0_TX, 0xc)]\<rparr>"

definition CONFIG_GPIO_10 :: pad_regs where
  "CONFIG_GPIO_10 = \<lparr>CFG_REG_OFFSET = 0x54, CHIP2PAD_BIT = 0, DRV_FIELD = (0x3, 1), PDE_BIT = 3, PUE_BIT = 4,
     RXE_BIT = 5, SLW_BIT = 6, SMT_BIT = 7, TRIE_BIT = 8, MUX_SEL_REG_OFFSET = 0x58,
     MUX_SEL_VALUES = [
       (REGISTER, 0x0), (GPIOA 10, 0x1), (I2C0_SCL, 0x2), (I2C0_SDA, 0x3), (QSPI0_CSB0, 0x4),
       (QSPI0_CSB1, 0x5), (QSPI0_SCK, 0x6), (QSPI0_SD0, 0x7), (QSPI0_SD1, 0x8), (QSPI0_SD2, 0x9),
       (QSPI0_SD3, 0xa), (UART0_RX, 0xb), (UART0_TX, 0xc)]\<rparr>"

definition CONFIG_GPIO_11 :: pad_regs where
  "CONFIG_GPIO_11 = \<lparr>CFG_REG_OFFSET = 0x5c, CHIP2PAD_BIT = 0, DRV_FIELD = (0x3, 1), PDE_BIT = 3, PUE_BIT = 4,
     RXE_BIT = 5, SLW_BIT = 6, SMT_BIT = 7, TRIE_BIT = 8, MUX_SEL_REG_OFFSET = 0x60,
     MUX_SEL_VALUES = [
       (REGISTER, 0x0), (GPIOA 11, 0x1), (I2C0_SCL, 0x2), (I2C0_SDA, 0x3), (QSPI0_CSB0, 0x4),
       (QSPI0_CSB1, 0x5), (QSPI0_SCK, 0x6), (QSPI0_SD0, 0x7), (QSPI0_SD1, 0x8), (QSPI0_SD2, 0x9),
       (QSPI0_SD3, 0xa), (UART0_RX, 0xb), (UART0_TX, 0xc)]\<rparr>"

definition CONFIG_GPIO_12 :: pad_regs where
  "CONFIG_GPIO_12 = \<lparr>CFG_REG_OFFSET = 0x64, CHIP2PAD_BIT = 0, DRV_FIELD = (0x3, 1), PDE_BIT = 3, PUE_BIT = 4,
     RXE_BIT = 5, SLW_BIT = 6, SMT_BIT = 7, TRIE_BIT = 8, MUX_SEL_REG_OFFSET = 0x68,
     MUX_SEL_VALUES = [
       (REGISTER, 0x0), (GPIOA 12, 0x1), (I2C0_SCL, 0x2), (I2C0_SDA, 0x3), (QSPI0_CSB0, 0x4),
       (QSPI0_CSB1, 0x5), (QSPI0_SCK, 0x6), (QSPI0_SD0, 0x7), (QSPI0_SD1, 0x8), (QSPI0_SD2, 0x9),
       (QSPI0_SD3, 0xa), (UART0_RX, 0xb), (UART0_TX, 0xc)]\<rparr>"

definition CONFIG_GPIO_13 :: pad_regs where
  "CONFIG_GPIO_13 = \<lparr>CFG_REG_OFFSET = 0x6c, CHIP2PAD_BIT = 0, DRV_FIELD = (0x3, 1), PDE_BIT = 3, PUE_BIT = 4,
     RXE_BIT = 5, SLW_BIT = 6, SMT_BIT = 7, TRIE_BIT = 8, MUX_SEL_REG_OFFSET = 0x70,
     MUX_SEL_VALUES = [
       (REGISTER, 0x0), (GPIOA 13, 0x1), (I2C0_SCL, 0x2), (I2C0_SDA, 0x3), (QSPI0_CSB0, 0x4),
       (QSPI0_CSB1, 0x5), (QSPI0_SCK, 0x6), (QSPI0_SD0, 0x7), (QSPI0_SD1, 0x8), (QSPI0_SD2, 0x9),
       (QSPI0_SD3, 0xa), (UART0_RX, 0xb), (UART0_TX, 0xc)]\<rparr>"

definition CONFIG_GPIO_14 :: pad_regs where
  "CONFIG_GPIO_14 = \<lparr>CFG_REG_OFFSET = 0x74, CHIP2PAD_BIT = 0, DRV_FIELD = (0x3, 1), PDE_BIT = 3, PUE_BIT = 4,
     RXE_BIT = 5, SLW_BIT = 6, SMT_BIT = 7, TRIE_BIT = 8, MUX_SEL_REG_OFFSET = 0x78,
     MUX_SEL_VALUES = [
       (REGISTER, 0x0), (GPIOA 14, 0x1), (I2C0_SCL, 0x2), (I2C0_SDA, 0x3), (QSPI0_CSB0, 0x4),
       (QSPI0_CSB1, 0x5), (QSPI0_SCK, 0x6), (QSPI0_SD0, 0x7), (QSPI0_SD1, 0x8), (QSPI0_SD2, 0x9),
       (QSPI0_SD3, 0xa), (UART0_RX, 0xb), (UART0_TX, 0xc)]\<rparr>"

definition CONFIG_GPIO_15 :: pad_regs where
  "CONFIG_GPIO_15 = \<lparr>CFG_REG_OFFSET = 0x7c, CHIP2PAD_BIT = 0, DRV_FIELD = (0x3, 1), PDE_BIT = 3, PUE_BIT = 4,
     RXE_BIT = 5, SLW_BIT = 6, SMT_BIT = 7, TRIE_BIT = 8, MUX_SEL_REG_OFFSET = 0x80,
     MUX_SEL_VALUES = [
       (REGISTER, 0x0), (GPIOA 15, 0x1), (I2C0_SCL, 0x2), (I2C0_SDA, 0x3), (QSPI0_CSB0, 0x4),
       (QSPI0_CSB1, 0x5), (QSPI0_SCK, 0x6), (QSPI0_SD0, 0x7), (QSPI0_SD1, 0x8), (QSPI0_SD2, 0x9),
       (QSPI0_SD3, 0xa), (UART0_RX, 0xb), (UART0_TX, 0xc)]\<rparr>"

text \<open>The enumeration of each pad in \<open>padframe_gpio.h\<close>: the values \<open>mux_set\<close> takes and
  \<open>mux_get\<close> returns.\<close>

definition padframe_aon_gpio_0_mux_sel_t :: "(mux_sel \<times> u32) list" where
  "padframe_aon_gpio_0_mux_sel_t = [
     (REGISTER, 0), (GPIOA 0, 1), (I2C0_SCL, 2), (I2C0_SDA, 3), (QSPI0_CSB0, 4), (QSPI0_CSB1, 5),
     (QSPI0_SCK, 6), (QSPI0_SD0, 7), (QSPI0_SD1, 8), (QSPI0_SD2, 9), (QSPI0_SD3, 10), (UART0_RX, 11),
     (UART0_TX, 12)]"

definition padframe_aon_gpio_1_mux_sel_t :: "(mux_sel \<times> u32) list" where
  "padframe_aon_gpio_1_mux_sel_t = [
     (REGISTER, 0), (GPIOA 1, 1), (I2C0_SCL, 2), (I2C0_SDA, 3), (QSPI0_CSB0, 4), (QSPI0_CSB1, 5),
     (QSPI0_SCK, 6), (QSPI0_SD0, 7), (QSPI0_SD1, 8), (QSPI0_SD2, 9), (QSPI0_SD3, 10), (UART0_RX, 11),
     (UART0_TX, 12)]"

definition padframe_aon_gpio_2_mux_sel_t :: "(mux_sel \<times> u32) list" where
  "padframe_aon_gpio_2_mux_sel_t = [
     (REGISTER, 0), (GPIOA 2, 1), (I2C0_SCL, 2), (I2C0_SDA, 3), (QSPI0_CSB0, 4), (QSPI0_CSB1, 5),
     (QSPI0_SCK, 6), (QSPI0_SD0, 7), (QSPI0_SD1, 8), (QSPI0_SD2, 9), (QSPI0_SD3, 10), (UART0_RX, 11),
     (UART0_TX, 12)]"

definition padframe_aon_gpio_3_mux_sel_t :: "(mux_sel \<times> u32) list" where
  "padframe_aon_gpio_3_mux_sel_t = [
     (REGISTER, 0), (GPIOA 3, 1), (I2C0_SCL, 2), (I2C0_SDA, 3), (QSPI0_CSB0, 4), (QSPI0_CSB1, 5),
     (QSPI0_SCK, 6), (QSPI0_SD0, 7), (QSPI0_SD1, 8), (QSPI0_SD2, 9), (QSPI0_SD3, 10), (UART0_RX, 11),
     (UART0_TX, 12)]"

definition padframe_aon_gpio_4_mux_sel_t :: "(mux_sel \<times> u32) list" where
  "padframe_aon_gpio_4_mux_sel_t = [
     (REGISTER, 0), (GPIOA 4, 1), (I2C0_SCL, 2), (I2C0_SDA, 3), (QSPI0_CSB0, 4), (QSPI0_CSB1, 5),
     (QSPI0_SCK, 6), (QSPI0_SD0, 7), (QSPI0_SD1, 8), (QSPI0_SD2, 9), (QSPI0_SD3, 10), (UART0_RX, 11),
     (UART0_TX, 12)]"

definition padframe_aon_gpio_5_mux_sel_t :: "(mux_sel \<times> u32) list" where
  "padframe_aon_gpio_5_mux_sel_t = [
     (REGISTER, 0), (GPIOA 5, 1), (I2C0_SCL, 2), (I2C0_SDA, 3), (QSPI0_CSB0, 4), (QSPI0_CSB1, 5),
     (QSPI0_SCK, 6), (QSPI0_SD0, 7), (QSPI0_SD1, 8), (QSPI0_SD2, 9), (QSPI0_SD3, 10), (UART0_RX, 11),
     (UART0_TX, 12)]"

definition padframe_aon_gpio_6_mux_sel_t :: "(mux_sel \<times> u32) list" where
  "padframe_aon_gpio_6_mux_sel_t = [
     (REGISTER, 0), (GPIOA 6, 1), (I2C0_SCL, 2), (I2C0_SDA, 3), (QSPI0_CSB0, 4), (QSPI0_CSB1, 5),
     (QSPI0_SCK, 6), (QSPI0_SD0, 7), (QSPI0_SD1, 8), (QSPI0_SD2, 9), (QSPI0_SD3, 10), (UART0_RX, 11),
     (UART0_TX, 12)]"

definition padframe_aon_gpio_7_mux_sel_t :: "(mux_sel \<times> u32) list" where
  "padframe_aon_gpio_7_mux_sel_t = [
     (REGISTER, 0), (GPIOA 7, 1), (I2C0_SCL, 2), (I2C0_SDA, 3), (QSPI0_CSB0, 4), (QSPI0_CSB1, 5),
     (QSPI0_SCK, 6), (QSPI0_SD0, 7), (QSPI0_SD1, 8), (QSPI0_SD2, 9), (QSPI0_SD3, 10), (UART0_RX, 11),
     (UART0_TX, 12)]"

definition padframe_aon_gpio_8_mux_sel_t :: "(mux_sel \<times> u32) list" where
  "padframe_aon_gpio_8_mux_sel_t = [
     (REGISTER, 0), (GPIOA 8, 1), (I2C0_SCL, 2), (I2C0_SDA, 3), (QSPI0_CSB0, 4), (QSPI0_CSB1, 5),
     (QSPI0_SCK, 6), (QSPI0_SD0, 7), (QSPI0_SD1, 8), (QSPI0_SD2, 9), (QSPI0_SD3, 10), (UART0_RX, 11),
     (UART0_TX, 12)]"

definition padframe_aon_gpio_9_mux_sel_t :: "(mux_sel \<times> u32) list" where
  "padframe_aon_gpio_9_mux_sel_t = [
     (REGISTER, 0), (GPIOA 9, 1), (I2C0_SCL, 2), (I2C0_SDA, 3), (QSPI0_CSB0, 4), (QSPI0_CSB1, 5),
     (QSPI0_SCK, 6), (QSPI0_SD0, 7), (QSPI0_SD1, 8), (QSPI0_SD2, 9), (QSPI0_SD3, 10), (UART0_RX, 11),
     (UART0_TX, 12)]"

definition padframe_aon_gpio_10_mux_sel_t :: "(mux_sel \<times> u32) list" where
  "padframe_aon_gpio_10_mux_sel_t = [
     (REGISTER, 0), (GPIOA 10, 1), (I2C0_SCL, 2), (I2C0_SDA, 3), (QSPI0_CSB0, 4), (QSPI0_CSB1, 5),
     (QSPI0_SCK, 6), (QSPI0_SD0, 7), (QSPI0_SD1, 8), (QSPI0_SD2, 9), (QSPI0_SD3, 10), (UART0_RX, 11),
     (UART0_TX, 12)]"

definition padframe_aon_gpio_11_mux_sel_t :: "(mux_sel \<times> u32) list" where
  "padframe_aon_gpio_11_mux_sel_t = [
     (REGISTER, 0), (GPIOA 11, 1), (I2C0_SCL, 2), (I2C0_SDA, 3), (QSPI0_CSB0, 4), (QSPI0_CSB1, 5),
     (QSPI0_SCK, 6), (QSPI0_SD0, 7), (QSPI0_SD1, 8), (QSPI0_SD2, 9), (QSPI0_SD3, 10), (UART0_RX, 11),
     (UART0_TX, 12)]"

definition padframe_aon_gpio_12_mux_sel_t :: "(mux_sel \<times> u32) list" where
  "padframe_aon_gpio_12_mux_sel_t = [
     (REGISTER, 0), (GPIOA 12, 1), (I2C0_SCL, 2), (I2C0_SDA, 3), (QSPI0_CSB0, 4), (QSPI0_CSB1, 5),
     (QSPI0_SCK, 6), (QSPI0_SD0, 7), (QSPI0_SD1, 8), (QSPI0_SD2, 9), (QSPI0_SD3, 10), (UART0_RX, 11),
     (UART0_TX, 12)]"

definition padframe_aon_gpio_13_mux_sel_t :: "(mux_sel \<times> u32) list" where
  "padframe_aon_gpio_13_mux_sel_t = [
     (REGISTER, 0), (GPIOA 13, 1), (I2C0_SCL, 2), (I2C0_SDA, 3), (QSPI0_CSB0, 4), (QSPI0_CSB1, 5),
     (QSPI0_SCK, 6), (QSPI0_SD0, 7), (QSPI0_SD1, 8), (QSPI0_SD2, 9), (QSPI0_SD3, 10), (UART0_RX, 11),
     (UART0_TX, 12)]"

definition padframe_aon_gpio_14_mux_sel_t :: "(mux_sel \<times> u32) list" where
  "padframe_aon_gpio_14_mux_sel_t = [
     (REGISTER, 0), (GPIOA 14, 1), (I2C0_SCL, 2), (I2C0_SDA, 3), (QSPI0_CSB0, 4), (QSPI0_CSB1, 5),
     (QSPI0_SCK, 6), (QSPI0_SD0, 7), (QSPI0_SD1, 8), (QSPI0_SD2, 9), (QSPI0_SD3, 10), (UART0_RX, 11),
     (UART0_TX, 12)]"

definition padframe_aon_gpio_15_mux_sel_t :: "(mux_sel \<times> u32) list" where
  "padframe_aon_gpio_15_mux_sel_t = [
     (REGISTER, 0), (GPIOA 15, 1), (I2C0_SCL, 2), (I2C0_SDA, 3), (QSPI0_CSB0, 4), (QSPI0_CSB1, 5),
     (QSPI0_SCK, 6), (QSPI0_SD0, 7), (QSPI0_SD1, 8), (QSPI0_SD2, 9), (QSPI0_SD3, 10), (UART0_RX, 11),
     (UART0_TX, 12)]"

definition padframe_aon_gpio_mux_sel_t :: "(mux_sel \<times> u32) list list" where
  "padframe_aon_gpio_mux_sel_t = [
     padframe_aon_gpio_0_mux_sel_t, padframe_aon_gpio_1_mux_sel_t, padframe_aon_gpio_2_mux_sel_t,
     padframe_aon_gpio_3_mux_sel_t, padframe_aon_gpio_4_mux_sel_t, padframe_aon_gpio_5_mux_sel_t,
     padframe_aon_gpio_6_mux_sel_t, padframe_aon_gpio_7_mux_sel_t, padframe_aon_gpio_8_mux_sel_t,
     padframe_aon_gpio_9_mux_sel_t, padframe_aon_gpio_10_mux_sel_t, padframe_aon_gpio_11_mux_sel_t,
     padframe_aon_gpio_12_mux_sel_t, padframe_aon_gpio_13_mux_sel_t, padframe_aon_gpio_14_mux_sel_t,
     padframe_aon_gpio_15_mux_sel_t]"

datatype pad_signal = Chip2pad | Drv | Pde | Pue | Rxe | Slw | Smt | Trie

datatype pad_op = CfgSet pad_signal u8 | CfgGet pad_signal | MuxSet u32 | MuxGet

fun signal_write :: "bitfield \<Rightarrow> pad_regs \<Rightarrow> pad_signal \<Rightarrow> u8 \<Rightarrow> u32 \<Rightarrow> u32" where
  "signal_write b p Chip2pad v reg = bit32_write b reg (CHIP2PAD_BIT p) (v \<noteq> 0)"
| "signal_write b p Drv v reg = field32_write b reg (DRV_FIELD p) (ucast v)"
| "signal_write b p Pde v reg = bit32_write b reg (PDE_BIT p) (v \<noteq> 0)"
| "signal_write b p Pue v reg = bit32_write b reg (PUE_BIT p) (v \<noteq> 0)"
| "signal_write b p Rxe v reg = bit32_write b reg (RXE_BIT p) (v \<noteq> 0)"
| "signal_write b p Slw v reg = bit32_write b reg (SLW_BIT p) (v \<noteq> 0)"
| "signal_write b p Smt v reg = bit32_write b reg (SMT_BIT p) (v \<noteq> 0)"
| "signal_write b p Trie v reg = bit32_write b reg (TRIE_BIT p) (v \<noteq> 0)"

fun signal_read :: "bitfield \<Rightarrow> pad_regs \<Rightarrow> pad_signal \<Rightarrow> u32 \<Rightarrow> u8" where
  "signal_read b p Chip2pad reg = of_bool (bit32_read b reg (CHIP2PAD_BIT p))"
| "signal_read b p Drv reg = ucast (field32_read b reg (DRV_FIELD p))"
| "signal_read b p Pde reg = of_bool (bit32_read b reg (PDE_BIT p))"
| "signal_read b p Pue reg = of_bool (bit32_read b reg (PUE_BIT p))"
| "signal_read b p Rxe reg = of_bool (bit32_read b reg (RXE_BIT p))"
| "signal_read b p Slw reg = of_bool (bit32_read b reg (SLW_BIT p))"
| "signal_read b p Smt reg = of_bool (bit32_read b reg (SMT_BIT p))"
| "signal_read b p Trie reg = of_bool (bit32_read b reg (TRIE_BIT p))"

text \<open>The result is the value a getter returns; a setter returns none, here 0.\<close>

fun pad_exec :: "pad_regs \<Rightarrow> bitfield \<Rightarrow> env \<Rightarrow> pad_op \<Rightarrow> machine \<Rightarrow> u32 \<times> machine" where
  "pad_exec p b env (CfgSet sig v) s =
     (let address = PADFRAME_GPIO_BASE + CFG_REG_OFFSET p;
          (reg, s) = rd32 env address s;
          reg = signal_write b p sig v reg
      in (0, wr32 env address reg s))"
| "pad_exec p b env (CfgGet sig) s =
     (let address = PADFRAME_GPIO_BASE + CFG_REG_OFFSET p;
          (reg, s) = rd32 env address s
      in (ucast (signal_read b p sig reg), s))"
| "pad_exec p b env (MuxSet sel) s =
     (let address = PADFRAME_GPIO_BASE + MUX_SEL_REG_OFFSET p
      in (0, wr32 env address (sel AND 15) s))"
| "pad_exec p b env MuxGet s =
     (let address = PADFRAME_GPIO_BASE + MUX_SEL_REG_OFFSET p;
          (reg, s) = rd32 env address s
      in (reg AND 15, s))"

definition padframe_aon_gpio_0 :: "bitfield \<Rightarrow> env \<Rightarrow> pad_op \<Rightarrow> machine \<Rightarrow> u32 \<times> machine" where
  "padframe_aon_gpio_0 = pad_exec CONFIG_GPIO_0"

definition padframe_aon_gpio_1 :: "bitfield \<Rightarrow> env \<Rightarrow> pad_op \<Rightarrow> machine \<Rightarrow> u32 \<times> machine" where
  "padframe_aon_gpio_1 = pad_exec CONFIG_GPIO_1"

definition padframe_aon_gpio_2 :: "bitfield \<Rightarrow> env \<Rightarrow> pad_op \<Rightarrow> machine \<Rightarrow> u32 \<times> machine" where
  "padframe_aon_gpio_2 = pad_exec CONFIG_GPIO_2"

definition padframe_aon_gpio_3 :: "bitfield \<Rightarrow> env \<Rightarrow> pad_op \<Rightarrow> machine \<Rightarrow> u32 \<times> machine" where
  "padframe_aon_gpio_3 = pad_exec CONFIG_GPIO_3"

definition padframe_aon_gpio_4 :: "bitfield \<Rightarrow> env \<Rightarrow> pad_op \<Rightarrow> machine \<Rightarrow> u32 \<times> machine" where
  "padframe_aon_gpio_4 = pad_exec CONFIG_GPIO_4"

definition padframe_aon_gpio_5 :: "bitfield \<Rightarrow> env \<Rightarrow> pad_op \<Rightarrow> machine \<Rightarrow> u32 \<times> machine" where
  "padframe_aon_gpio_5 = pad_exec CONFIG_GPIO_5"

definition padframe_aon_gpio_6 :: "bitfield \<Rightarrow> env \<Rightarrow> pad_op \<Rightarrow> machine \<Rightarrow> u32 \<times> machine" where
  "padframe_aon_gpio_6 = pad_exec CONFIG_GPIO_6"

definition padframe_aon_gpio_7 :: "bitfield \<Rightarrow> env \<Rightarrow> pad_op \<Rightarrow> machine \<Rightarrow> u32 \<times> machine" where
  "padframe_aon_gpio_7 = pad_exec CONFIG_GPIO_7"

definition padframe_aon_gpio_8 :: "bitfield \<Rightarrow> env \<Rightarrow> pad_op \<Rightarrow> machine \<Rightarrow> u32 \<times> machine" where
  "padframe_aon_gpio_8 = pad_exec CONFIG_GPIO_8"

definition padframe_aon_gpio_9 :: "bitfield \<Rightarrow> env \<Rightarrow> pad_op \<Rightarrow> machine \<Rightarrow> u32 \<times> machine" where
  "padframe_aon_gpio_9 = pad_exec CONFIG_GPIO_9"

definition padframe_aon_gpio_10 :: "bitfield \<Rightarrow> env \<Rightarrow> pad_op \<Rightarrow> machine \<Rightarrow> u32 \<times> machine" where
  "padframe_aon_gpio_10 = pad_exec CONFIG_GPIO_10"

definition padframe_aon_gpio_11 :: "bitfield \<Rightarrow> env \<Rightarrow> pad_op \<Rightarrow> machine \<Rightarrow> u32 \<times> machine" where
  "padframe_aon_gpio_11 = pad_exec CONFIG_GPIO_11"

definition padframe_aon_gpio_12 :: "bitfield \<Rightarrow> env \<Rightarrow> pad_op \<Rightarrow> machine \<Rightarrow> u32 \<times> machine" where
  "padframe_aon_gpio_12 = pad_exec CONFIG_GPIO_12"

definition padframe_aon_gpio_13 :: "bitfield \<Rightarrow> env \<Rightarrow> pad_op \<Rightarrow> machine \<Rightarrow> u32 \<times> machine" where
  "padframe_aon_gpio_13 = pad_exec CONFIG_GPIO_13"

definition padframe_aon_gpio_14 :: "bitfield \<Rightarrow> env \<Rightarrow> pad_op \<Rightarrow> machine \<Rightarrow> u32 \<times> machine" where
  "padframe_aon_gpio_14 = pad_exec CONFIG_GPIO_14"

definition padframe_aon_gpio_15 :: "bitfield \<Rightarrow> env \<Rightarrow> pad_op \<Rightarrow> machine \<Rightarrow> u32 \<times> machine" where
  "padframe_aon_gpio_15 = pad_exec CONFIG_GPIO_15"

text \<open>All pads, by number.\<close>

definition padframe_aon_gpio :: "(bitfield \<Rightarrow> env \<Rightarrow> pad_op \<Rightarrow> machine \<Rightarrow> u32 \<times> machine) list" where
  "padframe_aon_gpio = [padframe_aon_gpio_0, padframe_aon_gpio_1, padframe_aon_gpio_2, padframe_aon_gpio_3, padframe_aon_gpio_4, padframe_aon_gpio_5, padframe_aon_gpio_6, padframe_aon_gpio_7, padframe_aon_gpio_8, padframe_aon_gpio_9, padframe_aon_gpio_10, padframe_aon_gpio_11, padframe_aon_gpio_12, padframe_aon_gpio_13, padframe_aon_gpio_14, padframe_aon_gpio_15]"

subsection \<open>Hyperbus pads\<close>

definition CHIMERAPD_HYPERBUS_PADS_DRV_STRENGTH_REG_OFFSET :: addr where
  "CHIMERAPD_HYPERBUS_PADS_DRV_STRENGTH_REG_OFFSET = 0x0"

datatype hyper_pad = CS0 | CS1 | CLK | CLKN | RST | RWDS | DQ0 | DQ1 | DQ2 | DQ3 | DQ4 | DQ5 | DQ6 | DQ7 | RESERVED

fun HYPERBUS_DRV_FIELD :: "hyper_pad \<Rightarrow> u32 \<times> nat" where
  "HYPERBUS_DRV_FIELD CS0 = (0x3, 0)"
| "HYPERBUS_DRV_FIELD CS1 = (0x3, 2)"
| "HYPERBUS_DRV_FIELD CLK = (0x3, 4)"
| "HYPERBUS_DRV_FIELD CLKN = (0x3, 6)"
| "HYPERBUS_DRV_FIELD RST = (0x3, 8)"
| "HYPERBUS_DRV_FIELD RWDS = (0x3, 10)"
| "HYPERBUS_DRV_FIELD DQ0 = (0x3, 12)"
| "HYPERBUS_DRV_FIELD DQ1 = (0x3, 14)"
| "HYPERBUS_DRV_FIELD DQ2 = (0x3, 16)"
| "HYPERBUS_DRV_FIELD DQ3 = (0x3, 18)"
| "HYPERBUS_DRV_FIELD DQ4 = (0x3, 20)"
| "HYPERBUS_DRV_FIELD DQ5 = (0x3, 22)"
| "HYPERBUS_DRV_FIELD DQ6 = (0x3, 24)"
| "HYPERBUS_DRV_FIELD DQ7 = (0x3, 26)"
| "HYPERBUS_DRV_FIELD RESERVED = (0xf, 28)"

definition padframe_hyperbus_drv_strength_addr :: addr where
  "padframe_hyperbus_drv_strength_addr = PADFRAME_HYPERBUS_BASE + CHIMERAPD_HYPERBUS_PADS_DRV_STRENGTH_REG_OFFSET"

definition padframe_hyperbus_cfg_drv_set :: "hyper_pad \<Rightarrow> bitfield \<Rightarrow> env \<Rightarrow> u8 \<Rightarrow> machine \<Rightarrow> machine" where
  "padframe_hyperbus_cfg_drv_set pad b env value s =
     (let address = padframe_hyperbus_drv_strength_addr;
          (reg, s) = rd32 env address s;
          reg = field32_write b reg (HYPERBUS_DRV_FIELD pad) (ucast value)
      in wr32 env address reg s)"

definition padframe_hyperbus_cfg_drv_get :: "hyper_pad \<Rightarrow> bitfield \<Rightarrow> env \<Rightarrow> machine \<Rightarrow> u8 \<times> machine" where
  "padframe_hyperbus_cfg_drv_get pad b env s =
     (let address = padframe_hyperbus_drv_strength_addr;
          (reg, s) = rd32 env address s
      in (ucast (field32_read b reg (HYPERBUS_DRV_FIELD pad)), s))"

subsection \<open>What the bit-field operations promise\<close>

text \<open>
  The contract of OpenTitan's \<open>bitfield.h\<close>: reading and writing one bit, and reading and writing
  the field of a mask at an index, where the value written is cut to the mask.
\<close>

definition bitfield_spec :: "bitfield \<Rightarrow> bool" where
  "bitfield_spec b \<longleftrightarrow>
     (\<forall>r i. i < 32 \<longrightarrow> bit32_read b r i = bit r i) \<and>
     (\<forall>r i v. i < 32 \<longrightarrow> bit32_write b r i v = (if v then set_bit i r else unset_bit i r)) \<and>
     (\<forall>r m i. i < 32 \<longrightarrow> field32_read b r (m, i) = drop_bit i r AND m) \<and>
     (\<forall>r m i v. i < 32 \<longrightarrow>
        field32_write b r (m, i) v = r AND NOT (push_bit i m) OR push_bit i (v AND m))"

text \<open>The operations as the contract's equations, for evaluation.\<close>

definition plain_bitfield :: bitfield where
  "plain_bitfield = \<lparr>bit32_write = (\<lambda>r i v. if v then set_bit i r else unset_bit i r),
     bit32_read = bit,
     field32_write = (\<lambda>r (m, i) v. r AND NOT (push_bit i m) OR push_bit i (v AND m)),
     field32_read = (\<lambda>r (m, i). drop_bit i r AND m)\<rparr>"

lemma plain_bitfield_spec: "bitfield_spec plain_bitfield"
  by (simp add: bitfield_spec_def plain_bitfield_def)

lemma bitfield_specD:
  assumes "bitfield_spec b" and "i < 32"
  shows "bit32_read b r i = bit r i"
    and "bit32_write b r i v = (if v then set_bit i r else unset_bit i r)"
    and "field32_read b r (m, i) = drop_bit i r AND m"
    and "field32_write b r (m, i) w = r AND NOT (push_bit i m) OR push_bit i (w AND m)"
  using assms by (simp_all add: bitfield_spec_def)

text \<open>A field reads back what was written to it, cut to the mask; a field elsewhere is kept.\<close>

lemma field_read_write:
  fixes r m v :: u32
  assumes "drop_bit i (push_bit i m) = m"
  shows "drop_bit i (r AND NOT (push_bit i m) OR push_bit i (v AND m)) AND m = v AND m"
proof -
  have "bit (push_bit i m) (i + n) = bit m n" for n
    using arg_cong [OF assms, of "\<lambda>w. bit w n"] by (simp only: bit_drop_bit_eq comp_def)
  then have b: "i + n < 32" if "bit m n" for n
    using that bit_imp_le_length [of "push_bit i m" "i + n"] by simp
  show ?thesis
    by (rule bit_word_eqI) (auto simp: bit_simps dest: b)
qed

lemma field_read_other:
  fixes r m v :: u32
  assumes "push_bit i m AND push_bit j k = 0"
  shows "drop_bit j (r AND NOT (push_bit i m) OR push_bit i (v AND m)) AND k = drop_bit j r AND k"
proof (rule bit_word_eqI)
  fix n
  have "\<not> (bit (push_bit i m) (j + n) \<and> bit (push_bit j k) (j + n))"
    using arg_cong [OF assms, of "\<lambda>w. bit w (j + n)"] by (simp add: bit_simps)
  then show "bit (drop_bit j (r AND NOT (push_bit i m) OR push_bit i (v AND m)) AND k) n
      = bit (drop_bit j r AND k) n"
    by (auto simp: bit_simps dest: bit_imp_le_length)
qed

subsection \<open>The pads\<close>

text \<open>The ports of pad \<open>i\<close> and their numbers.\<close>

definition mux_table :: "nat \<Rightarrow> (mux_sel \<times> u32) list" where
  "mux_table i = zip [REGISTER, GPIOA i, I2C0_SCL, I2C0_SDA, QSPI0_CSB0, QSPI0_CSB1, QSPI0_SCK,
     QSPI0_SD0, QSPI0_SD1, QSPI0_SD2, QSPI0_SD3, UART0_RX, UART0_TX] (map of_nat [0..<13])"

lemma mux_table_values: "mux_table i = [(REGISTER, 0), (GPIOA i, 1), (I2C0_SCL, 2), (I2C0_SDA, 3),
  (QSPI0_CSB0, 4), (QSPI0_CSB1, 5), (QSPI0_SCK, 6), (QSPI0_SD0, 7), (QSPI0_SD1, 8), (QSPI0_SD2, 9),
  (QSPI0_SD3, 10), (UART0_RX, 11), (UART0_TX, 12)]"
  by (simp add: mux_table_def upt_rec)

text \<open>The registers of pad \<open>i\<close> are the two words from \<open>4 + 8 * i\<close> on.\<close>

definition pad_at :: "nat \<Rightarrow> pad_regs" where
  "pad_at i = CONFIG_GPIO_0\<lparr>CFG_REG_OFFSET := of_nat (4 + 8 * i), MUX_SEL_REG_OFFSET := of_nat (8 + 8 * i),
     MUX_SEL_VALUES := mux_table i\<rparr>"

lemmas CONFIG_GPIO_defs =
  CONFIG_GPIO_0_def CONFIG_GPIO_1_def CONFIG_GPIO_2_def CONFIG_GPIO_3_def CONFIG_GPIO_4_def
  CONFIG_GPIO_5_def CONFIG_GPIO_6_def CONFIG_GPIO_7_def CONFIG_GPIO_8_def CONFIG_GPIO_9_def
  CONFIG_GPIO_10_def CONFIG_GPIO_11_def CONFIG_GPIO_12_def CONFIG_GPIO_13_def CONFIG_GPIO_14_def
  CONFIG_GPIO_15_def

lemmas padframe_aon_gpio_defs = padframe_aon_gpio_def
  padframe_aon_gpio_0_def padframe_aon_gpio_1_def padframe_aon_gpio_2_def padframe_aon_gpio_3_def
  padframe_aon_gpio_4_def padframe_aon_gpio_5_def padframe_aon_gpio_6_def padframe_aon_gpio_7_def
  padframe_aon_gpio_8_def padframe_aon_gpio_9_def padframe_aon_gpio_10_def padframe_aon_gpio_11_def
  padframe_aon_gpio_12_def padframe_aon_gpio_13_def padframe_aon_gpio_14_def padframe_aon_gpio_15_def

lemma pads_upto: "[0..<16] = [0, 1, 2, 3, 4, 5, 6, 7, 8, 9, 10, 11, 12, 13, 14, 15 :: nat]"
  by (simp add: upt_rec)

lemma padframe_aon_gpio_map: "padframe_aon_gpio = map (\<lambda>i. pad_exec (pad_at i)) [0..<16]"
  by (simp add: padframe_aon_gpio_defs pad_at_def CONFIG_GPIO_defs mux_table_values pads_upto)

lemmas mux_sel_t_defs = padframe_aon_gpio_mux_sel_t_def
  padframe_aon_gpio_0_mux_sel_t_def padframe_aon_gpio_1_mux_sel_t_def
  padframe_aon_gpio_2_mux_sel_t_def padframe_aon_gpio_3_mux_sel_t_def
  padframe_aon_gpio_4_mux_sel_t_def padframe_aon_gpio_5_mux_sel_t_def
  padframe_aon_gpio_6_mux_sel_t_def padframe_aon_gpio_7_mux_sel_t_def
  padframe_aon_gpio_8_mux_sel_t_def padframe_aon_gpio_9_mux_sel_t_def
  padframe_aon_gpio_10_mux_sel_t_def padframe_aon_gpio_11_mux_sel_t_def
  padframe_aon_gpio_12_mux_sel_t_def padframe_aon_gpio_13_mux_sel_t_def
  padframe_aon_gpio_14_mux_sel_t_def padframe_aon_gpio_15_mux_sel_t_def

text \<open>Header and register file of every pad number its ports alike.\<close>

definition CONFIG_GPIO :: "pad_regs list" where
  "CONFIG_GPIO = [
     CONFIG_GPIO_0, CONFIG_GPIO_1, CONFIG_GPIO_2, CONFIG_GPIO_3, CONFIG_GPIO_4,
     CONFIG_GPIO_5, CONFIG_GPIO_6, CONFIG_GPIO_7, CONFIG_GPIO_8, CONFIG_GPIO_9,
     CONFIG_GPIO_10, CONFIG_GPIO_11, CONFIG_GPIO_12, CONFIG_GPIO_13, CONFIG_GPIO_14,
     CONFIG_GPIO_15]"

lemma mux_sel_t_map: "padframe_aon_gpio_mux_sel_t = map mux_table [0..<16]"
  by (simp add: mux_sel_t_defs mux_table_values pads_upto)

lemma CONFIG_GPIO_map: "CONFIG_GPIO = map pad_at [0..<16]"
  by (simp add: CONFIG_GPIO_def CONFIG_GPIO_defs pad_at_def mux_table_values pads_upto)

lemma mux_sel_t_nth:
  "i < 16 \<Longrightarrow> padframe_aon_gpio_mux_sel_t ! i = mux_table i"
  "i < 16 \<Longrightarrow> MUX_SEL_VALUES (CONFIG_GPIO ! i) = mux_table i"
  by (simp_all add: mux_sel_t_map CONFIG_GPIO_map pad_at_def)

lemma mux_table_fits: "(m, v) \<in> set (mux_table i) \<Longrightarrow> v AND 15 = v"
  by (auto simp: mux_table_values)

lemma mux_table_inj: "(m, v) \<in> set (mux_table i) \<Longrightarrow> (m', v) \<in> set (mux_table i) \<longleftrightarrow> m' = m"
  by (auto simp: mux_table_values)

lemma padframe_aon_gpio_nth: "i < 16 \<Longrightarrow> padframe_aon_gpio ! i = pad_exec (pad_at i)"
  by (simp add: padframe_aon_gpio_map)

definition pad_file :: "addr set" where
  "pad_file = (\<lambda>k. PADFRAME_GPIO_BASE + of_nat k) ` {4 * j | j. j < 33}"

abbreviation cfg_addr :: "nat \<Rightarrow> addr" where
  "cfg_addr i \<equiv> PADFRAME_GPIO_BASE + of_nat (4 + 8 * i)"

abbreviation mux_addr :: "nat \<Rightarrow> addr" where
  "mux_addr i \<equiv> PADFRAME_GPIO_BASE + of_nat (8 + 8 * i)"

lemma pad_file_in:
  assumes "i < 16"
  shows "cfg_addr i \<in> pad_file" and "mux_addr i \<in> pad_file"
  unfolding pad_file_def using assms
  by (intro imageI CollectI, presburger)+

lemma pad_sep_of_nat: "x < 1000 \<Longrightarrow> y < 1000 \<Longrightarrow> x + 4 \<le> y \<or> y + 4 \<le> x \<Longrightarrow> sep32 (of_nat x) (of_nat y)"
  using sep32_of_nat [of x y] sep32_of_nat [of y x] sep32_sym by auto

lemma pad_sep:
  assumes "i < 16" and "j < 16"
  shows "i \<noteq> j \<Longrightarrow> sep32 (cfg_addr i) (cfg_addr j)" and "i \<noteq> j \<Longrightarrow> sep32 (mux_addr i) (mux_addr j)"
    and "sep32 (cfg_addr i) (mux_addr j)" and "sep32 (mux_addr i) (cfg_addr j)"
  unfolding sep32_base using assms by (intro pad_sep_of_nat; presburger)+

subsection \<open>Signals of one configuration register\<close>

text \<open>What a getter returns after a setter wrote \<open>v\<close>.\<close>

definition signal_value :: "pad_signal \<Rightarrow> u8 \<Rightarrow> u8" where
  "signal_value sig v = (if sig = Drv then v AND 3 else of_bool (v \<noteq> 0))"

lemma field_write_read:
  assumes "bitfield_spec b" and "i < 32" and "drop_bit i (push_bit i m) = m"
  shows "field32_read b (field32_write b r (m, i) v) (m, i) = v AND m"
  unfolding bitfield_specD [OF assms(1,2)] by (rule field_read_write [OF assms(3)])

lemma field_write_other:
  assumes "bitfield_spec b" and "i < 32" and "j < 32" and "push_bit i m AND push_bit j k = 0"
  shows "field32_read b (field32_write b r (m, i) v) (k, j) = field32_read b r (k, j)"
  unfolding bitfield_specD [OF assms(1,2)] bitfield_specD [OF assms(1,3)]
  by (rule field_read_other [OF assms(4)])

lemma ucast_and_up: "(ucast ((v :: u8) AND 3) :: u32) = ucast v AND 3"
  unfolding unsigned_and_eq by simp

lemma ucast_and_3: "ucast (ucast (v :: u8) AND (3 :: u32)) = v AND 3"
  by (rule bit_word_eqI) (auto simp: bit_simps dest: bit_imp_le_length)

lemma signal_read_write:
  assumes "bitfield_spec b"
  shows "signal_read b (pad_at i) sig (signal_write b (pad_at i) sig v r) = signal_value sig v"
proof (cases "sig = Drv")
  case True
  have "field32_read b (field32_write b r (3, 1) (ucast v)) (3, 1) = ucast v AND 3"
    by (rule field_write_read [OF assms]) simp_all
  with True show ?thesis
    by (simp add: pad_at_def CONFIG_GPIO_0_def signal_value_def ucast_and_3)
next
  case False
  then show ?thesis
    by (cases sig) (simp_all add: pad_at_def CONFIG_GPIO_0_def bitfield_specD [OF assms] signal_value_def bit_simps)
qed

lemma signal_read_other:
  assumes "bitfield_spec b" and "sig' \<noteq> sig"
  shows "signal_read b (pad_at i) sig' (signal_write b (pad_at i) sig v r) = signal_read b (pad_at i) sig' r"
  using assms(2)
  by (cases sig; cases sig'; simp add: pad_at_def CONFIG_GPIO_0_def bitfield_specD [OF assms(1)] bit_simps)
    (auto simp: pad_at_def CONFIG_GPIO_0_def bitfield_specD [OF assms(1)] bit_simps
      intro!: arg_cong [where f = ucast] bit_word_eqI)

subsection \<open>Pad operations under an environment that keeps the registers\<close>

lemma pad_at_sel [simp]:
  "CFG_REG_OFFSET (pad_at i) = of_nat (4 + 8 * i)"
  "MUX_SEL_REG_OFFSET (pad_at i) = of_nat (8 + 8 * i)"
  by (simp_all add: pad_at_def)

lemma signal_read_pad_at: "signal_read b (pad_at i) sig = signal_read b CONFIG_GPIO_0 sig"
  by (cases sig) (simp_all add: pad_at_def fun_eq_iff)

text \<open>What the pads show, and how an operation changes it.\<close>

definition pad_shows :: "bitfield \<Rightarrow> machine \<Rightarrow> nat \<Rightarrow> pad_signal \<Rightarrow> u8" where
  "pad_shows b s i sig = signal_read b (pad_at i) sig (peek32 s (cfg_addr i))"

lemma pad_get:
  assumes "env_holds env pad_file" and "i < 16"
  shows "fst (pad_exec (pad_at i) b env (CfgGet sig) s) = ucast (pad_shows b s i sig)"
    and "fst (pad_exec (pad_at i) b env MuxGet s) = peek32 s (mux_addr i) AND 15"
  using rd32_held(1) [OF assms(1) pad_file_in(1) [OF assms(2)]]
    rd32_held(1) [OF assms(1) pad_file_in(2) [OF assms(2)]]
  by (simp_all add: pad_shows_def split_beta Let_def del: fst_rd32 of_nat_add of_nat_mult)

lemma pad_set_cfg:
  fixes s :: machine and v :: u8 and sig :: pad_signal
  assumes "env_holds env pad_file" and "i < 16" and "j < 16" and "bitfield_spec b"
  defines "s' \<equiv> snd (pad_exec (pad_at i) b env (CfgSet sig v) s)"
  shows "pad_shows b s' j sig' = (if j = i \<and> sig' = sig then signal_value sig v else pad_shows b s j sig')"
    and "peek32 s' (mux_addr j) = peek32 s (mux_addr j)"
proof -
  note held = rd32_held [OF assms(1) pad_file_in(1) [OF assms(2)]]
  have s': "s' = wr32 env (cfg_addr i) (signal_write b (pad_at i) sig v (peek32 s (cfg_addr i)))
      (snd (rd32 env (cfg_addr i) s))"
    using held(1) by (simp add: s'_def split_beta Let_def del: fst_rd32 of_nat_add of_nat_mult)
  show "peek32 s' (mux_addr j) = peek32 s (mux_addr j)"
    unfolding s' peek32_wr32_sep [OF assms(1) pad_file_in(2) [OF assms(3)] pad_sep(4) [OF assms(3,2)]]
    by (rule rd32_held(2) [OF assms(1) pad_file_in(2) [OF assms(3)]])
  show "pad_shows b s' j sig' = (if j = i \<and> sig' = sig then signal_value sig v else pad_shows b s j sig')"
  proof (cases "j = i")
    case True
    then show ?thesis
      by (simp add: pad_shows_def s' peek32_wr32_same signal_read_write [OF assms(4)]
          signal_read_other [OF assms(4)] del: of_nat_add of_nat_mult)
  next
    case False
    note sep = peek32_wr32_sep [OF assms(1) pad_file_in(1) [OF assms(3)] pad_sep(1) [OF assms(3,2) False]]
    show ?thesis
      unfolding pad_shows_def s' sep
      using False rd32_held(2) [OF assms(1) pad_file_in(1) [OF assms(3)]] by simp
  qed
qed

lemma pad_set_mux:
  fixes s :: machine and m :: u32 and b :: bitfield
  assumes "env_holds env pad_file" and "i < 16" and "j < 16"
  defines "s' \<equiv> snd (pad_exec (pad_at i) b env (MuxSet m) s)"
  shows "peek32 s' (mux_addr j) = (if j = i then m AND 15 else peek32 s (mux_addr j))"
    and "pad_shows b s' j sig = pad_shows b s j sig"
proof -
  have s': "s' = wr32 env (mux_addr i) (m AND 15) s"
    by (simp add: s'_def)
  show "peek32 s' (mux_addr j) = (if j = i then m AND 15 else peek32 s (mux_addr j))"
    using peek32_wr32_sep [OF assms(1) pad_file_in(2) [OF assms(3)] pad_sep(2) [OF assms(3,2)]]
    by (simp add: s' peek32_wr32_same del: of_nat_add of_nat_mult)
  show "pad_shows b s' j sig = pad_shows b s j sig"
    by (simp only: pad_shows_def s'
        peek32_wr32_sep [OF assms(1) pad_file_in(1) [OF assms(3)] pad_sep(3) [OF assms(3,2)]])
qed

text \<open>C32: a signal set on one of the sixteen pads is what its getter returns next (the drive
  strength cut to two bits, any other signal as 0 or 1), and nothing else changes: every other signal
  of the pad, every signal of the other pads and every pad's multiplexer read as before.\<close>

theorem gpio_set_get:
  fixes s :: machine and v :: u8 and sig :: pad_signal
  assumes "bitfield_spec b" and "env_holds env pad_file" and "i < 16" and "j < 16"
  defines "s' \<equiv> snd ((padframe_aon_gpio ! i) b env (CfgSet sig v) s)"
  shows "(fst ((padframe_aon_gpio ! j) b env (CfgGet sig') s') =
      (if j = i \<and> sig' = sig then (if sig = Drv then ucast v AND 3 else of_bool (v \<noteq> 0))
       else fst ((padframe_aon_gpio ! j) b env (CfgGet sig') s)))
    \<and> fst ((padframe_aon_gpio ! j) b env MuxGet s') = fst ((padframe_aon_gpio ! j) b env MuxGet s)"
proof (intro conjI)
  have s': "s' = snd (pad_exec (pad_at i) b env (CfgSet sig v) s)"
    using assms(3) by (simp only: s'_def padframe_aon_gpio_nth)
  have cut: "(ucast (signal_value sig v) :: u32) = (if sig = Drv then ucast v AND 3 else of_bool (v \<noteq> 0))"
    by (simp add: signal_value_def ucast_and_up)
  show "fst ((padframe_aon_gpio ! j) b env (CfgGet sig') s') =
      (if j = i \<and> sig' = sig then (if sig = Drv then ucast v AND 3 else of_bool (v \<noteq> 0))
       else fst ((padframe_aon_gpio ! j) b env (CfgGet sig') s))"
    unfolding s' padframe_aon_gpio_nth [OF assms(4)] pad_get(1) [OF assms(2,4)]
      pad_set_cfg(1) [OF assms(2,3,4,1)]
    by (simp only: cut [symmetric] if_distrib [of ucast])
  show "fst ((padframe_aon_gpio ! j) b env MuxGet s') = fst ((padframe_aon_gpio ! j) b env MuxGet s)"
    unfolding s' padframe_aon_gpio_nth [OF assms(4)] pad_get(2) [OF assms(2,4)]
      pad_set_cfg(2) [OF assms(2,3,4,1)] ..
qed

theorem gpio_set_get_witness:
  "fst ((padframe_aon_gpio ! 5) plain_bitfield quiet_env (CfgGet Drv)
     (snd ((padframe_aon_gpio ! 5) plain_bitfield quiet_env (CfgSet Drv 6) boot))) = 2"
  by (subst gpio_set_get [OF plain_bitfield_spec env_holds_quiet, THEN conjunct1]) simp_all

text \<open>C33: selecting a port for a pad by its number in the pad's header is read back as that number,
  which in the header and in the register file stands for that port alone, and neither the other
  multiplexers nor any pad's signals change.\<close>

theorem gpio_mux_roundtrip:
  fixes s :: machine and m :: mux_sel and b :: bitfield
  assumes "env_holds env pad_file" and "i < 16" and "j < 16" and "(m, v) \<in> set (padframe_aon_gpio_mux_sel_t ! i)"
  defines "s' \<equiv> snd ((padframe_aon_gpio ! i) b env (MuxSet v) s)"
  shows "(fst ((padframe_aon_gpio ! j) b env MuxGet s') =
      (if j = i then v else fst ((padframe_aon_gpio ! j) b env MuxGet s)))
    \<and> ((m', v) \<in> set (padframe_aon_gpio_mux_sel_t ! i) \<longleftrightarrow> m' = m)
    \<and> ((m', v) \<in> set (MUX_SEL_VALUES (CONFIG_GPIO ! i)) \<longleftrightarrow> m' = m)
    \<and> fst ((padframe_aon_gpio ! j) b env (CfgGet sig) s') = fst ((padframe_aon_gpio ! j) b env (CfgGet sig) s)"
proof (intro conjI)
  have s': "s' = snd (pad_exec (pad_at i) b env (MuxSet v) s)"
    using assms(2) by (simp only: s'_def padframe_aon_gpio_nth)
  note tab = mux_sel_t_nth [OF assms(2)]
  have m: "(m, v) \<in> set (mux_table i)" using assms(4) by (simp only: tab)
  show "fst ((padframe_aon_gpio ! j) b env MuxGet s') =
      (if j = i then v else fst ((padframe_aon_gpio ! j) b env MuxGet s))"
    unfolding s' padframe_aon_gpio_nth [OF assms(3)] pad_get(2) [OF assms(1,3)] pad_set_mux(1) [OF assms(1-3)]
    by (simp add: mux_table_fits [OF m] if_distrib [of "\<lambda>w. w AND 15"])
  show "(m', v) \<in> set (padframe_aon_gpio_mux_sel_t ! i) \<longleftrightarrow> m' = m"
    and "(m', v) \<in> set (MUX_SEL_VALUES (CONFIG_GPIO ! i)) \<longleftrightarrow> m' = m"
    unfolding tab by (rule mux_table_inj [OF m])+
  show "fst ((padframe_aon_gpio ! j) b env (CfgGet sig) s') = fst ((padframe_aon_gpio ! j) b env (CfgGet sig) s)"
    unfolding s' padframe_aon_gpio_nth [OF assms(3)] pad_get(1) [OF assms(1,3)] pad_set_mux(2) [OF assms(1-3)] ..
qed

theorem gpio_mux_roundtrip_witness:
  "(UART0_TX, 12) \<in> set padframe_aon_gpio_15_mux_sel_t
    \<and> fst ((padframe_aon_gpio ! 15) plain_bitfield quiet_env MuxGet
     (snd ((padframe_aon_gpio ! 15) plain_bitfield quiet_env (MuxSet 12) boot))) = 12"
proof -
  have "(UART0_TX, 12) \<in> set padframe_aon_gpio_15_mux_sel_t"
    by (simp add: padframe_aon_gpio_15_mux_sel_t_def)
  moreover then have "(UART0_TX, 12) \<in> set (padframe_aon_gpio_mux_sel_t ! 15)"
    by (simp add: padframe_aon_gpio_mux_sel_t_def)
  ultimately show ?thesis
    using gpio_mux_roundtrip [OF env_holds_quiet, of 15 15 UART0_TX 12] by simp
qed

text \<open>The drive strength set for one Hyperbus pad is what its getter returns, cut to the
  field's width, and the fourteen other fields of the shared register keep their values.\<close>

theorem hyperbus_drv_fields:
  fixes s :: machine and v :: u8 and p :: hyper_pad
  assumes "bitfield_spec b" and "env_holds env {padframe_hyperbus_drv_strength_addr}"
  defines "s' \<equiv> padframe_hyperbus_cfg_drv_set p b env v s"
  shows "fst (padframe_hyperbus_cfg_drv_get q b env s') =
    (if q = p then v AND (if p = RESERVED then 15 else 3) else fst (padframe_hyperbus_cfg_drv_get q b env s))"
proof -
  let ?a = padframe_hyperbus_drv_strength_addr
  have get: "fst (padframe_hyperbus_cfg_drv_get q b env t) = ucast (field32_read b (peek32 t ?a) (HYPERBUS_DRV_FIELD q))" for t
    using rd32_held(1) [OF assms(2), of ?a t]
    by (simp add: padframe_hyperbus_cfg_drv_get_def Let_def split_beta del: fst_rd32)
  have set: "peek32 s' ?a = field32_write b (peek32 s ?a) (HYPERBUS_DRV_FIELD p) (ucast v)"
    using rd32_held(1) [OF assms(2), of ?a s]
    by (simp add: s'_def padframe_hyperbus_cfg_drv_set_def Let_def split_beta peek32_wr32_same del: fst_rd32)
  obtain m i where p: "HYPERBUS_DRV_FIELD p = (m, i)" by (cases "HYPERBUS_DRV_FIELD p")
  obtain k j where q: "HYPERBUS_DRV_FIELD q = (k, j)" by (cases "HYPERBUS_DRV_FIELD q")
  have fits: "drop_bit i (push_bit i m) = m" "i < 32" "m = (if p = RESERVED then 15 else 3)"
    using p by (cases p; auto)+
  have j: "j < 32" using q by (cases q; auto)
  show ?thesis
  proof (cases "q = p")
    case True
    then have "HYPERBUS_DRV_FIELD q = (m, i)" using p by simp
    moreover have "(ucast (ucast v AND m) :: u8) = v AND (if p = RESERVED then 15 else 3)"
      by (rule bit_word_eqI) (auto simp: fits(3) bit_simps)
    ultimately show ?thesis
      unfolding get set p using True
      by (simp add: field_write_read [OF assms(1) fits(2,1)])
  next
    case False
    then have "push_bit i m AND push_bit j k = 0"
      using p q by (cases p; cases q; auto)
    then show ?thesis
      using False by (simp add: get set p q field_write_other [OF assms(1) fits(2) j])
  qed
qed

theorem hyperbus_drv_fields_witness:
  "fst (padframe_hyperbus_cfg_drv_get DQ7 plain_bitfield quiet_env
     (padframe_hyperbus_cfg_drv_set DQ7 plain_bitfield quiet_env 2 boot)) = 2"
  by (subst hyperbus_drv_fields [OF plain_bitfield_spec env_holds_quiet]) simp

end
