(* ===== verification/TestCluster.thy ===== *)
theory TestCluster
  imports Fll Putc
begin

section \<open>The cluster test runner of chimera-convolve (targets/chimera-convolve/host/src/test.c)\<close>

text \<open>
  \<open>test_cluster\<close> runs a function on up to five clusters: it chooses the number of repetitions and
  the frequency, resets and starts the clusters, serves their write requests until all are idle or a
  deadline passes, collects the return values, gates the clocks, and may run again. The function is
  split along its phases; a \<open>continue\<close> or \<open>return\<close> inside the loop is a value. The host of
  chimera-convolve has 32-bit pointers. The first \<open>clusters\<close> entries of the parallel arrays of
  \<open>test_cluster_cfg_t\<close> are a list of records. Texts written by \<open>printf\<close> and the memory that is
  read only to print it are left out; what the clusters write through the host is \<open>console_out\<close>.
\<close>

subsection \<open>Actions\<close>

text \<open>The input still to be read, the bytes written for the clusters, and the UART instance.\<close>

record host_io =
  stdin :: string
  console_out :: "u8 list"
  uart_if :: chi_interface

type_synonym host_state = "machine \<times> host_io"
type_synonym 'a act = "host_state \<Rightarrow> ('a outcome \<times> host_state) option"

definition give :: "'a \<Rightarrow> 'a act" where
  "give x st = Some (Ret x, st)"

definition chain :: "'a act \<Rightarrow> ('a \<Rightarrow> 'b act) \<Rightarrow> 'b act" where
  "chain f g st = (case f st of
     None \<Rightarrow> None
   | Some (Fault e, st1) \<Rightarrow> Some (Fault e, st1)
   | Some (Ret x, st1) \<Rightarrow> g x st1)"

definition on_machine :: "(machine \<Rightarrow> machine) \<Rightarrow> unit act" where
  "on_machine f st = Some (Ret (), f (fst st), snd st)"

definition ask_machine :: "(machine \<Rightarrow> 'a \<times> machine) \<Rightarrow> 'a act" where
  "ask_machine f st = (let (x, s) = f (fst st) in Some (Ret x, s, snd st))"

definition run_machine :: "(machine \<Rightarrow> ('a \<times> machine) option) \<Rightarrow> 'a act" where
  "run_machine f st = (case f (fst st) of None \<Rightarrow> None | Some (x, s) \<Rightarrow> Some (Ret x, s, snd st))"

definition try_machine :: "(machine \<Rightarrow> ('a outcome \<times> machine) option) \<Rightarrow> 'a act" where
  "try_machine f st = (case f (fst st) of None \<Rightarrow> None | Some (x, s) \<Rightarrow> Some (x, s, snd st))"

subsection \<open>Input\<close>

text \<open>\<open>fgets\<close> of the C library: at most \<open>size - 1\<close> characters, up to and with a newline; at the
  end of the input it is NULL.\<close>

fun read_line :: "nat \<Rightarrow> string \<Rightarrow> string \<times> string" where
  "read_line 0 cs = ([], cs)"
| "read_line (Suc n) [] = ([], [])"
| "read_line (Suc n) (c # cs) = (if c = CHR 0x0A then ([c], cs)
     else let (l, rest) = read_line n cs in (c # l, rest))"

definition fgets :: "nat \<Rightarrow> string option act" where
  "fgets sz st = (let io = snd st in
     if stdin io = [] then Some (Ret None, st)
     else let (l, rest) = read_line (sz - 1) (stdin io) in Some (Ret (Some l), fst st, io\<lparr>stdin := rest\<rparr>))"

text \<open>\<open>atoi\<close> of the C library; its behaviour is undefined when the number is no \<open>int\<close>.\<close>

definition is_digit :: "char \<Rightarrow> bool" where
  "is_digit c \<longleftrightarrow> 48 \<le> (of_char c :: nat) \<and> (of_char c :: nat) \<le> 57"

definition is_space :: "char \<Rightarrow> bool" where
  "is_space c \<longleftrightarrow> c = CHR '' '' \<or> 9 \<le> (of_char c :: nat) \<and> (of_char c :: nat) \<le> 13"

fun digits :: "int \<Rightarrow> string \<Rightarrow> int" where
  "digits acc [] = acc"
| "digits acc (c # cs) = (if is_digit c then digits (10 * acc + (of_char c - 48)) cs else acc)"

definition atoi :: "string \<Rightarrow> int outcome" where
  "atoi str = (let cs = dropWhile is_space str;
       v = (case cs of
          [] \<Rightarrow> 0
        | c # rest \<Rightarrow> if c = CHR ''-'' then - digits 0 rest
            else if c = CHR ''+'' then digits 0 rest else digits 0 cs)
     in if - (2 ^ 31) \<le> v \<and> v < 2 ^ 31 then Ret v else Fault OutOfBounds)"

subsection \<open>The configuration (test.h)\<close>

datatype test_mode = TEST_MODE_AUTOMATIC | TEST_MODE_DUTCTL | TEST_MODE_INTERACTIVE

record cluster_slot =
  clusterId :: u8
  stack_start :: u32
  stack_sizes :: "u32 list"
  slot_args :: addr

record test_cluster_cfg =
  mode :: test_mode
  default_frequency_mhz :: u32
  default_repetitions :: u32
  timeout :: u32
  slots :: "cluster_slot list"
  function_test :: u32
  function_trampoline :: u32
  function_interrupt :: u32

text \<open>The build: on an ASIC the frequency is measured and switched, in RTL simulation it is fixed.\<close>

record platform =
  asic :: bool
  has_fll :: bool
  gpio_wr :: gpio_write

subsection \<open>Repetitions and frequency\<close>

definition CHESHIRE_SCRATCH_0_REG_OFFSET :: addr where [reg_offsets]: "CHESHIRE_SCRATCH_0_REG_OFFSET = 0x0"

text \<open>The offset is added to a \<open>void **\<close>, in units of the pointer size.\<close>

definition scratch :: "nat \<Rightarrow> addr" where
  "scratch i = base_regs + 4 * CHESHIRE_SCRATCH_0_REG_OFFSET + 4 * of_nat i"

text \<open>\<open>repetitions\<close> is the first field of \<open>test_cluster_args_t\<close>.\<close>

definition set_repetitions :: "env \<Rightarrow> u32 \<Rightarrow> cluster_slot list \<Rightarrow> machine \<Rightarrow> machine" where
  "set_repetitions env v cs s = fold (\<lambda>c. wr32 env (slot_args c) v) cs s"

definition scratch_repetitions :: "env \<Rightarrow> cluster_slot list \<Rightarrow> machine \<Rightarrow> machine" where
  "scratch_repetitions env cs s =
     fold (\<lambda>c s. let (v, s) = rd32 env (scratch 1) s in wr32 env (slot_args c) v s) cs s"

text \<open>False is the early return of -1 at the end of the input.\<close>

definition choose_repetitions :: "env \<Rightarrow> test_cluster_cfg \<Rightarrow> bool act" where
  "choose_repetitions env cfg = (case mode cfg of
     TEST_MODE_DUTCTL \<Rightarrow> chain (on_machine (scratch_repetitions env (slots cfg))) (\<lambda>_. give True)
   | TEST_MODE_INTERACTIVE \<Rightarrow> chain (fgets 32) (\<lambda>l. case l of
       None \<Rightarrow> give False
     | Some str \<Rightarrow> chain (\<lambda>st. Some (if length str > 1 then atoi str else Ret 1, st)) (\<lambda>repetitions.
         chain (on_machine (set_repetitions env (word_of_int repetitions) (slots cfg))) (\<lambda>_. give True)))
   | TEST_MODE_AUTOMATIC \<Rightarrow>
       chain (on_machine (set_repetitions env (default_repetitions cfg) (slots cfg))) (\<lambda>_. give True))"

definition choose_frequency :: "env \<Rightarrow> test_cluster_cfg \<Rightarrow> int option act" where
  "choose_frequency env cfg = (case mode cfg of
     TEST_MODE_DUTCTL \<Rightarrow> chain (ask_machine (rd32 env (scratch 3))) (\<lambda>v. give (Some (sint v)))
   | TEST_MODE_INTERACTIVE \<Rightarrow> chain (fgets 32) (\<lambda>l. case l of
       None \<Rightarrow> give None
     | Some str \<Rightarrow> chain (\<lambda>st. Some (atoi str, st)) (\<lambda>v. give (Some v)))
   | TEST_MODE_AUTOMATIC \<Rightarrow> give (Some (sint (default_frequency_mhz cfg))))"

definition in_range :: "int \<Rightarrow> bool" where
  "in_range mhz \<longleftrightarrow> 10 \<le> mhz \<and> mhz \<le> 1000"

text \<open>\<open>Stop\<close> is the early return of -1, \<open>Again\<close> the \<open>continue\<close>, \<open>Go\<close> the way on.\<close>

datatype freq_step = Stop | Again | Go int

definition switch_frequency :: "platform \<Rightarrow> env \<Rightarrow> u32 \<Rightarrow> int \<Rightarrow> freq_step act" where
  "switch_frequency pf env rtc_freq mhz =
     (if mhz = - 1 then give (Go mhz)
      else if \<not> in_range mhz then give Again
      else (\<lambda>st. case configure_fll (has_fll pf) ChimeraConvolve (gpio_wr pf) clint32_get_core_freq
          (uart_if (snd st)) (word_of_int (mhz * 1000000)) rtc_freq env (fst st) of
        None \<Rightarrow> None
      | Some (Fault e, s) \<Rightarrow> Some (Fault e, s, snd st)
      | Some (Ret (actual_freq, i), s) \<Rightarrow>
          Some (Ret (if actual_freq = 0 then Stop else Go mhz), s, (snd st)\<lparr>uart_if := i\<rparr>)))"

definition set_frequency :: "platform \<Rightarrow> env \<Rightarrow> test_cluster_cfg \<Rightarrow> u32 \<Rightarrow> freq_step act" where
  "set_frequency pf env cfg rtc_freq =
     (if \<not> asic pf then give (Go 0)
      else chain (choose_frequency env cfg) (\<lambda>f. case f of
        None \<Rightarrow> give Stop | Some mhz \<Rightarrow> switch_frequency pf env rtc_freq mhz))"

definition restore_frequency :: "platform \<Rightarrow> env \<Rightarrow> u32 \<Rightarrow> unit act" where
  "restore_frequency pf env rtc_freq st =
     (case restore_default_freq (has_fll pf) ChimeraConvolve (gpio_wr pf) clint32_get_core_freq
        (uart_if (snd st)) rtc_freq env (fst st) of
      None \<Rightarrow> None
    | Some (Fault e, s) \<Rightarrow> Some (Fault e, s, snd st)
    | Some (Ret (_, i), s) \<Rightarrow> Some (Ret (), s, (snd st)\<lparr>uart_if := i\<rparr>))"

subsection \<open>Starting the clusters\<close>

definition start_cluster :: "env \<Rightarrow> cluster_slot \<Rightarrow> u32 list act" where
  "start_cluster env c =
     chain (\<lambda>st. Some (generate_snitchCluster_SPs ChimeraConvolve (clusterId c) (stack_start c) (stack_sizes c), st))
       (\<lambda>(sps, _).
     chain (on_machine (\<lambda>s.
       (let s = set_snitchCluster_clockGating env (clusterId c) False s;
            s = set_snitchCluster_reset env (clusterId c) True s;
            s = nops env 10 s;
            s = set_snitchCluster_reset env (clusterId c) False s
        in nops env 1000 s)))
       (\<lambda>_. give sps))"

primrec start_clusters :: "env \<Rightarrow> cluster_slot list \<Rightarrow> u32 list list act" where
  "start_clusters env [] = give []"
| "start_clusters env (c # cs) = chain (start_cluster env c) (\<lambda>sps.
     chain (start_clusters env cs) (\<lambda>rest. give (sps # rest)))"

definition test_deadline :: "u32 \<Rightarrow> u32 \<Rightarrow> clint_mtime32 \<Rightarrow> clint_mtime32" where
  "test_deadline rtc_freq tmo start_time =
     (let timeout_ticks = rtc_freq * tmo div 1000;
          deadline = start_time\<lparr>low := low start_time + timeout_ticks\<rparr>
      in if low deadline < low start_time then deadline\<lparr>high := high deadline + 1\<rparr> else deadline)"

primrec offload_clusters :: "env \<Rightarrow> test_cluster_cfg \<Rightarrow> (cluster_slot \<times> u32 list) list \<Rightarrow> unit act" where
  "offload_clusters env cfg [] = give ()"
| "offload_clusters env cfg (p # ps) =
     chain (try_machine (offload_snitchCluster ChimeraConvolve env (function_test cfg) (function_trampoline cfg)
       (slot_args (fst p)) (snd p) (clusterId (fst p)))) (\<lambda>_. offload_clusters env cfg ps)"

subsection \<open>Serving and polling\<close>

definition d2h :: addr where
  "d2h = device_to_host_word ChimeraConvolve"

definition h2d :: addr where
  "h2d = host_to_device_word ChimeraConvolve"

definition serve_request :: "env \<Rightarrow> host_state \<Rightarrow> host_state" where
  "serve_request env st =
     (let (v, s) = htif_read ChimeraConvolve env d2h (fst st) in
      if v = (0, 0) then (s, snd st)
      else let ((_, syscall_addr), s) = htif_read ChimeraConvolve env d2h s;
          s = htif_write ChimeraConvolve env d2h 0 s;
          (syscall_buf, s) = rd32 env (syscall_addr + 8) s;
          (num, s) = rd32 env syscall_addr s;
          (s, io) = (if num = 64
            then let (len, s) = rd32 env (syscall_addr + 12) s in
              (s, (snd st)\<lparr>console_out := console_out (snd st)
                 @ map (\<lambda>i. mem (hw s) (syscall_buf + of_nat i)) [0..<unat len]\<rparr>)
            else (s, snd st))
        in (htif_write ChimeraConvolve env d2h syscall_addr s, io))"

definition count_done :: "env \<Rightarrow> cluster_slot list \<Rightarrow> machine \<Rightarrow> nat \<times> machine" where
  "count_done env cs s = fold (\<lambda>c (n, s). let (b, s) = snitchCluster_busy env (clusterId c) s
     in (n + (if b \<noteq> 0 then 0 else 1), s)) cs (0, s)"

text \<open>One round of the \<open>while\<close> loop, with its test; the result is whether the deadline has passed.\<close>

definition poll_round :: "env \<Rightarrow> cluster_slot list \<Rightarrow> clint_mtime32 \<Rightarrow> nat \<times> host_state
    \<Rightarrow> (bool option \<times> nat \<times> host_state) option" where
  "poll_round env cs deadline x = (case x of (finished, s, io) \<Rightarrow>
     if finished = length cs then Some (Some False, finished, s, io)
     else let (finished, s) = count_done env cs s in
       case clint32_get_mtime env s of
         None \<Rightarrow> None
       | Some (current_time, s) \<Rightarrow>
           if clint32_mtime_less_than deadline current_time then Some (Some True, finished, s, io)
           else let (s, io) = serve_request env (s, io) in
             case clint32_sleep_ticks env 0 10 s of
               None \<Rightarrow> None
             | Some (_, s) \<Rightarrow> Some (None, finished, s, io))"

definition poll_clusters :: "env \<Rightarrow> cluster_slot list \<Rightarrow> clint_mtime32 \<Rightarrow> bool act" where
  "poll_clusters env cs deadline st = (case loop (poll_round env cs deadline) (0, st) of
     None \<Rightarrow> None | Some (timed_out, _, st) \<Rightarrow> Some (Ret timed_out, st))"

subsection \<open>Collecting the results\<close>

definition finish_cluster :: "env \<Rightarrow> bool \<Rightarrow> cluster_slot \<Rightarrow> u32 act" where
  "finish_cluster env timed_out c =
     chain (if timed_out then give 0
        else chain (try_machine (wait_snitchCluster_return env (clusterId c))) (\<lambda>v. give (drop_bit 1 v)))
       (\<lambda>retVal. chain (on_machine (set_snitchCluster_clockGating env (clusterId c) True)) (\<lambda>_. give retVal))"

primrec finish_clusters :: "env \<Rightarrow> bool \<Rightarrow> cluster_slot list \<Rightarrow> u32 \<Rightarrow> u32 act" where
  "finish_clusters env timed_out [] retVal = give retVal"
| "finish_clusters env timed_out (c # cs) retVal =
     chain (finish_cluster env timed_out c) (\<lambda>retVal. finish_clusters env timed_out cs retVal)"

definition run_clusters :: "env \<Rightarrow> test_cluster_cfg \<Rightarrow> u32 \<Rightarrow> u32 \<Rightarrow> (bool \<times> u32) act" where
  "run_clusters env cfg rtc_freq retVal =
     chain (on_machine (setup_snitchCluster_interruptHandler env (function_interrupt cfg))) (\<lambda>_.
     chain (start_clusters env (slots cfg)) (\<lambda>stacks.
     chain (run_machine (clint32_get_mtime env)) (\<lambda>start_time.
     chain (on_machine (set_mie env False)) (\<lambda>_.
     chain (offload_clusters env cfg (zip (slots cfg) stacks)) (\<lambda>_.
     chain (on_machine (set_mie env True)) (\<lambda>_.
     chain (poll_clusters env (slots cfg) (test_deadline rtc_freq (timeout cfg) start_time)) (\<lambda>timed_out.
     chain (finish_clusters env timed_out (slots cfg) retVal) (\<lambda>retVal. give (timed_out, retVal)))))))))"

subsection \<open>The loop of test\_cluster\<close>

text \<open>\<open>Some r\<close> is the return of \<open>r\<close>, \<open>None\<close> another round.\<close>

definition ask_again :: "test_cluster_cfg \<Rightarrow> bool \<Rightarrow> u32 \<Rightarrow> int option act" where
  "ask_again cfg timed_out retVal =
     (if mode cfg = TEST_MODE_INTERACTIVE
      then chain (fgets 2) (\<lambda>l. case l of
          None \<Rightarrow> give (Some (sint retVal))
        | Some str \<Rightarrow>
            if str \<noteq> [] \<and> hd str \<in> {CHR ''y'', CHR ''Y''}
            then give (if timed_out then Some (- 1) else None)
            else give (Some (sint retVal)))
      else give (Some (sint retVal)))"

definition test_round :: "platform \<Rightarrow> env \<Rightarrow> test_cluster_cfg \<Rightarrow> u32 \<Rightarrow> u32 \<Rightarrow> (int option \<times> u32) act" where
  "test_round pf env cfg rtc_freq retVal =
     chain (choose_repetitions env cfg) (\<lambda>ok. if \<not> ok then give (Some (- 1), retVal) else
     chain (if mode cfg = TEST_MODE_DUTCTL then chain (ask_machine (rd32 env (scratch 2))) (\<lambda>_. give ()) else give ()) (\<lambda>_.
     chain (set_frequency pf env cfg rtc_freq) (\<lambda>f. case f of
       Stop \<Rightarrow> give (Some (- 1), retVal)
     | Again \<Rightarrow> give (None, retVal)
     | Go mhz \<Rightarrow>
         chain (run_clusters env cfg rtc_freq retVal) (\<lambda>(timed_out, retVal).
         chain (if asic pf \<and> mhz \<noteq> - 1 \<and> in_range mhz then restore_frequency pf env rtc_freq else give ()) (\<lambda>_.
         chain (ask_again cfg timed_out retVal) (\<lambda>x. give (x, retVal)))))))"

definition round_body :: "platform \<Rightarrow> env \<Rightarrow> test_cluster_cfg \<Rightarrow> u32 \<Rightarrow> u32 \<times> host_state
    \<Rightarrow> (int outcome option \<times> u32 \<times> host_state) option" where
  "round_body pf env cfg rtc_freq x = (case x of (retVal, st) \<Rightarrow>
     (case test_round pf env cfg rtc_freq retVal st of
        None \<Rightarrow> None
      | Some (Fault e, st) \<Rightarrow> Some (Some (Fault e), retVal, st)
      | Some (Ret (r, retVal), st) \<Rightarrow>
          Some (case r of None \<Rightarrow> None | Some v \<Rightarrow> Some (Ret v), retVal, st)))"

definition test_rounds :: "platform \<Rightarrow> env \<Rightarrow> test_cluster_cfg \<Rightarrow> u32 \<Rightarrow> int act" where
  "test_rounds pf env cfg rtc_freq st = (case loop (round_body pf env cfg rtc_freq) (0, st) of
     None \<Rightarrow> None | Some (r, _, st) \<Rightarrow> Some (r, st))"

definition test_cluster :: "platform \<Rightarrow> env \<Rightarrow> test_cluster_cfg \<Rightarrow> int act" where
  "test_cluster pf env cfg =
     chain (ask_machine (rd32 env (reg32 base_regs CHESHIRE_RTC_FREQ_REG_OFFSET))) (\<lambda>rtc_freq.
     chain (if asic pf
        then chain (restore_frequency pf env rtc_freq) (\<lambda>_.
          chain (try_machine (clint32_get_core_freq env rtc_freq (rtc_freq div 128))) (\<lambda>_. give ()))
        else give ()) (\<lambda>_.
     test_rounds pf env cfg rtc_freq))"

subsection \<open>How the phases compose\<close>

lemma chain_Ret [simp]: "chain (\<lambda>st. Some (Ret x, f st)) g st = g x (f st)"
  by (simp add: chain_def)

lemma chain_simps [simp]:
  "chain (give x) g st = g x st"
  "chain (on_machine m) h st = h () (m (fst st), snd st)"
  "chain (ask_machine a) k st = k (fst (a (fst st))) (snd (a (fst st)), snd st)"
  by (simp_all add: chain_def give_def on_machine_def ask_machine_def split_beta)

lemma chain_SomeD:
  assumes "chain f g st = Some (Ret y, st')"
  shows "\<exists>x st1. f st = Some (Ret x, st1) \<and> g x st1 = Some (Ret y, st')"
  using assms by (auto simp: chain_def split: option.splits prod.splits outcome.splits)

lemma chain_SomeI: "f st = Some (Ret x, st1) \<Longrightarrow> chain f g st = g x st1"
  by (simp add: chain_def)

lemma round_body_None:
  "test_round pf env cfg rtc r st = Some (Ret (None, r'), st') \<Longrightarrow>
    round_body pf env cfg rtc (r, st) = Some (None, r', st')"
  by (simp add: round_body_def)

lemma test_rounds_return:
  assumes "test_round pf env cfg rtc 0 st = Some (Ret (Some v, r'), st')"
  shows "test_rounds pf env cfg rtc st = Some (Ret v, st')"
  using assms by (simp add: test_rounds_def round_body_def loop_unfold)

subsection \<open>Properties: the rounds\<close>

text \<open>In automatic mode on an ASIC a default frequency outside 10 to 1000 MHz (other than -1)
  makes \<open>test_cluster\<close> loop for ever: the \<open>continue\<close> after the error message goes back to the same
  configuration, and no round ever starts a cluster or returns.\<close>

theorem bad_frequency_never_returns:
  assumes "asic pf" and "mode cfg = TEST_MODE_AUTOMATIC"
    and "sint (default_frequency_mhz cfg) \<noteq> - 1" and "\<not> in_range (sint (default_frequency_mhz cfg))"
  shows "test_rounds pf env cfg rtc st = None"
proof -
  have "\<exists>x'. round_body pf env cfg rtc x = Some (None, x')" for x
    using assms by (cases x) (auto simp: round_body_def test_round_def choose_repetitions_def set_frequency_def
        choose_frequency_def switch_frequency_def give_def chain_def on_machine_def)
  then show ?thesis
    unfolding test_rounds_def by (subst loop_diverges [where I = "\<lambda>_. True"]) auto
qed

definition sample_slot :: cluster_slot where
  "sample_slot = \<lparr>clusterId = 0, stack_start = 0x40020000, stack_sizes = [0x400, 0x400], slot_args = 0x48010000\<rparr>"

definition sample_cfg :: test_cluster_cfg where
  "sample_cfg = \<lparr>mode = TEST_MODE_AUTOMATIC, default_frequency_mhz = 2000, default_repetitions = 1,
     timeout = 0, slots = [sample_slot], function_test = 0x48001000, function_trampoline = 0x48002000,
     function_interrupt = 0x48003000\<rparr>"

definition sample_platform :: platform where
  "sample_platform = \<lparr>asic = True, has_fll = True, gpio_wr = (\<lambda>env pin v s. (True, s))\<rparr>"

definition sample_io :: host_io where
  "sample_io = \<lparr>stdin = [], console_out = [], uart_if = default_uart_inst True\<rparr>"

theorem bad_frequency_never_returns_witness:
  "test_rounds sample_platform quiet_env sample_cfg 32768 (boot, sample_io) = None"
  by (rule bad_frequency_never_returns) (simp_all add: sample_platform_def sample_cfg_def in_range_def)

lemma finish_timed_out:
  assumes "finish_clusters env True cs r st = Some (Ret r', st')"
  shows "r' = (if cs = [] then r else 0)"
  using assms
proof (induction cs arbitrary: r st)
  case Nil
  then show ?case by (simp add: give_def)
next
  case (Cons c cs)
  from Cons.prems obtain st1 where "finish_clusters env True cs 0 st1 = Some (Ret r', st')"
    by (auto simp: finish_cluster_def dest!: chain_SomeD simp: give_def on_machine_def)
  from Cons.IH [OF this] show ?case by simp
qed

lemma run_clusters_timed_out:
  assumes "run_clusters env cfg rtc r st = Some (Ret (True, r'), st')" and "slots cfg \<noteq> []"
  shows "r' = 0"
proof -
  from assms(1) obtain st1 where "finish_clusters env True (slots cfg) r st1 = Some (Ret r', st')"
    unfolding run_clusters_def by (auto dest!: chain_SomeD simp: give_def)
  from finish_timed_out [OF this] assms(2) show ?thesis by simp
qed


subsection \<open>Properties: polling\<close>

lemma nops_later [simp]: "now (nops env n s) = Suc (now s)"
  by (simp add: nops_def)

lemma busy_later: "now s \<le> now (snd (snitchCluster_busy env c s))"
  by (simp add: snitchCluster_busy_def split_beta split: option.splits)

lemma count_done_later: "now s \<le> now (snd (count_done env cs s))"
proof -
  have "now (snd p) \<le> now (snd (fold (\<lambda>c (n, s). let (b, s) = snitchCluster_busy env (clusterId c) s
      in (n + (if b \<noteq> 0 then 0 else 1), s)) cs p))" for p :: "nat \<times> machine"
  proof (induction cs arbitrary: p)
    case (Cons c cs)
    let ?q = "(fst p + (if fst (snitchCluster_busy env (clusterId c) (snd p)) \<noteq> 0 then 0 else 1),
        snd (snitchCluster_busy env (clusterId c) (snd p)))"
    show ?case
      using order_trans [OF busy_later [of "snd p" env "clusterId c"]] Cons.IH [of ?q]
      by (simp add: split_beta Let_def)
  qed simp
  from this [of "(0, s)"]
  show ?thesis by (simp add: count_done_def)
qed

lemma serve_later: "now (fst st) \<le> now (fst (serve_request env st))"
  by (simp add: serve_request_def htif_read_def htif_write_def Let_def split_beta)

lemma sleep_until_returns:
  assumes "mono T" and "clock T env"
  shows "\<exists>s'. clint32_sleep_until env i tgt s = Some ((), s') \<and> now s \<le> now s'"
proof -
  obtain t s1 n where "clint32_get_mtime env s = Some (t, s1)" "now s \<le> n" "n < now s1"
    using clint32_snapshot [OF assms] by blast
  then show ?thesis
    by (auto simp: clint32_sleep_until_def arm_and_wait_def clint32_set_mtimecmpx_def Let_def)
qed

lemma sleep_ticks_returns:
  assumes "mono T" and "clock T env"
  shows "\<exists>s'. clint32_sleep_ticks env i k s = Some ((), s') \<and> now s \<le> now s'"
proof -
  obtain t s1 n where g: "clint32_get_mtime env s = Some (t, s1)" "now s \<le> n" "n < now s1"
    using clint32_snapshot [OF assms] by blast
  obtain s2 where "clint32_sleep_until env i (ticks_after32 t k) s1 = Some ((), s2)" "now s1 \<le> now s2"
    using sleep_until_returns [OF assms] by blast
  with g show ?thesis by (auto simp: clint32_sleep_ticks_def)
qed

text \<open>A round either leaves or has read the clock once, before the deadline.\<close>

lemma poll_round_clock:
  assumes "mono T" and "clock T env"
  shows "\<exists>r x'. poll_round env cs deadline x = Some (r, x') \<and>
    (r = None \<longrightarrow> (\<exists>n. now (fst (snd x)) \<le> n \<and> n < now (fst (snd x')) \<and> T n \<le> mtime32_val deadline))"
proof -
  obtain finished s io where x: "x = (finished, s, io)" by (cases x) auto
  obtain d s1 where c: "count_done env cs s = (d, s1)" by (cases "count_done env cs s")
  have later: "now s \<le> now s1" using count_done_later [of s env cs] c by simp
  obtain t s2 n where g: "clint32_get_mtime env s1 = Some (t, s2)" "mtime32_val t = T n" "now s1 \<le> n" "n < now s2"
    using clint32_snapshot [OF assms] by blast
  obtain s3 io3 where sv: "serve_request env (s2, io) = (s3, io3)" by (cases "serve_request env (s2, io)")
  have later3: "now s2 \<le> now s3" using serve_later [of "(s2, io)" env] sv by simp
  obtain s4 where sl: "clint32_sleep_ticks env 0 10 s3 = Some ((), s4)" "now s3 \<le> now s4"
    using sleep_ticks_returns [OF assms] by blast
  show ?thesis
    using later later3 g sl(2)
    by (auto simp: poll_round_def x c g(1) sv sl(1) clint32_less_val not_less intro!: exI [of _ n])
qed



subsection \<open>Properties: deadline\<close>

lemma test_deadline_ticks: "test_deadline rtc tmo t = ticks_after32 t (rtc * tmo div 1000)"
  by (simp add: test_deadline_def ticks_after32_def Let_def)

text \<open>C24: the deadline is the start time plus the timeout in clock ticks as long as the product of
  clock rate and timeout fits in 32 bits; at 32768 Hz a timeout of 131072 ms wraps to a deadline that
  is the start time itself.\<close>

theorem deadline_bounds:
  assumes "unat rtc_freq * unat tmo < 2 ^ 32"
  shows "mtime32_val (test_deadline rtc_freq tmo t) = mtime32_val t + of_nat (unat rtc_freq * unat tmo div 1000)
    \<and> test_deadline 32768 131072 t = t"
proof
  have "unat (rtc_freq * tmo div 1000) = unat rtc_freq * unat tmo div 1000"
    using assms by (simp add: unat_div unat_mult_no_wrap)
  then have "(ucast (rtc_freq * tmo div 1000) :: u64) = of_nat (unat rtc_freq * unat tmo div 1000)"
    by (simp flip: \<open>unat (rtc_freq * tmo div 1000) = _\<close>)
  then show "mtime32_val (test_deadline rtc_freq tmo t) = mtime32_val t + of_nat (unat rtc_freq * unat tmo div 1000)"
    by (simp add: test_deadline_ticks ticks_after32_val)
  show "test_deadline 32768 131072 t = t"
    by (simp add: test_deadline_def Let_def)
qed

theorem deadline_bounds_witness:
  "mtime32_val (test_deadline 32768 1000 \<lparr>low = 0xFFFFFFFF, high = 0\<rparr>) = 2 ^ 32 - 1 + 32768"
proof -
  have "mtime32_val \<lparr>low = 0xFFFFFFFF, high = 0\<rparr> = 2 ^ 32 - 1"
    by (simp add: mtime32_val_def time_join_def)
  then show ?thesis
    using deadline_bounds [of 32768 1000 "\<lparr>low = 0xFFFFFFFF, high = 0\<rparr>"] by simp
qed

subsection \<open>Properties: interactive mode\<close>

text \<open>Answering "y" starts a round whose first question the user cannot answer: the answer is read
  with a buffer of two, which leaves its newline in the input, and the newline is then taken
  as an empty line, that is, as the default of one repetition.\<close>

theorem stale_newline:
  assumes "mode cfg = TEST_MODE_INTERACTIVE" and "stdin io = CHR ''y'' # CHR 0x0A # rest"
  shows "chain (ask_again cfg False retVal) (\<lambda>r. if r = None then choose_repetitions env cfg else give False) (s, io)
    = Some (Ret True, set_repetitions env 1 (slots cfg) s, io\<lparr>stdin := rest\<rparr>)"
proof -
  have y: "fgets 2 (s, io) = Some (Ret (Some ''y''), s, io\<lparr>stdin := CHR 0x0A # rest\<rparr>)"
    by (simp add: fgets_def Let_def assms(2) numeral_2_eq_2)
  then have again: "ask_again cfg False retVal (s, io) = Some (Ret None, s, io\<lparr>stdin := CHR 0x0A # rest\<rparr>)"
    using assms(1) by (simp add: ask_again_def chain_def give_def)
  have "fgets 32 (s, io\<lparr>stdin := CHR 0x0A # rest\<rparr>) = Some (Ret (Some [CHR 0x0A]), s, io\<lparr>stdin := rest\<rparr>)"
    by (simp add: fgets_def Let_def numeral_eq_Suc)
  then have "choose_repetitions env cfg (s, io\<lparr>stdin := CHR 0x0A # rest\<rparr>)
      = Some (Ret True, set_repetitions env 1 (slots cfg) s, io\<lparr>stdin := rest\<rparr>)"
    using assms(1) by (simp add: choose_repetitions_def chain_def give_def on_machine_def)
  with again show ?thesis by (simp add: chain_def [of "ask_again cfg False retVal"])
qed

theorem stale_newline_witness:
  "\<exists>st. chain (ask_again (sample_cfg\<lparr>mode := TEST_MODE_INTERACTIVE\<rparr>) False 0)
      (\<lambda>r. if r = None then choose_repetitions quiet_env (sample_cfg\<lparr>mode := TEST_MODE_INTERACTIVE\<rparr>) else give False)
      (boot, sample_io\<lparr>stdin := [CHR ''y'', CHR 0x0A, CHR ''5'', CHR 0x0A]\<rparr>) = Some (Ret True, st)
    \<and> stdin (snd st) = [CHR ''5'', CHR 0x0A]"
  using stale_newline [of "sample_cfg\<lparr>mode := TEST_MODE_INTERACTIVE\<rparr>"
      "sample_io\<lparr>stdin := [CHR ''y'', CHR 0x0A, CHR ''5'', CHR 0x0A]\<rparr>" "[CHR ''5'', CHR 0x0A]" 0 quiet_env boot]
  by simp

subsection \<open>Properties: clocks after the test\<close>

lemma reads32_held: "env_holds env R \<Longrightarrow> a \<in> R \<Longrightarrow> peek32 (reads32 env b k s) a = peek32 s a"
  by (induction k arbitrary: s) (simp_all add: rd32_held)

lemma return_gate_sep: "unat c < 5 \<Longrightarrow> unat c' < 5 \<Longrightarrow> sep32 (clk_gate_word c') (cluster_return_word c)"
  by (auto simp: small_id_cases clk_gate_word_def cluster_return_word_def reg_offsets sep32_def)

lemma wait_return_gates:
  assumes "env_holds env power_words" and "unat c < 5" and "unat c' < 5"
    and "wait_snitchCluster_return env c s = Some (v, s')"
  shows "peek32 s' (clk_gate_word c') = peek32 s (clk_gate_word c')"
proof -
  have g: "clk_gate_word c' \<in> power_words" using power_words_in [OF assms(3)] by blast
  have "return_reg c = Some (cluster_return_word c)"
    using assms(2) by (simp add: return_reg_cases cluster_return_word_def)
  with assms(4) obtain u s1 where p: "poll32 env (cluster_return_word c) (\<lambda>v. v \<noteq> 0) s = Some (u, s1)"
    and s': "s' = wr32 env (cluster_return_word c) 0 (snd (rd32 env (cluster_return_word c) s1))"
    by (auto simp: wait_snitchCluster_return_def split_beta split: option.splits)
  from p have "peek32 s1 (clk_gate_word c') = peek32 s (clk_gate_word c')"
    unfolding poll32_Some_iff by (auto simp: reads32_held [OF assms(1) g] simp del: reads32.simps)
  then show ?thesis
    by (simp add: s' peek32_wr32_sep [OF assms(1) g return_gate_sep [OF assms(2,3)]] rd32_held(2) [OF assms(1) g])
qed

definition gated :: "machine \<Rightarrow> u8 \<Rightarrow> bool" where
  "gated s c \<longleftrightarrow> mem (hw s) (clk_gate_word c) = 1"

lemma gated_cong: "peek32 s' (clk_gate_word c) = peek32 s (clk_gate_word c) \<Longrightarrow> gated s' c = gated s c"
  by (simp add: gated_def peek32_def load32_byte(1) [of "mem (hw s')"] load32_byte(1) [of "mem (hw s)"])

lemma gating_keeps:
  assumes "env_holds env power_words" and "unat c < 5" and "unat c' < 5"
  shows "gated (set_snitchCluster_clockGating env c True s) c"
    and "gated s c' \<Longrightarrow> gated (set_snitchCluster_clockGating env c True s) c'"
proof -
  have set: "set_snitchCluster_clockGating env c True s = wr8 env (clk_gate_word c) 1 s"
    using power_regs [OF assms(2)] by (simp add: set_snitchCluster_clockGating_def)
  show self: "gated (set_snitchCluster_clockGating env c True s) c"
    by (simp add: set gated_def wr8_same del: wr8_sel)
  show "gated (set_snitchCluster_clockGating env c True s) c'" if "gated s c'"
  proof (cases "c' = c")
    case False
    have "clk_gate_word c' \<in> power_words" using power_words_in [OF assms(3)] by blast
    from gated_cong [OF peek32_wr8_sep [OF assms(1) this power_words_sep(1) [OF assms(2,3) False]]] that
    show ?thesis by (simp only: set)
  qed (simp add: self)
qed

lemma finish_cluster_gates:
  assumes "env_holds env power_words" and "unat (clusterId c) < 5" and "unat c' < 5"
    and "finish_cluster env timed_out c st = Some (Ret v, st')"
  shows "gated (fst st') (clusterId c)" and "gated (fst st) c' \<Longrightarrow> gated (fst st') c'"
proof -
  obtain s1 where s1: "st' = (set_snitchCluster_clockGating env (clusterId c) True s1, snd st')"
    and keep: "gated (fst st) c' \<Longrightarrow> gated s1 c'"
  proof (cases timed_out)
    case True
    with assms(4) that [of "fst st"] show ?thesis
      by (auto simp: finish_cluster_def give_def)
  next
    case False
    with assms(4) obtain u s1 where w: "wait_snitchCluster_return env (clusterId c) (fst st) = Some (Ret u, s1)"
      and "st' = (set_snitchCluster_clockGating env (clusterId c) True s1, snd st)"
      by (auto simp: finish_cluster_def try_machine_def give_def on_machine_def split: option.splits dest!: chain_SomeD)
    with that [of s1] gated_cong [OF wait_return_gates [OF assms(1-3) w]] show ?thesis by simp
  qed
  show "gated (fst st') (clusterId c)"
    using gating_keeps(1) [OF assms(1,2,2)] by (subst s1) simp
  show "gated (fst st') c'" if "gated (fst st) c'"
    using gating_keeps(2) [OF assms(1-3) keep [OF that]] by (subst s1) simp
qed

lemma finish_clusters_keep:
  assumes "env_holds env power_words" and "unat c' < 5"
  shows "\<forall>c\<in>set cs. unat (clusterId c) < 5 \<Longrightarrow> finish_clusters env timed_out cs r st = Some (Ret v, st')
    \<Longrightarrow> gated (fst st) c' \<Longrightarrow> gated (fst st') c'"
proof (induction cs arbitrary: r st)
  case (Cons c cs)
  then obtain u st1 where f: "finish_cluster env timed_out c st = Some (Ret u, st1)"
    and "finish_clusters env timed_out cs u st1 = Some (Ret v, st')"
    by (auto dest!: chain_SomeD)
  with Cons finish_cluster_gates(2) [OF assms(1) _ assms(2) f] show ?case by simp
qed (simp add: give_def)

text \<open>C20: whatever happened during a test, timed out or not, once its results have been collected every
  cluster that took part has its clock gated again.\<close>

theorem clusters_gated_after_test:
  assumes "env_holds env power_words" and "\<forall>c\<in>set cs. unat (clusterId c) < 5"
    and "finish_clusters env timed_out cs r st = Some (Ret v, st')" and "c \<in> set cs"
  shows "gated (fst st') (clusterId c)"
  using assms(2-4)
proof (induction cs arbitrary: r st)
  case (Cons d cs)
  then obtain u st1 where f: "finish_cluster env timed_out d st = Some (Ret u, st1)"
    and g: "finish_clusters env timed_out cs u st1 = Some (Ret v, st')"
    by (auto dest!: chain_SomeD)
  show ?case
  proof (cases "c = d")
    case True
    have "unat (clusterId d) < 5" using Cons.prems(1) by simp
    with True finish_cluster_gates(1) [OF assms(1) this this f]
      finish_clusters_keep [OF assms(1) this _ g] Cons.prems(1) show ?thesis by simp
  next
    case False
    with Cons.IH [OF _ g] Cons.prems show ?thesis by simp
  qed
qed simp

theorem clusters_gated_after_test_witness:
  "\<exists>st'. finish_clusters quiet_env True [sample_slot, sample_slot\<lparr>clusterId := 3\<rparr>] 0 (boot, sample_io) = Some (Ret 0, st')
    \<and> gated (fst st') 3"
proof -
  obtain st' where st': "finish_clusters quiet_env True [sample_slot, sample_slot\<lparr>clusterId := 3\<rparr>] 0 (boot, sample_io)
      = Some (Ret 0, st')"
    by (simp add: finish_cluster_def chain_def give_def on_machine_def)
  from clusters_gated_after_test [OF env_holds_quiet _ this, of "sample_slot\<lparr>clusterId := 3\<rparr>"] st' show ?thesis
    by (auto simp: sample_slot_def)
qed

subsection \<open>Properties: serving a request\<close>

text \<open>A write request of \<open>bs\<close> is pending: the mailbox holds the address of its header.\<close>

definition request_at :: "machine \<Rightarrow> addr \<Rightarrow> addr \<Rightarrow> u8 list \<Rightarrow> bool" where
  "request_at s a buf bs \<longleftrightarrow> a \<noteq> 0 \<and> peek32 s d2h = a \<and> peek32 s (d2h + 4) = 0
     \<and> peek32 s a = 64 \<and> peek32 s (a + 8) = buf \<and> unat (peek32 s (a + 12)) = length bs
     \<and> map (\<lambda>i. mem (hw s) (buf + of_nat i)) [0..<length bs] = bs"

text \<open>The request lies outside the mailbox, and the hardware leaves both alone.\<close>

definition request_safe :: "env \<Rightarrow> addr \<Rightarrow> addr \<Rightarrow> nat \<Rightarrow> bool" where
  "request_safe env a buf n \<longleftrightarrow>
     list_all (\<lambda>x. sep32 x d2h \<and> sep32 x (d2h + 4)) [a, a + 8, a + 12, h2d]
     \<and> (\<forall>i<n. 4 \<le> buf + of_nat i - d2h \<and> 4 \<le> buf + of_nat i - (d2h + 4))
     \<and> env_holds env {d2h, d2h + 4, a, a + 8, a + 12, h2d}
     \<and> env_keeps env ((\<lambda>i. buf + of_nat i) ` {..<n})"

lemma mailbox_halves: "sep32 d2h (d2h + 4)" "sep32 (d2h + 4) d2h"
  by (simp_all add: sep32_def)

text \<open>Accesses to the mailbox and reads leave a pending request as it is.\<close>

lemma request_bytes:
  assumes "request_safe env a buf n" and "i < n"
  shows "mem (hw (snd (rd32 env x s))) (buf + of_nat i) = mem (hw s) (buf + of_nat i)"
    and "mem (hw (wr32 env d2h v s)) (buf + of_nat i) = mem (hw s) (buf + of_nat i)"
    and "mem (hw (wr32 env (d2h + 4) v s)) (buf + of_nat i) = mem (hw s) (buf + of_nat i)"
proof -
  have k: "env_keeps env ((\<lambda>i. buf + of_nat i) ` {..<n})" using assms(1) by (simp add: request_safe_def)
  have b: "buf + of_nat i \<in> (\<lambda>i. buf + of_nat i) ` {..<n}" using assms(2) by simp
  show "mem (hw (snd (rd32 env x s))) (buf + of_nat i) = mem (hw s) (buf + of_nat i)"
    "mem (hw (wr32 env d2h v s)) (buf + of_nat i) = mem (hw s) (buf + of_nat i)"
    "mem (hw (wr32 env (d2h + 4) v s)) (buf + of_nat i) = mem (hw s) (buf + of_nat i)"
    using assms by (simp_all only: keep_byte(3) [OF k b]) (simp_all add: request_safe_def keep_byte(1) [OF k b] del: wr32_sel)
qed

lemma request_words:
  assumes "request_safe env a buf n" and "x \<in> {a, a + 8, a + 12, h2d}"
  shows "fst (rd32 env x s) = peek32 s x" and "peek32 (snd (rd32 env y s)) x = peek32 s x"
    and "peek32 (wr32 env d2h v s) x = peek32 s x" and "peek32 (wr32 env (d2h + 4) v s) x = peek32 s x"
proof -
  have h: "env_holds env {d2h, d2h + 4, a, a + 8, a + 12, h2d}" using assms(1) by (simp add: request_safe_def)
  have x: "x \<in> {d2h, d2h + 4, a, a + 8, a + 12, h2d}" using assms(2) by auto
  have sep: "sep32 x d2h" "sep32 x (d2h + 4)" using assms by (auto simp: request_safe_def)
  show "fst (rd32 env x s) = peek32 s x" and "peek32 (snd (rd32 env y s)) x = peek32 s x"
    and "peek32 (wr32 env d2h v s) x = peek32 s x" and "peek32 (wr32 env (d2h + 4) v s) x = peek32 s x"
    by (rule rd32_held [OF h x] peek32_wr32_sep [OF h x sep(1)] peek32_wr32_sep [OF h x sep(2)])+
qed

lemma mailbox_words:
  assumes "request_safe env a buf n"
  shows "fst (rd32 env d2h s) = peek32 s d2h" and "fst (rd32 env (d2h + 4) s) = peek32 s (d2h + 4)"
    and "peek32 (snd (rd32 env y s)) d2h = peek32 s d2h"
    and "peek32 (snd (rd32 env y s)) (d2h + 4) = peek32 s (d2h + 4)"
    and "peek32 (wr32 env (d2h + 4) v s) d2h = peek32 s d2h"
proof -
  have h: "env_holds env {d2h, d2h + 4, a, a + 8, a + 12, h2d}" using assms by (simp add: request_safe_def)
  note d = rd32_held [OF h, of d2h] and d4 = rd32_held [OF h, of "d2h + 4"]
  show "fst (rd32 env d2h s) = peek32 s d2h" "fst (rd32 env (d2h + 4) s) = peek32 s (d2h + 4)"
    "peek32 (snd (rd32 env y s)) d2h = peek32 s d2h" "peek32 (snd (rd32 env y s)) (d2h + 4) = peek32 s (d2h + 4)"
    using d d4 by (simp_all del: fst_rd32)
  show "peek32 (wr32 env (d2h + 4) v s) d2h = peek32 s d2h"
    by (rule peek32_wr32_sep [OF h _ mailbox_halves(1)]) simp
qed

text \<open>A pending write request is printed in full, but answered in the mailbox it came from: the
  mailbox then holds the same request again, the word the waiting core polls is untouched, and the next
  round prints the same bytes once more.\<close>

lemma request_served:
  fixes io :: host_io
  assumes "request_safe env a buf (length bs)" and "request_at s a buf bs"
  defines "st \<equiv> serve_request env (s, io)"
  shows "request_at (fst st) a buf bs \<and> console_out (snd st) = console_out io @ bs
    \<and> peek32 (fst st) h2d = peek32 s h2d"
proof -
  note words = request_words [OF assms(1)] and mbox = mailbox_words [OF assms(1)]
  note req = assms(2) [unfolded request_at_def]
  let ?r = "\<lambda>x s. snd (rd32 env x s)" and ?m = "\<lambda>v s. wr32 env (d2h + 4) 0 (wr32 env d2h v s)"
  let ?s1 = "?m 0 (?r (d2h + 4) (?r d2h (?r (d2h + 4) (?r d2h s))))"
  let ?s2 = "?r (a + 12) (?r a (?r (a + 8) ?s1))"
  have out: "map (\<lambda>i. mem (hw ?s2) (buf + of_nat i)) [0..<length bs] = bs"
  proof -
    have "mem (hw ?s2) (buf + of_nat i) = mem (hw s) (buf + of_nat i)" if "i < length bs" for i
      by (simp only: request_bytes [OF assms(1) that])
    then have "map (\<lambda>i. mem (hw ?s2) (buf + of_nat i)) [0..<length bs] = map (\<lambda>i. mem (hw s) (buf + of_nat i)) [0..<length bs]"
      by (intro map_cong) simp_all
    also have "\<dots> = bs" using req by blast
    finally show ?thesis .
  qed
  have st: "st = (?m a ?s2, io\<lparr>console_out := console_out io @ bs\<rparr>)"
    using req out
    by (simp add: st_def serve_request_def htif_read_def htif_write_def Let_def split_beta words mbox
        del: fst_rd32 snd_rd32_sel wr32_sel)
  have "map (\<lambda>i. mem (hw (?m a ?s2)) (buf + of_nat i)) [0..<length bs] = map (\<lambda>i. mem (hw ?s2) (buf + of_nat i)) [0..<length bs]"
    by (intro map_cong refl) (simp only: request_bytes [OF assms(1)] atLeastLessThan_iff set_upt)
  with req out have "request_at (?m a ?s2) a buf bs"
    by (simp add: request_at_def words mbox peek32_wr32_same del: fst_rd32 snd_rd32_sel wr32_sel)
  moreover have "peek32 (?m a ?s2) h2d = peek32 s h2d"
    by (simp add: words del: fst_rd32 snd_rd32_sel wr32_sel)
  ultimately show ?thesis by (simp add: st)
qed

definition sample_request :: machine where
  "sample_request = boot\<lparr>hw := (hw boot)\<lparr>mem := store8 (store8 (store32 (store32 (store32 (store32 (\<lambda>_. 0)
     d2h 0x48001000) 0x48001000 64) 0x48001008 0x48002000) 0x4800100C 2) 0x48002000 72) 0x48002001 10\<rparr>\<rparr>"

lemma d2h_value: "d2h = 0x48000008" "h2d = 0x48000000"
  by (simp_all add: d2h_def h2d_def host_to_device_word_def device_to_host_word_def shared_data_def off_device_to_host_def off_host_to_device_def htif_bytes_def)

theorem request_served_witness:
  "request_at (fst (serve_request quiet_env (sample_request, sample_io))) 0x48001000 0x48002000 [72, 10]
    \<and> console_out (snd (serve_request quiet_env (sample_request, sample_io))) = [72, 10]"
proof -
  have safe: "request_safe quiet_env 0x48001000 0x48002000 (length [72, 10 :: u8])"
    by (auto simp: request_safe_def d2h_value sep32_def less_Suc_eq)
  have "request_at sample_request 0x48001000 0x48002000 [72, 10]"
    by (simp add: request_at_def sample_request_def boot_def peek32_def d2h_value load32_store8_sep load32_store32_sep
        load32_store32_same sep32_def)
      (simp add: store8_def load32_def store32_def)
  from request_served [OF safe this, of sample_io] show ?thesis
    by (simp add: sample_io_def)
qed

subsection \<open>A timed-out test\<close>

text \<open>An idle cluster 0 and a clock: the hardware keeps cluster 0's busy register at zero.\<close>

definition idle_env :: "(nat \<Rightarrow> u64) \<Rightarrow> env" where
  "idle_env T n h = clock_env T n (h\<lparr>mem := store32 (mem h) (cluster_busy_word 0) 0\<rparr>)"

lemma idle_env_clock: "clock T (idle_env T)"
  using clock_clock_env [of T] by (simp add: clock_def idle_env_def)

lemma idle_busy: "load32 (mem (idle_env T n h)) (cluster_busy_word 0) = 0"
  by (simp add: idle_env_def clock_env_def load32_store32_sep load32_store32_same sep32_def reg32_def
      reg_offsets cluster_busy_word_def)

lemma idle_poll:
  "poll32 (idle_env T) (cluster_busy_word 0) (\<lambda>v. v \<noteq> 1) s = Some (0, snd (rd32 (idle_env T) (cluster_busy_word 0) s))"
proof -
  have "reg_at (idle_env T) s (cluster_busy_word 0) 0 = 0"
    by (simp add: reg_at_0 idle_busy)
  then show ?thesis
    unfolding poll32_Some_iff by (intro exI [of _ 0]) simp
qed

lemma idle_offload:
  assumes "2 \<le> length sps"
  shows "\<exists>s'. offload_snitchCluster ChimeraConvolve (idle_env T) (f :: u32) tr args sps 0 s = Some (Ret (), s')
    \<and> now s' = now s + 15"
proof -
  have b: "busy_reg 0 = Some (cluster_busy_word 0)" by (simp add: busy_reg_cases cluster_busy_word_def)
  have n: "cluster_size ChimeraConvolve 0 = Suc (Suc 0)" by (simp add: cluster_size_def chimera_numCores_def)
  have step: "now (offload_step ChimeraConvolve (idle_env T) f tr args sps (of_nat hb) i x) = now x + 6" for hb i x
    by (simp add: offload_step_eq)
  show ?thesis
    using assms by (simp add: offload_eq [OF _ _ b] n idle_poll step)
qed


lemma idle_start:
  "\<exists>s'. start_clusters (idle_env T) [sample_slot] (s, io) = Some (Ret [[0x40020000, 0x4001FC00]], s', io)
    \<and> now s' = now s + 5"
proof -
  have sps: "generate_snitchCluster_SPs ChimeraConvolve 0 (0x40020000 :: u32) [0x400, 0x400] = Ret ([0x40020000, 0x4001FC00], 0x4001F800)"
    by (simp add: generate_snitchCluster_SPs_def cluster_cores_def chimera_numCores_def Let_def numeral_2_eq_2)
  show ?thesis
    by (simp add: start_cluster_def sample_slot_def sps chain_def on_machine_def give_def Let_def
        set_snitchCluster_clockGating_def set_snitchCluster_reset_def clk_gate_reg_def reset_reg_def)
qed

lemma tick_read:
  assumes "now s + 2 \<le> 1000"
  shows "\<exists>s'. clint32_get_mtime (idle_env tick_clock) s = Some (\<lparr>low = of_nat (now s + 1), high = 0\<rparr>, s') \<and> now s' = now s + 3"
proof -
  have hi: "time_high (tick_clock n) = 0" for n
    by (simp add: word_eq_iff_unat time_unat tick_clock_def unat_of_nat min_def)
  have lo: "time_low (tick_clock (now s + 1)) = of_nat (now s + 1)"
    using assms by (simp add: word_eq_iff_unat time_unat tick_clock_def unat_of_nat min_def del: of_nat_Suc of_nat_add)
  show ?thesis
    using clint32_get_mtime_steady [OF idle_env_clock, of tick_clock s] by (simp only: hi lo)
qed

lemma timed_out_run:
  assumes "now s = 1" and "slots cfg = [sample_slot]" and "timeout cfg = 0"
  shows "\<exists>st'. run_clusters (idle_env tick_clock) cfg rtc r (s, io) = Some (Ret (True, 0), st')"
proof -
  let ?e = "idle_env tick_clock"
  define s1 where "s1 = setup_snitchCluster_interruptHandler ?e (function_interrupt cfg) s"
  have n1: "now s1 = 2" by (simp add: s1_def setup_snitchCluster_interruptHandler_def wr_ptr_def assms(1))
  obtain s2 where st: "start_clusters ?e [sample_slot] (s1, io) = Some (Ret [[0x40020000, 0x4001FC00]], s2, io)"
    and n2: "now s2 = 7"
    using idle_start [of tick_clock s1 io] n1 by auto
  obtain s3 where t3: "clint32_get_mtime ?e s2 = Some (\<lparr>low = 8, high = 0\<rparr>, s3)" and n3: "now s3 = 10"
    using tick_read [of s2] n2 by auto
  obtain s4 where off: "offload_snitchCluster ChimeraConvolve ?e (function_test cfg) (function_trampoline cfg)
      0x48010000 [0x40020000, 0x4001FC00] 0 (set_mie ?e False s3) = Some (Ret (), s4)" and n4: "now s4 = 26"
    using idle_offload [where sps = "[0x40020000, 0x4001FC00]" and s = "set_mie ?e False s3" and T = tick_clock
      and f = "function_test cfg" and tr = "function_trampoline cfg" and args = "0x48010000"] n3 by auto
  define s5 where "s5 = set_mie ?e True s4"
  obtain d s6 where cd: "count_done ?e [sample_slot] s5 = (d, s6)" by (cases "count_done ?e [sample_slot] s5")
  have n6: "now s6 = 28"
  proof -
    have "busy_reg 0 = Some (cluster_busy_word 0)" by (simp add: busy_reg_cases cluster_busy_word_def)
    then show ?thesis
      using cd n4 by (auto simp: count_done_def sample_slot_def snitchCluster_busy_def split_beta s5_def)
  qed
  obtain s7 where t7: "clint32_get_mtime ?e s6 = Some (\<lparr>low = 29, high = 0\<rparr>, s7)"
    using tick_read [of s6] n6 by auto
  have dl: "test_deadline rtc 0 \<lparr>low = 8, high = 0\<rparr> = \<lparr>low = 8, high = 0\<rparr>"
    by (simp add: test_deadline_def Let_def)
  have less: "clint32_mtime_less_than \<lparr>low = 8, high = 0\<rparr> \<lparr>low = 29, high = 0\<rparr>"
    by (simp add: clint32_mtime_less_than_def)
  have "poll_round ?e [sample_slot] \<lparr>low = 8, high = 0\<rparr> (0, s5, io) = Some (Some True, d, s7, io)"
    by (simp add: poll_round_def cd t7 less)
  then have poll: "poll_clusters ?e [sample_slot] \<lparr>low = 8, high = 0\<rparr> (s5, io) = Some (Ret True, s7, io)"
    by (simp add: poll_clusters_def loop_unfold)
  have offs: "offload_clusters ?e cfg [(sample_slot, [0x40020000, 0x4001FC00])] (set_mie ?e False s3, io) = Some (Ret (), s4, io)"
    using off by (simp add: sample_slot_def try_machine_def chain_def give_def)
  obtain st' where fin: "finish_clusters ?e True [sample_slot] r (s7, io) = Some (Ret 0, st')"
    by (simp add: finish_cluster_def chain_def on_machine_def give_def)
  show ?thesis
    unfolding run_clusters_def assms(2,3)
    by (simp add: chain_def on_machine_def run_machine_def give_def st t3 dl offs poll fin
        del: start_clusters.simps offload_clusters.simps finish_clusters.simps flip: s1_def s5_def)
qed


end
