(* ===== verification/Console.thy ===== *)
theory Console
  imports TestCluster
begin

section \<open>A line from a core to the console of test\_cluster\<close>

text \<open>
  The two sides of the character protocol on chimera-convolve put together: the request that
  \<open>snrt_putchar\<close> posts (\<open>Putc\<close>) and the round of the host's polling loop that serves it
  (\<open>TestCluster\<close>). The core and the host share the byte memory; each has its own environment,
  and the host may start to serve in any machine that agrees with the core's memory on the
  buffer and the mailbox.
\<close>

subsection \<open>The posted request is one the host can serve\<close>

lemma buf_word_apart:
  assumes "\<forall>a\<in>buf_bytes buf. 4 \<le> a - w" and "i \<le> 1052"
  shows "sep32 (buf + of_nat i) w"
proof -
  have far: "4 \<le> buf + of_nat (i + k) - w" if "k < 4" for k
    using assms buf_off [of "i + k" buf] that by simp
  have neq: "buf + of_nat (i + k) \<noteq> w" if "k < 4" for k
    using far [OF that] by auto
  have "4 \<le> w - (buf + of_nat i)"
  proof (rule ccontr)
    assume "\<not> 4 \<le> w - (buf + of_nat i)"
    then have "unat (w - (buf + of_nat i)) < 4" by (simp add: word_le_nat_alt)
    from neq [OF this] show False by simp
  qed
  with far [of 0] show ?thesis by (simp add: sep32_def)
qed

lemma convolve_words:
  "mailbox_words ChimeraConvolve = {h2d, d2h, msip0_word, h2d + 4, d2h + 4}"
  by (auto simp: mailbox_words_def h2d_def d2h_def)

lemma request_safe_buf:
  assumes "mailboxes_apart ChimeraConvolve buf" and "env_keeps henv (buf_bytes buf)"
    and "env_holds henv {d2h, d2h + 4, h2d}" and "n \<le> 1020"
  shows "request_safe henv (buf + 4) (buf + off_data) n"
proof -
  have far: "\<forall>a\<in>buf_bytes buf. 4 \<le> a - w" if "w \<in> {h2d, d2h, h2d + 4, d2h + 4}" for w
    using assms(1) that by (auto simp: mailboxes_apart_def convolve_words)
  have "sep32 (buf + of_nat i) w" if "i \<le> 1052" "w \<in> {d2h, d2h + 4}" for i w
    using that by (intro buf_word_apart [OF far]) auto
  from this [of 4] this [of 12] this [of 16]
  have sep: "list_all (\<lambda>x. sep32 x d2h \<and> sep32 x (d2h + 4)) [buf + 4, buf + 4 + 8, buf + 4 + 12, h2d]"
    by (simp add: add.assoc) (simp add: sep32_def d2h_value)
  have data: "buf + off_data + of_nat i = buf + of_nat (36 + i)" for i
    by (simp add: off_data_def add.assoc)
  have bytes: "buf + off_data + of_nat i \<in> buf_bytes buf" if "i < n" for i
    unfolding data using that assms(4) by (intro buf_off) simp
  have held: "env_holds henv {buf + 4, buf + 4 + 8, buf + 4 + 12}"
    using env_keeps_word [OF assms(2), of 4] env_keeps_word [OF assms(2), of 12] env_keeps_word [OF assms(2), of 16]
    by (simp add: env_holds_def add.assoc)
  show ?thesis
    unfolding request_safe_def
  proof (intro conjI allI impI)
    show "env_holds henv {d2h, d2h + 4, buf + 4, buf + 4 + 8, buf + 4 + 12, h2d}"
      using assms(3) held by (simp add: env_holds_def)
    show "env_keeps henv ((\<lambda>i. buf + off_data + of_nat i) ` {..<n})"
      using assms(2) bytes by (auto simp: env_keeps_def)
  qed (use sep bytes far in auto)
qed

text \<open>The host's machine sees the core's buffer and the mailbox as the core left them.\<close>

definition sees :: "addr \<Rightarrow> machine \<Rightarrow> machine \<Rightarrow> bool" where
  "sees buf t h \<longleftrightarrow> same_buf buf t h \<and> peek32 h d2h = peek32 t d2h \<and> peek32 h (d2h + 4) = peek32 t (d2h + 4)"

lemma posted_mailbox:
  assumes "env_holds env {d2h, d2h + 4}"
  shows "peek32 (posted ChimeraConvolve env buf u) d2h = buf + 4"
    and "peek32 (posted ChimeraConvolve env buf u) (d2h + 4) = 0"
proof -
  have sep: "sep32 d2h msip0_word" "sep32 (d2h + 4) msip0_word"
    by (simp_all add: sep32_def d2h_value mailbox_values)
  have d: "device_to_host_word ChimeraConvolve = d2h" by (simp add: d2h_def)
  show "peek32 (posted ChimeraConvolve env buf u) d2h = buf + 4"
    by (simp add: posted_def htif_write_def d peek32_wr32_sep [OF assms _ sep(1)]
        peek32_wr32_sep [OF assms _ mailbox_halves(1)] peek32_wr32_same Let_def del: wr32_sel)
  show "peek32 (posted ChimeraConvolve env buf u) (d2h + 4) = 0"
    by (simp add: posted_def htif_write_def d peek32_wr32_sep [OF assms _ sep(2)] peek32_wr32_same Let_def del: wr32_sel)
qed

lemma posted_request_at:
  assumes "header_set buf out n t" and "peek32 t d2h = buf + 4" and "peek32 t (d2h + 4) = 0"
    and "peek32 t buf = n" and "unat n \<le> 1020" and "buf + 4 \<noteq> 0" and "sees buf t h"
  shows "request_at h (buf + 4) (buf + off_data) (line t buf)"
proof -
  have same: "same_buf buf t h" and m: "peek32 h d2h = buf + 4" "peek32 h (d2h + 4) = 0"
    using assms(2,3,7) by (auto simp: sees_def)
  note eq = same_buf_line [OF same, unfolded assms(4), OF assms(5)]
  have hs: "header_set buf out n h" using assms(1) eq(3) by simp
  have len: "length (line t buf) = unat n" "length (line h buf) = unat n"
    using eq(2) by (simp_all add: line_def assms(4))
  have "map (\<lambda>i. mem (hw h) (buf + off_data + of_nat i)) [0..<unat n] = line h buf"
    by (simp add: line_def data_byte_def [abs_def] flip: eq(2))
  with eq(1) hs show ?thesis
    by (simp add: request_at_def m assms(6) len header_set_def add.assoc)
qed

lemma requests_served:
  fixes io :: host_io
  assumes "request_safe henv a buf (length bs)" and "request_at h a buf bs"
  shows "request_at (fst ((serve_request henv ^^ k) (h, io))) a buf bs
    \<and> console_out (snd ((serve_request henv ^^ k) (h, io))) = console_out io @ concat (replicate k bs)
    \<and> peek32 (fst ((serve_request henv ^^ k) (h, io))) h2d = peek32 h h2d"
proof (induction k)
  case (Suc k)
  obtain s i where k: "(serve_request henv ^^ k) (h, io) = (s, i)" by (cases "(serve_request henv ^^ k) (h, io)")
  have rep: "concat (replicate k bs) @ bs = concat (replicate (Suc k) bs)"
    by (induction k) auto
  from request_served [OF assms(1), of s i] Suc.IH rep show ?case
    by (simp add: k)
qed (simp add: assms(2))

text \<open>A core whose answer word stays zero waits for ever.\<close>

lemma answer_held:
  assumes "env_holds env {h2d, h2d + 4}" and "peek32 t h2d = 0" and "peek32 t (h2d + 4) = 0"
  shows "answer_at ChimeraConvolve env k t = (0, 0)"
proof -
  have d: "host_to_device_word ChimeraConvolve = h2d" by (simp add: h2d_def)
  note held = rd32_held [OF assms(1)]
  have "peek32 (polled ChimeraConvolve env k t) h2d = 0 \<and> peek32 (polled ChimeraConvolve env k t) (h2d + 4) = 0"
  proof (induction k)
    case (Suc k)
    then show ?case
      by (simp add: polled_def htif_read_def d split_beta held del: fst_rd32 snd_rd32_sel)
  qed (simp add: polled_def assms)
  then show ?thesis
    by (simp add: answer_at_def htif_read_def d split_beta held del: fst_rd32 snd_rd32_sel)
qed

subsection \<open>Property\<close>

text \<open>C23: a line that a core prints on chimera-convolve reaches the console in full: in whatever
  machine the host finds the posted request, a round of the polling loop prints exactly the line.
  But the answer goes into the mailbox of the request, so \<open>k\<close> rounds print the line \<open>k\<close> times, the
  word the core polls keeps its value, and a core that finds it zero never returns.\<close>

theorem core_line_on_console:
  fixes s :: machine and c :: u8 and b :: addr and core :: nat
  defines "buf \<equiv> putc_buf b core"
  assumes "env_keeps env (buf_bytes buf)" and "env_holds env {d2h, d2h + 4, h2d, h2d + 4}"
    and "core < ncores" and "unat (peek32 s buf) < 1020" and "c = 10 \<or> unat (peek32 s buf) = 1019"
    and "lock_leaves acquire release (buf_bytes buf)" and "mailboxes_apart ChimeraConvolve buf" and "buf + 4 \<noteq> 0"
    and "env_keeps henv (buf_bytes buf)" and "env_holds henv {d2h, d2h + 4, h2d}"
  shows "\<exists>t. snrt_putchar ChimeraConvolve env acquire release out b ncores core c s =
      (case putc_finish ChimeraConvolve env release buf t of None \<Rightarrow> None | Some s \<Rightarrow> Some (Ret c, s))
    \<and> (\<forall>h io k. sees buf t h \<longrightarrow>
        console_out (snd ((serve_request henv ^^ k) (h, io))) = console_out io @ concat (replicate k (line s buf @ [c]))
        \<and> peek32 (fst ((serve_request henv ^^ k) (h, io))) h2d = peek32 h h2d)
    \<and> (peek32 t h2d = 0 \<and> peek32 t (h2d + 4) = 0 \<longrightarrow>
        snrt_putchar ChimeraConvolve env acquire release out b ncores core c s = None)"
proof -
  obtain u where u: "header_set buf out (peek32 s buf + 1) (posted ChimeraConvolve env buf u)"
      "line (posted ChimeraConvolve env buf u) buf = line s buf @ [c]"
      "peek32 (posted ChimeraConvolve env buf u) buf = peek32 s buf + 1"
      "snrt_putchar ChimeraConvolve env acquire release out b ncores core c s =
        (case putc_finish ChimeraConvolve env release buf (posted ChimeraConvolve env buf u) of
           None \<Rightarrow> None | Some s \<Rightarrow> Some (Ret c, s))"
    using flush_posts [OF assms(2,4-8) [unfolded buf_def]] unfolding buf_def by metis
  let ?t = "posted ChimeraConvolve env buf u" and ?bs = "line s buf @ [c]"
  have n: "unat (peek32 s buf + 1) \<le> 1020"
    using assms(5) by (subst unat_add_no_wrap) simp_all
  have "length (line ?t buf) = unat (peek32 s buf + 1)" by (simp add: line_def u(3))
  then have safe: "request_safe henv (buf + 4) (buf + off_data) (length ?bs)"
    unfolding u(2) using request_safe_buf [OF assms(8,10,11) n] by simp
  have dev: "env_holds env {d2h, d2h + 4}" "env_holds env {h2d, h2d + 4}"
    using assms(3) by (auto simp: env_holds_def)
  have req: "request_at h (buf + 4) (buf + off_data) ?bs" if "sees buf ?t h" for h
    using posted_request_at [OF u(1) posted_mailbox [OF dev(1)] u(3) n assms(9) that] unfolding u(2) .
  have "putc_finish ChimeraConvolve env release buf ?t = None" if "peek32 ?t h2d = 0" "peek32 ?t (h2d + 4) = 0"
    unfolding finish_None_iff using answer_held [OF dev(2) that] by blast
  then show ?thesis
    using u(4) requests_served [OF safe req] by (intro exI [of _ ?t]) auto
qed

theorem core_line_on_console_witness:
  "\<exists>t. console_out (snd ((serve_request quiet_env ^^ 2) (t, sample_io))) = [10, 10]"
proof -
  let ?buf = "putc_buf sample_buffers 3"
  have nz: "?buf + 4 \<noteq> 0" by (simp add: sample_buf)
  obtain t where "\<forall>h io k. sees ?buf t h \<longrightarrow>
      console_out (snd ((serve_request quiet_env ^^ k) (h, io))) = console_out io @ concat (replicate k (line boot ?buf @ [10]))
      \<and> peek32 (fst ((serve_request quiet_env ^^ k) (h, io))) h2d = peek32 h h2d"
    using core_line_on_console [of quiet_env sample_buffers 3 9 boot 10 Some id quiet_env 7, OF _ _ _ _ _ sample_lock sample_apart nz]
    by (auto simp: boot_line)
  moreover have "sees ?buf t t" by (simp add: sees_def same_buf_def)
  ultimately have "console_out (snd ((serve_request quiet_env ^^ 2) (t, sample_io)))
      = console_out sample_io @ concat (replicate 2 (line boot ?buf @ [10]))"
    by blast
  then show ?thesis
    by (intro exI [of _ t]) (simp add: boot_line sample_io_def numeral_2_eq_2)
qed

end
