(* ===== verification/HtifRefines.thy ===== *)
theory HtifRefines
  imports Htif Console
begin

section \<open>The code refines the protocol\<close>

text \<open>
  \<open>Htif\<close> states the character protocol as steps of cores and host on abstract mailboxes; \<open>Putc\<close> and
  \<open>TestCluster\<close> translate the code that runs on the machine. Here the code is shown to take these
  steps: \<open>represents\<close> relates a machine to a state of the protocol, and every segment of
  \<open>snrt_putchar\<close> and a round of the host's loop lead from a related pair to a related pair by steps
  of the protocol. A segment is run while the other agents leave the buffers and the mailboxes
  alone; that they may act between any two steps is what the step relation adds.
\<close>

subsection \<open>Memory of the protocol\<close>

definition same_on :: "addr set \<Rightarrow> machine \<Rightarrow> machine \<Rightarrow> bool" where
  "same_on X s s' \<longleftrightarrow> (\<forall>a\<in>X. mem (hw s) a = mem (hw s') a)"

definition word_bytes :: "addr \<Rightarrow> addr set" where
  "word_bytes w = {w, w + 1, w + 2, w + 3}"

definition mail_addrs :: "target \<Rightarrow> addr set" where
  "mail_addrs tg = (case tg of ChimeraOpen \<Rightarrow> {host_to_device_word tg, device_to_host_word tg}
     | ChimeraConvolve \<Rightarrow> {host_to_device_word tg, host_to_device_word tg + 4,
         device_to_host_word tg, device_to_host_word tg + 4})"

definition mail_bytes :: "target \<Rightarrow> addr set" where
  "mail_bytes tg = (\<Union>w\<in>mail_addrs tg. word_bytes w)"

definition region :: "target \<Rightarrow> addr \<Rightarrow> nat \<Rightarrow> addr set" where
  "region tg b n = (\<Union>i<n. buf_bytes (putc_buf b i)) \<union> mail_bytes tg"

text \<open>What lies in the region besides the buffer of core \<open>k\<close>.\<close>

definition others :: "target \<Rightarrow> addr \<Rightarrow> nat \<Rightarrow> nat \<Rightarrow> addr set" where
  "others tg b n k = region tg b n - buf_bytes (putc_buf b k)"

text \<open>The buffers fit into memory, apart from the mailboxes.\<close>

definition placed :: "target \<Rightarrow> addr \<Rightarrow> nat \<Rightarrow> bool" where
  "placed tg b n \<longleftrightarrow> n * 1056 \<le> 2 ^ 32 \<and> (\<forall>i<n. mailboxes_apart tg (putc_buf b i) \<and> putc_buf b i + 4 \<noteq> 0)"

lemma same_on_trans: "same_on X s t \<Longrightarrow> same_on X t u \<Longrightarrow> same_on X s u"
  by (simp add: same_on_def)

lemma same_on_sym: "same_on X s t \<Longrightarrow> same_on X t s"
  by (simp add: same_on_def)

lemma same_on_mono: "same_on X s t \<Longrightarrow> Y \<subseteq> X \<Longrightarrow> same_on Y s t"
  by (auto simp: same_on_def)

lemma same_on_buf: "same_on (buf_bytes B) s t = same_buf B s t"
  by (simp add: same_on_def same_buf_def)

lemma same_on_peek: "same_on X s t \<Longrightarrow> word_bytes w \<subseteq> X \<Longrightarrow> peek32 s w = peek32 t w"
  by (simp add: same_on_def word_bytes_def peek32_def load32_def)

lemma off_buf:
  assumes "x \<notin> buf_bytes B" and "off \<le> 1052"
  shows "4 \<le> x - (B + of_nat off)"
proof (rule ccontr)
  assume "\<not> 4 \<le> x - (B + of_nat off)"
  then have small: "unat (x - (B + of_nat off)) < 4" by (simp add: word_le_nat_alt)
  have "x - B = of_nat (off + unat (x - (B + of_nat off)))"
    by (simp add: algebra_simps)
  then have "unat (x - B) < 1056"
    using small assms(2) by (simp only: unat_of_nat) (simp add: take_bit_nat_eq_self)
  with assms(1) show False by (simp add: buf_bytes_def)
qed

lemma own_write:
  assumes "env_keeps env X" and "X \<inter> buf_bytes B = {}" and "off \<le> 1052"
  shows "same_on X (wr32 env (B + of_nat off) v s) s"
proof (unfold same_on_def, intro ballI)
  fix x
  assume x: "x \<in> X"
  then have "4 \<le> x - (B + of_nat off)" using off_buf [OF _ assms(3)] assms(2) by auto
  then show "mem (hw (wr32 env (B + of_nat off) v s)) x = mem (hw s) x"
    by (rule keep_byte(1) [OF assms(1) x])
qed

lemma own_write8:
  assumes "env_keeps env X" and "X \<inter> buf_bytes B = {}" and "off < 1056"
  shows "same_on X (wr8 env (B + of_nat off) v s) s"
proof (unfold same_on_def, intro ballI)
  fix x
  assume x: "x \<in> X"
  then have "x \<noteq> B + of_nat off" using buf_off [OF assms(3), of B] assms(2) by auto
  then show "mem (hw (wr8 env (B + of_nat off) v s)) x = mem (hw s) x"
    by (rule keep_byte(2) [OF assms(1) x])
qed

lemma any_read: "env_keeps env X \<Longrightarrow> same_on X (snd (rd32 env a s)) s"
  unfolding same_on_def using keep_byte(3) by blast

lemma appended_same:
  assumes "env_keeps env X" and "X \<inter> buf_bytes B = {}" and "unat (peek32 s B) < 1020"
  shows "same_on X (appended env B c s) s"
proof -
  have "same_on X (wr32 env B v t) t" for v t
    using own_write [OF assms(1,2), of 0] by simp
  moreover have "same_on X (wr8 env (B + of_nat (36 + unat (peek32 s B))) c t) t" for t
    by (rule own_write8 [OF assms(1,2)]) (use assms(3) in simp)
  ultimately show ?thesis
    unfolding appended_def using any_read [OF assms(1)] by (meson same_on_trans)
qed

lemma with_header_same:
  assumes "env_keeps env X" and "X \<inter> buf_bytes B = {}"
  shows "same_on X (with_header env out B s) s"
proof -
  have "same_on X (wr32 env (B + 4) v t) t" "same_on X (wr32 env (B + 8) v t) t"
    "same_on X (wr32 env (B + 12) v t) t" "same_on X (wr32 env (B + 16) v t) t" for v t
    using own_write [OF assms, of 4] own_write [OF assms, of 8] own_write [OF assms, of 12]
      own_write [OF assms, of 16] by simp_all
  then show ?thesis
    unfolding with_header_def Let_def using any_read [OF assms(1)] by (meson same_on_trans)
qed

subsection \<open>The pieces lie apart\<close>

lemma core_buffers_apart:
  assumes "n * 1056 \<le> 2 ^ 32" and "i < n" and "k < n" and "i \<noteq> k"
  shows "buf_bytes (putc_buf b i) \<inter> buf_bytes (putc_buf b k) = {}"
proof -
  have off: "unat (x - b) = 1056 * j + unat (x - putc_buf b j)" if "x \<in> buf_bytes (putc_buf b j)" "j < n" for x j
  proof -
    have "x - b = of_nat (1056 * j + unat (x - putc_buf b j))"
      by (simp add: putc_buf_def putc_stride_def PUTC_BUFFER_LEN_def algebra_simps)
    moreover have "1056 * j + unat (x - putc_buf b j) < 2 ^ 32"
      using that assms(1) by (simp add: buf_bytes_def)
    ultimately show ?thesis by (simp only: unat_of_nat) (simp add: take_bit_nat_eq_self)
  qed
  show ?thesis
  proof (rule ccontr)
    assume "\<not> ?thesis"
    then obtain x where x: "x \<in> buf_bytes (putc_buf b i)" "x \<in> buf_bytes (putc_buf b k)" by auto
    then have "1056 * i + unat (x - putc_buf b i) = 1056 * k + unat (x - putc_buf b k)"
      using off assms(2,3) by metis
    moreover have "unat (x - putc_buf b i) < 1056" "unat (x - putc_buf b k) < 1056"
      using x by (simp_all add: buf_bytes_def)
    moreover have "(1056 * j + u) div 1056 = j" if "u < 1056" for j u :: nat
      using that by simp
    ultimately show False using assms(4) by metis
  qed
qed

lemma mail_apart:
  assumes "mailboxes_apart tg B"
  shows "mail_bytes tg \<inter> buf_bytes B = {}"
proof -
  have "x \<notin> word_bytes w" if "x \<in> buf_bytes B" "w \<in> mail_addrs tg" for x w
  proof -
    have "w \<in> mailbox_words tg"
      using that(2) by (auto simp: mail_addrs_def mailbox_words_def split: target.splits)
    then have "4 \<le> x - w" using assms that(1) by (auto simp: mailboxes_apart_def)
    then show ?thesis by (auto simp: word_bytes_def word_le_nat_alt)
  qed
  then show ?thesis by (auto simp: mail_bytes_def)
qed

lemma others_region:
  assumes "placed tg b n" and "k < n"
  shows "others tg b n k \<inter> buf_bytes (putc_buf b k) = {}" and "others tg b n k \<subseteq> region tg b n"
    and "mail_bytes tg \<subseteq> others tg b n k" and "i < n \<Longrightarrow> i \<noteq> k \<Longrightarrow> buf_bytes (putc_buf b i) \<subseteq> others tg b n k"
    and "buf_bytes (putc_buf b k) \<subseteq> region tg b n"
  using assms mail_apart [of tg "putc_buf b k"] core_buffers_apart [of n i k b]
  by (auto simp: others_def region_def placed_def)

subsection \<open>Machines and protocol states\<close>

definition mailbox :: "target \<Rightarrow> machine \<Rightarrow> addr \<Rightarrow> u32 \<times> u32" where
  "mailbox tg s w = (case tg of ChimeraOpen \<Rightarrow> (0, peek32 s w) | ChimeraConvolve \<Rightarrow> (peek32 s (w + 4), peek32 s w))"

text \<open>The number \<open>Suc k\<close> in a mailbox of the protocol is the address of core \<open>k\<close>'s request header.\<close>

definition request_of :: "addr \<Rightarrow> nat \<Rightarrow> u32" where
  "request_of b m = (if m = 0 then 0 else putc_buf b (m - 1) + 4)"

definition represents :: "target \<Rightarrow> addr \<Rightarrow> nat \<Rightarrow> machine \<Rightarrow> htif \<Rightarrow> bool" where
  "represents tg b n s st \<longleftrightarrow>
     (\<forall>i<n. line s (putc_buf b i) = buf st i \<and> unat (peek32 s (putc_buf b i)) \<le> 1020)
     \<and> mailbox tg s (host_to_device_word tg) = (0, request_of b (host_to_device st))
     \<and> mailbox tg s (device_to_host_word tg) = (0, request_of b (device_to_host st))"

lemma mailbox_cong:
  assumes "same_on X s t" and "mail_bytes tg \<subseteq> X" and "w \<in> {host_to_device_word tg, device_to_host_word tg}"
  shows "mailbox tg s w = mailbox tg t w"
proof -
  have "peek32 s v = peek32 t v" if "v \<in> mail_addrs tg" for v
    using that assms(2) by (intro same_on_peek [OF assms(1)]) (auto simp: mail_bytes_def)
  then show ?thesis
    using assms(3) by (auto simp: mailbox_def mail_addrs_def split: target.splits)
qed

text \<open>A change of core \<open>k\<close>'s buffer only.\<close>

lemma represents_buf:
  assumes "placed tg b n" and "represents tg b n s st" and "k < n" and "same_on (others tg b n k) s' s"
    and "line s' (putc_buf b k) = l" and "unat (peek32 s' (putc_buf b k)) \<le> 1020"
    and "buf st' = (buf st)(k := l)" and "host_to_device st' = host_to_device st" and "device_to_host st' = device_to_host st"
  shows "represents tg b n s' st'"
proof -
  note reg = others_region [OF assms(1,3)]
  have "line s' (putc_buf b i) = buf st i \<and> unat (peek32 s' (putc_buf b i)) \<le> 1020" if "i < n" "i \<noteq> k" for i
  proof -
    have "same_buf (putc_buf b i) s' s"
      using same_on_mono [OF assms(4) reg(4) [OF that]] by (simp add: same_on_buf)
    then have "same_buf (putc_buf b i) s s'" by (simp add: same_buf_def)
    from same_buf_line [OF this] assms(2) that(1) show ?thesis
      by (auto simp: represents_def)
  qed
  then show ?thesis
    using assms(2,5-9) mailbox_cong [OF assms(4) reg(3)] by (auto simp: represents_def)
qed

text \<open>No change, as far as the protocol sees.\<close>

lemma represents_same:
  assumes "represents tg b n s st" and "same_on (region tg b n) s' s"
    and "buf st' = buf st" and "host_to_device st' = host_to_device st" and "device_to_host st' = device_to_host st"
  shows "represents tg b n s' st'"
proof -
  have "line s' (putc_buf b i) = buf st i \<and> unat (peek32 s' (putc_buf b i)) \<le> 1020" if "i < n" for i
  proof -
    have "buf_bytes (putc_buf b i) \<subseteq> region tg b n" using that by (auto simp: region_def)
    then have "same_buf (putc_buf b i) s s'"
      using assms(2) by (auto simp: same_on_def same_buf_def)
    from same_buf_line [OF this] assms(1) that show ?thesis
      by (auto simp: represents_def)
  qed
  moreover have "mail_bytes tg \<subseteq> region tg b n" by (simp add: region_def)
  ultimately show ?thesis
    using assms(1,3-5) mailbox_cong [OF assms(2)] by (simp add: represents_def)
qed

text \<open>A store to a mailbox.\<close>

lemma mail_sep: "sep32 (host_to_device_word tg) (device_to_host_word tg)"
  "sep32 (host_to_device_word ChimeraConvolve) (host_to_device_word ChimeraConvolve + 4)"
  "sep32 (device_to_host_word ChimeraConvolve) (device_to_host_word ChimeraConvolve + 4)"
  "sep32 (host_to_device_word ChimeraConvolve + 4) (device_to_host_word ChimeraConvolve)"
  "sep32 (host_to_device_word ChimeraConvolve) (device_to_host_word ChimeraConvolve + 4)"
  "sep32 (host_to_device_word ChimeraConvolve + 4) (device_to_host_word ChimeraConvolve + 4)"
  by (cases tg) (simp_all add: sep32_def mailbox_values)

lemma mail_holds:
  assumes "env_keeps env (region tg b n)"
  shows "env_holds env (mail_addrs tg)"
proof -
  have "word_bytes w \<subseteq> region tg b n" if "w \<in> mail_addrs tg" for w
    using that by (auto simp: region_def mail_bytes_def)
  then show ?thesis
    using assms by (fastforce simp: env_holds_def env_keeps_def word_bytes_def load32_def)
qed

lemma mailbox_write:
  assumes "env_holds env (mail_addrs tg)" and "{w, w'} = {host_to_device_word tg, device_to_host_word tg}"
  shows "mailbox tg (htif_write tg env w v s) w = (0, v)" and "mailbox tg (htif_write tg env w v s) w' = mailbox tg s w'"
proof -
  note p = peek32_wr32_sep [OF assms(1)]
  have w: "(w = host_to_device_word tg \<and> w' = device_to_host_word tg)
      \<or> (w = device_to_host_word tg \<and> w' = host_to_device_word tg)"
    using assms(2) by (auto simp: doubleton_eq_iff)
  show "mailbox tg (htif_write tg env w v s) w = (0, v)"
    using w mail_sep by (cases tg)
      (auto simp: mailbox_def htif_write_def Let_def peek32_wr32_same p mail_addrs_def simp del: wr32_sel)
  show "mailbox tg (htif_write tg env w v s) w' = mailbox tg s w'"
    using w mail_sep mail_sep [THEN sep32_sym] by (cases tg)
      (auto simp: mailbox_def htif_write_def Let_def p mail_addrs_def simp del: wr32_sel)
qed

lemma represents_post:
  assumes "placed tg b n" and "env_keeps env (region tg b n)" and "represents tg b n s st"
    and "{w, w'} = {host_to_device_word tg, device_to_host_word tg}" and "buf st' = buf st"
    and "(0, v) = (0, request_of b (if w = host_to_device_word tg then host_to_device st' else device_to_host st'))"
    and "if w = host_to_device_word tg then device_to_host st' = device_to_host st else host_to_device st' = host_to_device st"
  shows "represents tg b n (htif_write tg env w v s) st'"
proof -
  have "line (htif_write tg env w v s) (putc_buf b i) = buf st i
      \<and> unat (peek32 (htif_write tg env w v s) (putc_buf b i)) \<le> 1020" if i: "i < n" for i
  proof -
    have "env_keeps env (buf_bytes (putc_buf b i))"
      using assms(2) i by (auto simp: env_keeps_def region_def)
    moreover have "mailboxes_apart tg (putc_buf b i)" using assms(1) i by (simp add: placed_def)
    moreover have "w \<in> {host_to_device_word tg, device_to_host_word tg}" using assms(4) by blast
    ultimately have "same_buf (putc_buf b i) (htif_write tg env w v s) s" by (rule htif_write_same)
    then have "same_buf (putc_buf b i) s (htif_write tg env w v s)" by (simp add: same_buf_def)
    from same_buf_line [OF this] assms(3) i show ?thesis by (auto simp: represents_def)
  qed
  moreover note mailbox_write [OF mail_holds [OF assms(2)] assms(4), of v s]
  moreover have "device_to_host_word tg \<noteq> host_to_device_word tg"
    using mail_sep(1) [of tg] by (auto simp: sep32_def)
  ultimately show ?thesis
    using assms(3-7) by (auto simp: represents_def doubleton_eq_iff)
qed

subsection \<open>The core's segments\<close>

lemma represents_length:
  assumes "represents tg b n s st" and "k < n"
  shows "length (buf st k) = unat (peek32 s (putc_buf b k))"
proof -
  have "buf st k = line s (putc_buf b k)" using assms by (simp add: represents_def)
  then show ?thesis by (simp add: line_def)
qed

lemma flush_steps:
  assumes "pc st k = WantLock" and "lock st = None"
  shows "\<exists>st'. (core_step k)\<^sup>*\<^sup>* st st' \<and> pc st' k = Wait \<and> device_to_host st' = Suc k
    \<and> host_to_device st' = host_to_device st \<and> buf st' = buf st \<and> host st' = host st"
proof -
  let ?a = "st\<lparr>lock := Some k, pc := (pc st)(k := Post)\<rparr>"
  let ?b = "?a\<lparr>device_to_host := Suc k, pc := (pc ?a)(k := Ring)\<rparr>"
  let ?c = "?b\<lparr>msip0 := True, pc := (pc ?b)(k := Wait)\<rparr>"
  have "core_step k st ?a" by (rule core_step.Lock [OF assms])
  moreover have "core_step k ?a ?b" by (rule core_step.Post) simp
  moreover have "core_step k ?b ?c" by (rule core_step.Ring) simp
  ultimately have "(core_step k)\<^sup>*\<^sup>* st ?c" by (meson rtranclp.rtrancl_refl rtranclp.rtrancl_into_rtrancl)
  then show ?thesis by (intro exI [of _ ?c]) simp
qed

lemma finish_steps:
  assumes "pc st k = Wait" and "host_to_device st \<noteq> 0"
  shows "\<exists>st'. (core_step k)\<^sup>*\<^sup>* st st' \<and> pc st' k = Idle \<and> lock st' = None \<and> host_to_device st' = 0
    \<and> device_to_host st' = device_to_host st \<and> buf st' = (buf st)(k := [])"
proof -
  let ?a = "st\<lparr>pc := (pc st)(k := Clear)\<rparr>"
  let ?b = "?a\<lparr>host_to_device := 0, pc := (pc ?a)(k := Reset)\<rparr>"
  let ?c = "?b\<lparr>buf := (buf ?b)(k := []), pc := (pc ?b)(k := Release)\<rparr>"
  let ?d = "?c\<lparr>lock := None, pc := (pc ?c)(k := Idle)\<rparr>"
  have "core_step k st ?a" by (rule core_step.Seen [OF assms])
  moreover have "core_step k ?a ?b" by (rule core_step.Clear) simp
  moreover have "core_step k ?b ?c" by (rule core_step.Reset) simp
  moreover have "core_step k ?c ?d" by (rule core_step.Release) simp
  ultimately have "(core_step k)\<^sup>*\<^sup>* st ?d" by (meson rtranclp.rtrancl_refl rtranclp.rtrancl_into_rtrancl)
  then show ?thesis by (intro exI [of _ ?d]) simp
qed

lemma keeps_buf: "env_keeps env (region tg b n) \<Longrightarrow> k < n \<Longrightarrow> env_keeps env (buf_bytes (putc_buf b k))"
  by (auto simp: env_keeps_def region_def)

lemma keeps_others: "env_keeps env (region tg b n) \<Longrightarrow> env_keeps env (others tg b n k)"
  by (auto simp: env_keeps_def others_def)

lemma appended_represents:
  assumes "placed tg b n" and "env_keeps env (region tg b n)" and "represents tg b n s st" and "k < n"
    and "length (buf st k) < 1020" and "buf st' = (buf st)(k := buf st k @ [c])"
    and "host_to_device st' = host_to_device st" and "device_to_host st' = device_to_host st"
  shows "represents tg b n (appended env (putc_buf b k) c s) st'"
proof -
  note size = represents_length [OF assms(3,4)] and keeps = keeps_buf [OF assms(2,4)]
  have lt: "unat (peek32 s (putc_buf b k)) < 1020" using assms(5) size by simp
  show ?thesis
  proof (rule represents_buf [OF assms(1,3,4) _ _ _ assms(6-8)])
    show "same_on (others tg b n k) (appended env (putc_buf b k) c s) s"
      by (rule appended_same [OF keeps_others [OF assms(2)] others_region(1) [OF assms(1,4)] lt])
    show "line (appended env (putc_buf b k) c s) (putc_buf b k) = buf st k @ [c]"
      using appended_line [OF keeps lt] assms(3,4) by (simp add: represents_def)
    show "unat (peek32 (appended env (putc_buf b k) c s) (putc_buf b k)) \<le> 1020"
      unfolding appended_size [OF keeps lt] using lt by (subst unat_add_no_wrap) simp_all
  qed
qed

lemma header_represents:
  assumes "placed tg b n" and "env_keeps env (region tg b n)" and "represents tg b n s st" and "k < n"
  shows "represents tg b n (with_header env out (putc_buf b k) s) st"
proof (rule represents_buf [OF assms(1,3,4)])
  note keeps = keeps_buf [OF assms(2,4)]
  have le: "unat (peek32 s (putc_buf b k)) \<le> 1020" and l: "line s (putc_buf b k) = buf st k"
    using assms(3,4) by (simp_all add: represents_def)
  show "same_on (others tg b n k) (with_header env out (putc_buf b k) s) s"
    by (rule with_header_same [OF keeps_others [OF assms(2)] others_region(1) [OF assms(1,4)]])
  show "line (with_header env out (putc_buf b k) s) (putc_buf b k) = buf st k"
    using with_header_effect(3) [OF keeps le] l by simp
  show "unat (peek32 (with_header env out (putc_buf b k) s) (putc_buf b k)) \<le> 1020"
    using with_header_effect(2) [OF keeps le] le by simp
qed simp_all

lemma msip_same:
  assumes "placed tg b n" and "env_keeps env (region tg b n)"
  shows "same_on (region tg b n) (wr32 env msip0_word 1 s) s"
proof (unfold same_on_def, intro ballI)
  fix x
  assume x: "x \<in> region tg b n"
  have "4 \<le> x - msip0_word" if "x \<in> mail_bytes tg"
    using that by (cases tg) (auto simp: mail_bytes_def mail_addrs_def word_bytes_def mailbox_values)
  then have "4 \<le> x - msip0_word"
    using x assms(1) by (auto simp: region_def placed_def mailboxes_apart_def mailbox_words_def)
  then show "mem (hw (wr32 env msip0_word 1 s)) x = mem (hw s) x"
    by (rule keep_byte(1) [OF assms(2) x])
qed

lemma posted_represents:
  assumes "placed tg b n" and "env_keeps env (region tg b n)" and "represents tg b n s st" and "k < n"
    and "buf st' = buf st" and "host_to_device st' = host_to_device st" and "device_to_host st' = Suc k"
  shows "represents tg b n (posted tg env (putc_buf b k) s) st'"
proof -
  have ne: "device_to_host_word tg \<noteq> host_to_device_word tg"
    using mail_sep(1) [of tg] by (auto simp: sep32_def)
  have "represents tg b n (htif_write tg env (device_to_host_word tg) (putc_buf b k + 4) s) st'"
    by (rule represents_post [OF assms(1-3), of _ "host_to_device_word tg"])
      (use assms(5-7) ne in \<open>auto simp: request_of_def\<close>)
  then show ?thesis
    unfolding posted_def by (rule represents_same [OF _ msip_same [OF assms(1,2)]]) simp_all
qed

lemma posted_header:
  assumes "placed tg b n" and "env_keeps env (region tg b n)" and "k < n"
    and "unat (peek32 s (putc_buf b k)) \<le> 1020"
    and "same_on (region tg b n) u (with_header env out (putc_buf b k) s)"
  defines "t \<equiv> posted tg env (putc_buf b k) u"
  shows "header_set (putc_buf b k) out (peek32 t (putc_buf b k)) t"
proof -
  let ?B = "putc_buf b k" and ?v = "with_header env out (putc_buf b k) s"
  note keeps = keeps_buf [OF assms(2,3)]
  have apart: "mailboxes_apart tg ?B" using assms(1,3) by (simp add: placed_def)
  have "same_buf ?B u ?v"
    using same_on_mono [OF assms(5) others_region(5) [OF assms(1,3)]] by (simp add: same_on_buf)
  moreover have "same_buf ?B t u"
    unfolding t_def posted_def
    by (rule same_buf_trans [OF mailbox_same [OF keeps apart] htif_write_same [OF keeps apart]])
      (simp_all add: mailbox_words_def)
  ultimately have "same_buf ?B ?v t" by (simp add: same_buf_def)
  note eq = same_buf_line [OF this] and eff = with_header_effect [OF keeps assms(4), of out]
  show ?thesis
    using eff(1) eq(2,3) assms(4) unfolding eff(2) by simp
qed

lemma lock_same:
  assumes "lock_leaves acquire release X"
  obtains s1 where "acquire s = Some s1" and "same_on X s1 s"
  using assms unfolding lock_leaves_def same_on_def by meson

lemma mail_read:
  assumes "env_keeps env (region tg b n)" and "w \<in> {host_to_device_word tg, device_to_host_word tg}"
  shows "fst (htif_read tg env w s) = mailbox tg s w"
    and "same_on (region tg b n) (snd (htif_read tg env w s)) s"
proof -
  note held = rd32_held [OF mail_holds [OF assms(1)]]
  show "fst (htif_read tg env w s) = mailbox tg s w"
    using assms(2) by (cases tg)
      (auto simp: htif_read_def mailbox_def split_beta held mail_addrs_def simp del: fst_rd32 snd_rd32_sel)
  show "same_on (region tg b n) (snd (htif_read tg env w s)) s"
    using any_read [OF assms(1)] by (cases tg) (auto simp: htif_read_def split_beta intro: same_on_trans)
qed

lemma finish_represents:
  assumes "placed tg b n" and "env_keeps env (region tg b n)" and "represents tg b n s st" and "k < n"
    and "lock_leaves acquire release (region tg b n)" and "host_to_device st \<in> Suc ` {..<n}"
    and "buf st' = (buf st)(k := [])" and "host_to_device st' = 0" and "device_to_host st' = device_to_host st"
  shows "\<exists>s'. putc_finish tg env release (putc_buf b k) s = Some s' \<and> represents tg b n s' st'"
proof -
  let ?s = "snd (htif_read tg env (host_to_device_word tg) s)"
  let ?t = "htif_write tg env (host_to_device_word tg) 0 ?s" and ?B = "putc_buf b k"
  have ne: "device_to_host_word tg \<noteq> host_to_device_word tg"
    using mail_sep(1) [of tg] by (auto simp: sep32_def)
  have "request_of b (host_to_device st) \<noteq> 0"
    using assms(1,6) by (auto simp: request_of_def placed_def)
  then have "fst (htif_read tg env (host_to_device_word tg) s) \<noteq> (0, 0)"
    using assms(3) by (simp add: mail_read(1) [OF assms(2)] represents_def)
  then have "loop (await_body tg env) s = Some ((), ?s)"
    by (intro loop_unfold(3)) (simp add: await_body_def split_beta)
  then have fin: "putc_finish tg env release ?B s = Some (release (wr32 env ?B 0 ?t))"
    by (simp add: putc_finish_def Let_def)
  have "represents tg b n ?s st"
    by (rule represents_same [OF assms(3) mail_read(2) [OF assms(2)]]) simp_all
  then have "represents tg b n ?t (st\<lparr>host_to_device := 0\<rparr>)"
    by (rule represents_post [OF assms(1,2), of _ _ _ "device_to_host_word tg"])
      (use ne in \<open>auto simp: request_of_def\<close>)
  then have "represents tg b n (wr32 env ?B 0 ?t) st'"
  proof (rule represents_buf [OF assms(1) _ assms(4)])
    show "same_on (others tg b n k) (wr32 env ?B 0 ?t) ?t"
      using own_write [OF keeps_others [OF assms(2)] others_region(1) [OF assms(1,4)], of 0] by simp
    show "line (wr32 env ?B 0 ?t) ?B = []" "unat (peek32 (wr32 env ?B 0 ?t) ?B) \<le> 1020"
      by (simp_all add: line_def peek32_wr32_same)
  qed (use assms(7-9) in simp_all)
  moreover have "same_on (region tg b n) (release t) t" for t
    using assms(5) by (simp add: lock_leaves_def same_on_def)
  ultimately show ?thesis
    unfolding fin using represents_same by blast
qed

text \<open>A character given to the core: the step Put, and what the code's test says.\<close>

definition given :: "htif \<Rightarrow> nat \<Rightarrow> u8 \<Rightarrow> htif" where
  "given st k c = st\<lparr>buf := (buf st)(k := buf st k @ [c]), input := (input st)(k := input st k @ [c]),
     pc := (pc st)(k := if flushes (buf st k) c then WantLock else Idle)\<rparr>"

lemma given_step: "pc st k = Idle \<Longrightarrow> core_step k st (given st k c)"
  unfolding given_def by (rule core_step.Put)

lemma append_refines:
  assumes "placed tg b n" and "env_keeps env (region tg b n)" and "k < n" and "represents tg b n s st"
    and "length (buf st k) < 1020"
  shows "represents tg b n (appended env (putc_buf b k) c s) (given st k c)"
    and "putc_append env (putc_buf b k) c s = (Ret (flushes (buf st k) c), appended env (putc_buf b k) c s)"
proof -
  note size = represents_length [OF assms(4,3)]
  show "represents tg b n (appended env (putc_buf b k) c s) (given st k c)"
    by (rule appended_represents [OF assms(1,2,4,3,5)]) (simp_all add: given_def)
  have "flushes (buf st k) c \<longleftrightarrow> peek32 s (putc_buf b k) = 1019 \<or> c = 10"
    by (simp add: flushes_def size word_eq_iff_unat [of "peek32 s (putc_buf b k)"])
  then show "putc_append env (putc_buf b k) c s = (Ret (flushes (buf st k) c), appended env (putc_buf b k) c s)"
    unfolding putc_append_eq [OF keeps_buf [OF assms(2,3)]] using assms(5) size by simp
qed

lemma flush_refines:
  assumes "placed tg b n" and "env_keeps env (region tg b n)" and "k < n" and "represents tg b n s st"
    and "length (buf st k) < 1020" and "lock_leaves acquire release (region tg b n)"
    and "pc st k = Idle" and "flushes (buf st k) c" and "lock st = None"
  shows "\<exists>t st'. snrt_putchar tg env acquire release out b n k c s =
      (case putc_finish tg env release (putc_buf b k) t of None \<Rightarrow> None | Some s \<Rightarrow> Some (Ret c, s))
    \<and> (core_step k)\<^sup>*\<^sup>* st st' \<and> pc st' k = Wait \<and> device_to_host st' = Suc k \<and> host st' = host st
    \<and> buf st' k = buf st k @ [c] \<and> represents tg b n t st' \<and> header_set (putc_buf b k) out (peek32 t (putc_buf b k)) t"
proof -
  let ?B = "putc_buf b k"
  note app = append_refines [OF assms(1-5), of c]
  obtain st' where steps: "(core_step k)\<^sup>*\<^sup>* (given st k c) st'" "pc st' k = Wait" and st': "device_to_host st' = Suc k"
      "host_to_device st' = host_to_device (given st k c)" "buf st' = buf (given st k c)" "host st' = host st"
      and line: "buf st' k = buf st k @ [c]"
    using flush_steps [of "given st k c" k] assms(8,9) by (auto simp: given_def)
  obtain u where u: "acquire (with_header env out ?B (appended env ?B c s)) = Some u"
      "same_on (region tg b n) u (with_header env out ?B (appended env ?B c s))"
    using lock_same [OF assms(6)] .
  have "represents tg b n u (given st k c)"
    using represents_same [OF header_represents [OF assms(1,2) app(1) assms(3)] u(2)] by simp
  then have "represents tg b n (posted tg env ?B u) st'"
    by (rule posted_represents [OF assms(1,2) _ assms(3)]) (simp_all add: st')
  moreover have "header_set ?B out (peek32 (posted tg env ?B u) ?B) (posted tg env ?B u)"
    by (rule posted_header [OF assms(1-3) _ u(2)]) (use app(1) assms(3) in \<open>simp add: represents_def\<close>)
  moreover have "snrt_putchar tg env acquire release out b n k c s =
      (case putc_finish tg env release ?B (posted tg env ?B u) of None \<Rightarrow> None | Some s \<Rightarrow> Some (Ret c, s))"
    using assms(3,8) app(2) by (simp add: snrt_putchar_def Let_def putc_request_eq u(1) posted_def)
  ultimately show ?thesis
    using converse_rtranclp_into_rtranclp [of "core_step k", OF given_step [OF assms(7)] steps(1)] steps(2) st'(1,4) line
    by (intro exI [of _ "posted tg env ?B u"] exI [of _ st'] conjI)
qed

subsection \<open>Property: the core\<close>

text \<open>C5: \<open>snrt_putchar\<close> takes the steps of the protocol, on either target: from a machine that
  represents a protocol state with the core collecting, a character that does not end the line is the
  step Put; one that does runs Put, Lock, Post and Ring up to the wait, with the header of the
  request in place; and once the mailbox holds an answer, the rest of the call returns and is Seen,
  Clear, Reset and Release. The machines it reaches represent the states the steps reach, the other
  cores' lines and both mailboxes included.\<close>

theorem putchar_refines_protocol:
  fixes st :: htif
  assumes "placed tg b n" and "env_keeps env (region tg b n)" and "lock_leaves acquire release (region tg b n)"
    and "k < n" and "represents tg b n s st"
  shows "(pc st k = Idle \<and> length (buf st k) < 1020 \<and> \<not> flushes (buf st k) c \<longrightarrow>
      (\<exists>s' st'. snrt_putchar tg env acquire release out b n k c s = Some (Ret c, s')
        \<and> core_step k st st' \<and> pc st' k = Idle \<and> represents tg b n s' st'))
    \<and> (pc st k = Idle \<and> length (buf st k) < 1020 \<and> flushes (buf st k) c \<and> lock st = None \<longrightarrow>
      (\<exists>t st'. snrt_putchar tg env acquire release out b n k c s =
          (case putc_finish tg env release (putc_buf b k) t of None \<Rightarrow> None | Some s \<Rightarrow> Some (Ret c, s))
        \<and> (core_step k)\<^sup>*\<^sup>* st st' \<and> pc st' k = Wait \<and> device_to_host st' = Suc k \<and> host st' = host st
        \<and> buf st' k = buf st k @ [c] \<and> represents tg b n t st' \<and> header_set (putc_buf b k) out (peek32 t (putc_buf b k)) t))
    \<and> (pc st k = Wait \<and> host_to_device st \<in> Suc ` {..<n} \<longrightarrow>
      (\<exists>s' st'. putc_finish tg env release (putc_buf b k) s = Some s'
        \<and> (core_step k)\<^sup>*\<^sup>* st st' \<and> pc st' k = Idle \<and> represents tg b n s' st'))"
proof (intro conjI impI; elim conjE)
  note app = append_refines [OF assms(1,2,4,5)]
  assume "pc st k = Idle" and "length (buf st k) < 1020" and "\<not> flushes (buf st k) c"
  moreover from this have "pc (given st k c) k = Idle" by (simp add: given_def)
  ultimately show "\<exists>s' st'. snrt_putchar tg env acquire release out b n k c s = Some (Ret c, s')
      \<and> core_step k st st' \<and> pc st' k = Idle \<and> represents tg b n s' st'"
    using app [of c] given_step [of st k c] assms(4)
    by (intro exI [of _ "appended env (putc_buf b k) c s"] exI [of _ "given st k c"])
      (simp add: snrt_putchar_def Let_def)
next
  assume "pc st k = Wait" and ans: "host_to_device st \<in> Suc ` {..<n}"
  then obtain st' where "(core_step k)\<^sup>*\<^sup>* st st'" "pc st' k = Idle"
      and st': "host_to_device st' = 0" "device_to_host st' = device_to_host st" "buf st' = (buf st)(k := [])"
    using finish_steps [of st k] by auto
  with finish_represents [OF assms(1,2,5,4,3) ans st'(3,1,2)]
  show "\<exists>s' st'. putc_finish tg env release (putc_buf b k) s = Some s'
      \<and> (core_step k)\<^sup>*\<^sup>* st st' \<and> pc st' k = Idle \<and> represents tg b n s' st'" by blast
qed (rule flush_refines [OF assms(1,2,4,5) _ assms(3)])

text \<open>Nine buffers from \<open>sample_buffers\<close>, all empty, and empty mailboxes.\<close>

lemma sample_placed: "placed tg sample_buffers 9"
proof -
  have "mailboxes_apart tg (putc_buf sample_buffers i) \<and> putc_buf sample_buffers i + 4 \<noteq> 0" if "i < 9" for i
  proof -
    have "putc_buf sample_buffers i = of_nat (0x1C2000 + 1056 * i)"
      by (simp add: putc_buf_def sample_buffers_def putc_stride_def PUTC_BUFFER_LEN_def)
    then have B: "unat (putc_buf sample_buffers i) = 0x1C2000 + 1056 * i"
      using that by (simp only: unat_of_nat) (simp add: take_bit_nat_eq_self)
    then have "unat (putc_buf sample_buffers i + 4) = 0x1C2000 + 1056 * i + 4"
      using that by (subst unat_add_no_wrap) simp_all
    then have "putc_buf sample_buffers i + 4 \<noteq> 0" by (auto simp: word_eq_iff_unat)
    with B that show ?thesis
      by (cases tg) (auto simp: mailboxes_apart_def mailbox_words_def mailbox_values intro!: above_apart [of "putc_buf sample_buffers i"])
  qed
  then show ?thesis by (simp add: placed_def)
qed

lemma sample_represents: "represents tg sample_buffers 9 boot htif_init"
  by (cases tg) (simp_all add: represents_def boot_line htif_init_def mailbox_def request_of_def)

theorem putchar_refines_protocol_witness:
  "(\<exists>s' st'. snrt_putchar ChimeraOpen quiet_env Some id 7 sample_buffers 9 3 65 boot = Some (Ret 65, s')
      \<and> core_step 3 htif_init st' \<and> represents ChimeraOpen sample_buffers 9 s' st')
    \<and> (\<exists>t st'. (core_step 3)\<^sup>*\<^sup>* htif_init st' \<and> pc st' 3 = Wait \<and> represents ChimeraOpen sample_buffers 9 t st')"
proof -
  note ref = putchar_refines_protocol [OF sample_placed env_keeps_quiet sample_lock _ sample_represents,
      where tg = ChimeraOpen and k = 3 and out = 7]
  have "pc htif_init 3 = Idle" "buf htif_init 3 = []" "lock htif_init = None" by (simp_all add: htif_init_def)
  moreover have "\<not> flushes [] 65" "flushes [] 10" by (simp_all add: flushes_def)
  ultimately show ?thesis
    using ref [where c = 65] ref [where c = 10] by auto
qed

subsection \<open>The host's round\<close>

lemma host_round:
  assumes "host st = Poll" and "device_to_host st = Suc k"
  defines "st' \<equiv> st\<lparr>shown := shown st @ [(k, buf st k)]\<rparr>"
  shows "(host_step ToHost)\<^sup>*\<^sup>* st st'"
proof -
  let ?a = "st\<lparr>host := Ack (Suc k)\<rparr>"
  let ?b = "?a\<lparr>device_to_host := 0, host := Print (Suc k)\<rparr>"
  let ?c = "?b\<lparr>shown := shown ?b @ [(k, buf ?b k)], host := Notify (Suc k)\<rparr>"
  have "host_step ToHost st ?a" using host_step.Poll [OF assms(1), of ToHost] assms(2) by simp
  moreover have "host_step ToHost ?a ?b" by (rule host_step.Ack) simp
  moreover have "host_step ToHost ?b ?c" using host_step.Print [of ?b "Suc k" ToHost] by simp
  moreover have "host_step ToHost ?c st'"
    using host_step.Notify [of ?c "Suc k" ToHost] assms(1,2) by (cases st) (simp add: st'_def)
  ultimately show ?thesis by (meson rtranclp.rtrancl_refl rtranclp.rtrancl_into_rtrancl)
qed

lemma convolve_mail:
  assumes "env_keeps henv (region ChimeraConvolve b n)"
  shows "env_holds henv {d2h, d2h + 4, h2d}"
  by (rule env_holds_mono [OF mail_holds [OF assms]]) (auto simp: mail_addrs_def d2h_def h2d_def)

text \<open>Apart from the console, a round that serves a request reads the mailbox twice, clears it, reads
  the header and writes the request's address back.\<close>

lemma serve_machine:
  assumes "fst (htif_read ChimeraConvolve henv d2h s) \<noteq> (0, 0)"
  defines "a \<equiv> snd (fst (htif_read ChimeraConvolve henv d2h (snd (htif_read ChimeraConvolve henv d2h s))))"
    and "s0 \<equiv> htif_write ChimeraConvolve henv d2h 0
      (snd (htif_read ChimeraConvolve henv d2h (snd (htif_read ChimeraConvolve henv d2h s))))"
  obtains s1 where "fst (serve_request henv (s, io)) = htif_write ChimeraConvolve henv d2h a s1"
    and "\<And>X. env_keeps henv X \<Longrightarrow> same_on X s1 s0"
proof -
  let ?r = "\<lambda>x t. snd (rd32 henv x t)"
  define s1 where "s1 = (if fst (rd32 henv a (?r (a + 8) s0)) = 64 then ?r (a + 12) (?r a (?r (a + 8) s0))
    else ?r a (?r (a + 8) s0))"
  show ?thesis
  proof (rule that [of s1])
    show "fst (serve_request henv (s, io)) = htif_write ChimeraConvolve henv d2h a s1"
      using assms(1) by (simp add: serve_request_def Let_def split_beta s1_def a_def s0_def del: fst_rd32 snd_rd32_sel)
    fix X
    assume "env_keeps henv X"
    then have "same_on X (?r x t) u" if "same_on X t u" for x t u
      using same_on_trans [OF any_read that] by blast
    then show "same_on X s1 s0"
      unfolding s1_def by (simp add: same_on_def del: snd_rd32_sel)
  qed
qed

text \<open>With no request a round reads the mailbox and nothing else.\<close>

lemma serve_idle:
  assumes "env_keeps henv (region ChimeraConvolve b n)" and "represents ChimeraConvolve b n s st"
    and "device_to_host st = 0"
  shows "represents ChimeraConvolve b n (fst (serve_request henv (s, io))) st" and "snd (serve_request henv (s, io)) = io"
proof -
  have d: "device_to_host_word ChimeraConvolve = d2h" by (simp add: d2h_def)
  note rd = mail_read [OF assms(1), of d2h, unfolded d, simplified]
  have "mailbox ChimeraConvolve s d2h = (0, 0)"
    using assms(2,3) by (simp add: represents_def request_of_def d)
  then have "serve_request henv (s, io) = (snd (htif_read ChimeraConvolve henv d2h s), io)"
    using rd(1) [of s] by (simp add: serve_request_def split_beta Let_def)
  moreover have "represents ChimeraConvolve b n (snd (htif_read ChimeraConvolve henv d2h s)) st"
    by (rule represents_same [OF assms(2) rd(2)]) simp_all
  ultimately show "represents ChimeraConvolve b n (fst (serve_request henv (s, io))) st" "snd (serve_request henv (s, io)) = io"
    by simp_all
qed

text \<open>A request leaves the memory as it was, the request in its mailbox included.\<close>

lemma serve_represents:
  assumes "placed ChimeraConvolve b n" and "env_keeps henv (region ChimeraConvolve b n)" and "k < n"
    and "represents ChimeraConvolve b n s st" and "device_to_host st = Suc k"
    and "buf st' = buf st" and "host_to_device st' = host_to_device st" and "device_to_host st' = Suc k"
  shows "represents ChimeraConvolve b n (fst (serve_request henv (s, io))) st'"
proof -
  let ?B = "putc_buf b k" and ?tg = ChimeraConvolve
  have d: "device_to_host_word ?tg = d2h" "host_to_device_word ?tg = h2d" by (simp_all add: d2h_def h2d_def)
  have nz: "?B + 4 \<noteq> 0" using assms(1,3) by (simp add: placed_def)
  have box: "mailbox ?tg s d2h = (0, ?B + 4)"
    using assms(4,5) by (simp add: represents_def d request_of_def)
  note rd = mail_read [OF assms(2), of d2h, unfolded d, simplified]
  let ?s2 = "snd (htif_read ?tg henv d2h (snd (htif_read ?tg henv d2h s)))"
  have same: "same_on (region ?tg b n) ?s2 s" "same_on (region ?tg b n) (snd (htif_read ?tg henv d2h s)) s"
    using same_on_trans [OF rd(2) rd(2)] rd(2) by blast+
  have "mailbox ?tg (snd (htif_read ?tg henv d2h s)) d2h = mailbox ?tg s d2h"
    by (rule mailbox_cong [OF same(2)]) (simp_all add: region_def d)
  then have a: "snd (fst (htif_read ?tg henv d2h (snd (htif_read ?tg henv d2h s)))) = ?B + 4"
    by (simp add: rd(1) box)
  obtain s1 where s1: "fst (serve_request henv (s, io)) = htif_write ?tg henv d2h (?B + 4) s1"
      "same_on (region ?tg b n) s1 (htif_write ?tg henv d2h 0 ?s2)"
    using serve_machine [of henv s io] rd(1) [of s] box nz assms(2) unfolding a by auto
  note post = represents_post [OF assms(1,2), of _ _ d2h h2d, unfolded d]
  have "represents ?tg b n ?s2 st" by (rule represents_same [OF assms(4) same(1)]) simp_all
  then have "represents ?tg b n (htif_write ?tg henv d2h 0 ?s2) (st\<lparr>device_to_host := 0\<rparr>)"
    by (rule post) (auto simp: request_of_def d2h_value)
  then have "represents ?tg b n s1 (st\<lparr>device_to_host := 0\<rparr>)"
    by (rule represents_same [OF _ s1(2)]) simp_all
  then show ?thesis
    unfolding s1(1) by (rule post) (use assms(6-8) in \<open>auto simp: request_of_def d2h_value\<close>)
qed

lemma serve_prints:
  assumes "placed ChimeraConvolve b n" and "env_keeps henv (region ChimeraConvolve b n)" and "k < n"
    and "represents ChimeraConvolve b n s st" and "device_to_host st = Suc k"
    and "header_set (putc_buf b k) out (peek32 s (putc_buf b k)) s"
  shows "console_out (snd (serve_request henv (s, io))) = console_out io @ buf st k"
proof -
  let ?B = "putc_buf b k"
  have apart: "mailboxes_apart ChimeraConvolve ?B" and nz: "?B + 4 \<noteq> 0" using assms(1,3) by (simp_all add: placed_def)
  have l: "line s ?B = buf st k" and n: "unat (peek32 s ?B) \<le> 1020"
    and box: "mailbox ChimeraConvolve s d2h = (0, ?B + 4)"
    using assms(3-5) by (simp_all add: represents_def d2h_def request_of_def)
  have "request_at s (?B + 4) (?B + off_data) (line s ?B)"
    by (rule posted_request_at [OF assms(6) _ _ refl n nz])
      (use box in \<open>auto simp: mailbox_def sees_def same_buf_def\<close>)
  moreover have "request_safe henv (?B + 4) (?B + off_data) (length (line s ?B))"
    using request_safe_buf [OF apart keeps_buf [OF assms(2,3)] convolve_mail [OF assms(2)] n]
    by (simp add: line_def)
  ultimately show ?thesis
    using request_served [of henv "?B + 4" "?B + off_data" "line s ?B" s io] l by simp
qed

subsection \<open>Property: the host\<close>

text \<open>C6: a round of \<open>test_cluster\<close>'s polling loop takes the steps of the protocol's host that answers in
  the request's own mailbox: with no request it is no step; with the request of core \<open>k\<close> and its header
  in place it is Poll, Ack, Print and Notify, the console gets exactly the line the protocol shows,
  and the machine represents the state the steps reach.\<close>

theorem serve_refines_protocol:
  fixes st :: htif and io :: host_io
  assumes "placed ChimeraConvolve b n" and "env_keeps henv (region ChimeraConvolve b n)" and "k < n"
    and "represents ChimeraConvolve b n s st" and "host st = Poll" and "device_to_host st \<in> {0, Suc k}"
    and "header_set (putc_buf b k) out (peek32 s (putc_buf b k)) s"
  shows "\<exists>st'. (host_step ToHost)\<^sup>*\<^sup>* st st' \<and> represents ChimeraConvolve b n (fst (serve_request henv (s, io))) st'
    \<and> (if device_to_host st = 0 then st' = st \<and> console_out (snd (serve_request henv (s, io))) = console_out io
       else shown st' = shown st @ [(k, buf st k)]
         \<and> console_out (snd (serve_request henv (s, io))) = console_out io @ buf st k)"
proof (cases "device_to_host st = 0")
  case True
  then show ?thesis
    using serve_idle [OF assms(2,4)] by (intro exI [of _ st]) simp
next
  case False
  then have dev: "device_to_host st = Suc k" using assms(6) by simp
  let ?st' = "st\<lparr>shown := shown st @ [(k, buf st k)]\<rparr>"
  have "represents ChimeraConvolve b n (fst (serve_request henv (s, io))) ?st'"
    by (rule serve_represents [OF assms(1-4) dev]) (simp_all add: dev)
  then show ?thesis
    using host_round [OF assms(5) dev] serve_prints [OF assms(1-4) dev assms(7)] dev
    by (intro exI [of _ ?st']) simp
qed

theorem serve_refines_protocol_witness:
  "\<exists>t. console_out (snd (serve_request quiet_env (t, sample_io))) = [10]"
proof -
  have init: "pc htif_init 3 = Idle" "buf htif_init 3 = []" "lock htif_init = None" "host htif_init = Poll" "flushes [] 10"
    by (simp_all add: htif_init_def flushes_def)
  obtain t st' where t: "represents ChimeraConvolve sample_buffers 9 t st'" "host st' = Poll" "device_to_host st' = Suc 3"
      "header_set (putc_buf sample_buffers 3) 7 (peek32 t (putc_buf sample_buffers 3)) t" and line: "buf st' 3 = [10]"
    using flush_refines [OF sample_placed env_keeps_quiet _ sample_represents _ sample_lock,
        where tg = ChimeraConvolve and k = 3 and out = 7 and c = 10] init by auto
  from serve_refines_protocol [OF sample_placed env_keeps_quiet _ t(1,2) _ t(4), of sample_io] t(3) line
  show ?thesis by (auto simp: sample_io_def)
qed

end
