(* ===== verification/TestHost.thy ===== *)
theory TestHost
  imports HtifRefines Padframe
begin

section \<open>The host program of a cluster test (tests/snitchCluster/snrt/src\_host/test\_host.c)\<close>

text \<open>
  The host program that the SDK's cluster tests share: it prepares cluster 4, offloads a function,
  serves the write requests of the cluster's cores while the cluster is busy, and returns the
  cluster's code. Unlike the test runner of chimera-convolve it answers in \<open>host_to_device\<close>: its
  rounds are those of the protocol's host \<open>ToDevice\<close>, for which \<open>Htif\<close> shows that every line
  arrives exactly once. The width of the host's pointers and the CLINT driver the build selects
  are parameters; the lines printed by \<open>printf_log\<close> are left out.
\<close>

subsection \<open>The program\<close>

definition CLUSTER1 :: u8 where "CLUSTER1 = 4"

definition STACK_ADDRESS :: "'w::len word" where
  "STACK_ADDRESS = ucast (chimera_clusterBase ! unat CLUSTER1) + 0x20000 - 1"

definition setGPIO0_UART :: "bitfield \<Rightarrow> env \<Rightarrow> machine \<Rightarrow> machine" where
  "setGPIO0_UART b env s =
     (let tx = the (map_of padframe_aon_gpio_0_mux_sel_t UART0_TX);
          s = snd (padframe_aon_gpio_0 b env (MuxSet tx) s);
          s = snd (padframe_aon_gpio_0 b env (CfgSet Rxe 0) s)
      in snd (padframe_aon_gpio_0 b env (CfgSet Trie 0) s))"

text \<open>The body of the loop up to the sleep.\<close>

definition serve_test :: "target \<Rightarrow> env \<Rightarrow> host_state \<Rightarrow> host_state" where
  "serve_test tg env st =
     (let s = fence env (fst st);
          (v, s) = htif_read tg env (device_to_host_word tg) s in
      if v = (0, 0) then (s, snd st)
      else let ((_, syscall_addr), s) = htif_read tg env (device_to_host_word tg) s;
          s = htif_write tg env (device_to_host_word tg) 0 s;
          (syscall_buf, s) = rd32 env (syscall_addr + 8) s;
          (num, s) = rd32 env syscall_addr s;
          (s, io) = (if num = 64
            then let (len, s) = rd32 env (syscall_addr + 12) s in
              (s, (snd st)\<lparr>console_out := console_out (snd st)
                 @ map (\<lambda>i. mem (hw s) (syscall_buf + of_nat i)) [0..<unat len]\<rparr>)
            else (s, snd st));
          s = htif_write tg env (host_to_device_word tg) syscall_addr s
        in (fence env s, io))"

definition test_loop_body :: "target \<Rightarrow> (machine \<Rightarrow> (unit \<times> machine) option) \<Rightarrow> env \<Rightarrow> host_state
    \<Rightarrow> (unit option \<times> host_state) option" where
  "test_loop_body tg sleep env st =
     (let (b, s) = snitchCluster_busy env CLUSTER1 (fst st) in
      if b = 0 then Some (Some (), s, snd st)
      else let (s, io) = serve_test tg env (s, snd st) in
        case sleep s of None \<Rightarrow> None | Some (_, s) \<Rightarrow> Some (None, s, io))"

definition test_loop :: "target \<Rightarrow> (machine \<Rightarrow> (unit \<times> machine) option) \<Rightarrow> env \<Rightarrow> unit act" where
  "test_loop tg sleep env st = (case loop (test_loop_body tg sleep env) st of
     None \<Rightarrow> None | Some (_, st) \<Rightarrow> Some (Ret (), st))"

text \<open>\<open>uart_pad\<close> says that the build is for the ASIC of chimera-convolve.\<close>

definition test_main :: "target \<Rightarrow> bool \<Rightarrow> bitfield \<Rightarrow> (machine \<Rightarrow> (unit \<times> machine) option) \<Rightarrow> env
    \<Rightarrow> 'w::len word \<Rightarrow> 'w word \<Rightarrow> 'w word \<Rightarrow> u32 act" where
  "test_main tg uart_pad b sleep env handler function tramp =
     chain (on_machine (\<lambda>s. if uart_pad then setGPIO0_UART b env s else s)) (\<lambda>_.
     chain (\<lambda>st. Some (generate_snitchCluster_SPs_uniform tg CLUSTER1 STACK_ADDRESS 0x2000, st)) (\<lambda>(sps, _).
     chain (on_machine (\<lambda>s.
       (let s = setup_snitchCluster_interruptHandler env handler s;
            s = set_snitchCluster_clockGating env CLUSTER1 False s;
            s = set_snitchCluster_reset env CLUSTER1 True s;
            s = nops env 10 s;
            s = set_snitchCluster_reset env CLUSTER1 False s
        in set_mie env False s))) (\<lambda>_.
     chain (try_machine (offload_snitchCluster tg env function tramp 0 sps CLUSTER1)) (\<lambda>_.
     chain (on_machine (set_mie env True)) (\<lambda>_.
     chain (test_loop tg sleep env) (\<lambda>_.
     chain (try_machine (wait_snitchCluster_return env CLUSTER1)) (\<lambda>retVal.
     chain (on_machine (set_snitchCluster_clockGating env CLUSTER1 True)) (\<lambda>_.
     give (drop_bit 1 retVal)))))))))"

subsection \<open>A served request\<close>

lemma host_round_device:
  assumes "host st = Poll" and "device_to_host st = Suc k"
  shows "(host_step ToDevice)\<^sup>*\<^sup>* st (st\<lparr>device_to_host := 0, host_to_device := Suc k,
    shown := shown st @ [(k, buf st k)]\<rparr>)"
proof -
  let ?a = "st\<lparr>host := Ack (Suc k)\<rparr>"
  let ?b = "?a\<lparr>device_to_host := 0, host := Print (Suc k)\<rparr>"
  let ?c = "?b\<lparr>shown := shown ?b @ [(k, buf ?b k)], host := Notify (Suc k)\<rparr>"
  let ?d = "st\<lparr>device_to_host := 0, host_to_device := Suc k, shown := shown st @ [(k, buf st k)]\<rparr>"
  have "host_step ToDevice st ?a" using host_step.Poll [OF assms(1), of ToDevice] assms(2) by simp
  moreover have "host_step ToDevice ?a ?b" by (rule host_step.Ack) simp
  moreover have "host_step ToDevice ?b ?c" using host_step.Print [of ?b "Suc k" ToDevice] by simp
  moreover have "host_step ToDevice ?c ?d"
    using host_step.Notify [of ?c "Suc k" ToDevice] assms(1) by (cases st) simp
  ultimately show ?thesis by (meson rtranclp.rtrancl_refl rtranclp.rtrancl_into_rtrancl)
qed

lemma any_fence: "env_keeps env X \<Longrightarrow> same_on X (fence env s) s"
  by (simp add: same_on_def env_keeps_def)

text \<open>What the host reads of a request whose header is in place.\<close>

lemma header_reads:
  assumes "env_keeps env (buf_bytes B)" and "same_buf B s t" and "header_set B out (peek32 s B) s"
  shows "fst (rd32 env (B + 4) t) = 64" and "fst (rd32 env (B + 12) t) = B + off_data"
    and "fst (rd32 env (B + 16) t) = peek32 s B"
proof -
  have word: "fst (rd32 env (B + of_nat i) t) = peek32 s (B + of_nat i)" if "i \<le> 1052" for i
    using buf_peek(5) [OF assms(1) that] same_buf_peek [OF assms(2) that] by simp
  show "fst (rd32 env (B + 4) t) = 64" "fst (rd32 env (B + 12) t) = B + off_data"
    "fst (rd32 env (B + 16) t) = peek32 s B"
    using word [of 4] word [of 12] word [of 16] assms(3) by (simp_all add: header_set_def del: fst_rd32)
qed

text \<open>A round that serves a request: the machine that cleared the mailbox and the one that has read
  the header.\<close>

lemma serve_test_run:
  assumes "placed tg b n" and "env_keeps env (region tg b n)" and "k < n" and "represents tg b n s st"
    and "device_to_host st = Suc k" and "header_set (putc_buf b k) out (peek32 s (putc_buf b k)) s"
  obtains s3 s6 where "same_on (region tg b n) s3 s" and "same_buf (putc_buf b k) s s6"
    and "same_on (region tg b n) s6 (htif_write tg env (device_to_host_word tg) 0 s3)"
    and "serve_test tg env (s, io) = (fence env (htif_write tg env (host_to_device_word tg) (putc_buf b k + 4) s6),
      io\<lparr>console_out := console_out io @ map (data_byte s6 (putc_buf b k)) [0..<unat (peek32 s (putc_buf b k))]\<rparr>)"
proof -
  let ?B = "putc_buf b k" and ?d = "device_to_host_word tg" and ?h = "host_to_device_word tg"
  have "?d \<in> {?h, ?d}" by simp
  note rd = mail_read [OF assms(2) this] and keeps = keeps_buf [OF assms(2,3)]
  have nz: "?B + 4 \<noteq> 0" and apart: "mailboxes_apart tg ?B" using assms(1,3) by (simp_all add: placed_def)
  define s1 where "s1 = fence env s"
  define s2 where "s2 = snd (htif_read tg env ?d s1)"
  define s3 where "s3 = snd (htif_read tg env ?d s2)"
  define s4 where "s4 = htif_write tg env ?d 0 s3"
  define s5 where "s5 = snd (rd32 env (?B + 4) (snd (rd32 env (?B + 12) s4)))"
  define s6 where "s6 = snd (rd32 env (?B + 16) s5)"
  have same1: "same_on (region tg b n) s1 s" and same3: "same_on (region tg b n) s3 s"
    and same2: "same_on (region tg b n) s2 s"
    unfolding s1_def s2_def s3_def using any_fence [OF assms(2)] rd(2) by (meson same_on_trans)+
  have box: "mailbox tg t ?d = (0, ?B + 4)" if "same_on (region tg b n) t s" for t
    using mailbox_cong [OF that, where w = ?d and tg = tg] assms(4,5)
    by (simp add: region_def represents_def request_of_def)
  have v: "fst (htif_read tg env ?d s1) = (0, ?B + 4)" "fst (htif_read tg env ?d s2) = (0, ?B + 4)"
    by (simp_all add: rd(1) box same1 same2)
  have "same_buf ?B s4 s3" unfolding s4_def by (rule htif_write_same [OF keeps apart]) simp
  moreover have "same_buf ?B s3 s"
    using same_on_mono [OF same3 others_region(5) [OF assms(1,3)]] by (simp add: same_on_buf)
  ultimately have buf4: "same_buf ?B s s4" by (simp add: same_buf_def)
  have keep: "same_buf ?B s (snd (rd32 env x t))" if "same_buf ?B s t" for x t
    using any_read [OF keeps, of x t] that by (simp add: same_on_def same_buf_def)
  note hdr = header_reads [OF keeps _ assms(6)]
  have reads: "fst (rd32 env (?B + 12) s4) = ?B + off_data"
    "fst (rd32 env (?B + 4) (snd (rd32 env (?B + 12) s4))) = 64" "fst (rd32 env (?B + 16) s5) = peek32 s ?B"
    unfolding s5_def by (rule hdr buf4 keep)+
  have "serve_test tg env (s, io) = (fence env (htif_write tg env ?h (?B + 4) s6),
      io\<lparr>console_out := console_out io @ map (data_byte s6 ?B) [0..<unat (peek32 s ?B)]\<rparr>)"
    using v reads nz
    by (simp add: serve_test_def Let_def split_beta add.assoc s1_def s2_def s3_def s4_def s5_def s6_def
        data_byte_def [abs_def] del: fst_rd32 snd_rd32_sel fence_sel)
  moreover have "same_on (region tg b n) s6 s4"
    unfolding s5_def s6_def using any_read [OF assms(2)] by (meson same_on_trans)
  moreover have "same_buf ?B s s6" unfolding s6_def s5_def by (intro keep buf4)
  ultimately show ?thesis using that same3 unfolding s4_def by blast
qed

text \<open>It prints the line, empties the mailbox of the request and answers in the other one.\<close>

lemma serve_test_effect:
  fixes io :: host_io
  assumes "placed tg b n" and "env_keeps env (region tg b n)" and "k < n" and "represents tg b n s st"
    and "device_to_host st = Suc k" and "header_set (putc_buf b k) out (peek32 s (putc_buf b k)) s"
  defines "st' \<equiv> st\<lparr>device_to_host := 0, host_to_device := Suc k, shown := shown st @ [(k, buf st k)]\<rparr>"
  shows "represents tg b n (fst (serve_test tg env (s, io))) st'"
    and "console_out (snd (serve_test tg env (s, io))) = console_out io @ buf st k"
proof -
  let ?B = "putc_buf b k" and ?d = "device_to_host_word tg" and ?h = "host_to_device_word tg"
  have ne: "?d \<noteq> ?h" using mail_sep(1) [of tg] by (auto simp: sep32_def)
  obtain s3 s6 where same3: "same_on (region tg b n) s3 s" and buf6: "same_buf ?B s s6"
    and same6: "same_on (region tg b n) s6 (htif_write tg env ?d 0 s3)"
    and serve: "serve_test tg env (s, io) = (fence env (htif_write tg env ?h (?B + 4) s6),
      io\<lparr>console_out := console_out io @ map (data_byte s6 ?B) [0..<unat (peek32 s ?B)]\<rparr>)"
    using serve_test_run [OF assms(1-6)] .
  have l: "line s ?B = buf st k" and n: "unat (peek32 s ?B) \<le> 1020"
    using assms(3,4) by (simp_all add: represents_def)
  have "line s ?B = line s6 ?B" "peek32 s ?B = peek32 s6 ?B" using same_buf_line [OF buf6 n] by blast+
  with l show "console_out (snd (serve_test tg env (s, io))) = console_out io @ buf st k"
    by (simp add: serve line_def)
  have "represents tg b n s3 st" by (rule represents_same [OF assms(4) same3]) simp_all
  then have "represents tg b n (htif_write tg env ?d 0 s3) (st\<lparr>device_to_host := 0\<rparr>)"
    by (rule represents_post [OF assms(1,2), of _ _ _ ?h]) (use ne in \<open>auto simp: request_of_def\<close>)
  then have "represents tg b n s6 (st\<lparr>device_to_host := 0\<rparr>)"
    by (rule represents_same [OF _ same6]) simp_all
  then have "represents tg b n (htif_write tg env ?h (?B + 4) s6) st'"
    by (rule represents_post [OF assms(1,2), of _ _ _ ?d]) (auto simp: request_of_def st'_def)
  then show "represents tg b n (fst (serve_test tg env (s, io))) st'"
    unfolding serve fst_conv by (rule represents_same [OF _ any_fence [OF assms(2)]]) simp_all
qed

subsection \<open>Property: a line's way to the console and back\<close>

lemma core_run: "(core_step k)\<^sup>*\<^sup>* st st' \<Longrightarrow> (step r)\<^sup>*\<^sup>* st st'"
  by (induction rule: rtranclp_induct) (auto intro: rtranclp.rtrancl_into_rtrancl step.core)

lemma host_run: "(host_step r)\<^sup>*\<^sup>* st st' \<Longrightarrow> (step r)\<^sup>*\<^sup>* st st'"
  by (induction rule: rtranclp_induct) (auto intro: rtranclp.rtrancl_into_rtrancl step.host)

text \<open>A core changes its own line only, and neither the console nor the host.\<close>

lemma core_keeps:
  assumes "(core_step k)\<^sup>*\<^sup>* st st'"
  shows "shown st' = shown st \<and> host st' = host st \<and> (\<forall>i. i \<noteq> k \<longrightarrow> buf st' i = buf st i)"
  using assms by (induction rule: rtranclp_induct) (auto elim!: core_stepE)

text \<open>C7: a line makes its round trip through core and host, on either target: the character that ends
  it posts the request; a round of the host program's loop prints exactly the line; and on the machine
  the host leaves, the rest of \<open>snrt_putchar\<close> returns. The run is one of the protocol whose host answers
  in \<open>host_to_device\<close>: afterwards both mailboxes and the line are empty, the lock is free, the core
  collects again, and the memory of the other cores' lines is what it was.\<close>

theorem line_round_trip:
  fixes st :: htif and io :: host_io
  assumes "placed tg b n" and "env_keeps env (region tg b n)" and "env_keeps henv (region tg b n)"
    and "lock_leaves acquire release (region tg b n)" and "k < n" and "represents tg b n s st"
    and "pc st k = Idle" and "lock st = None" and "host st = Poll"
    and "length (buf st k) < 1020" and "flushes (buf st k) c"
  shows "\<exists>t s' st'. snrt_putchar tg env acquire release out b n k c s =
        (case putc_finish tg env release (putc_buf b k) t of None \<Rightarrow> None | Some s \<Rightarrow> Some (Ret c, s))
    \<and> console_out (snd (serve_test tg henv (t, io))) = console_out io @ buf st k @ [c]
    \<and> putc_finish tg env release (putc_buf b k) (fst (serve_test tg henv (t, io))) = Some s'
    \<and> (step ToDevice)\<^sup>*\<^sup>* st st' \<and> represents tg b n s' st'
    \<and> shown st' = shown st @ [(k, buf st k @ [c])] \<and> buf st' = (buf st)(k := [])
    \<and> pc st' k = Idle \<and> lock st' = None \<and> host st' = Poll \<and> host_to_device st' = 0 \<and> device_to_host st' = 0"
proof -
  let ?B = "putc_buf b k"
  obtain t st1 where put: "snrt_putchar tg env acquire release out b n k c s =
        (case putc_finish tg env release ?B t of None \<Rightarrow> None | Some s \<Rightarrow> Some (Ret c, s))"
      and run1: "(core_step k)\<^sup>*\<^sup>* st st1" and st1: "pc st1 k = Wait" "device_to_host st1 = Suc k"
      and line: "buf st1 k = buf st k @ [c]" and rep1: "represents tg b n t st1"
      and hdr: "header_set ?B out (peek32 t ?B) t"
    using flush_refines [OF assms(1,2,5,6,10,4,7,11,8), of out] by blast
  define st2 where "st2 = st1\<lparr>device_to_host := 0, host_to_device := Suc k, shown := shown st1 @ [(k, buf st1 k)]\<rparr>"
  note keep1 = core_keeps [OF run1]
  have run2: "(host_step ToDevice)\<^sup>*\<^sup>* st1 st2"
    unfolding st2_def by (rule host_round_device [OF _ st1(2)]) (use keep1 assms(9) in simp)
  note host = serve_test_effect [OF assms(1,3,5) rep1 st1(2) hdr, of io, folded st2_def]
  obtain st3 where run3: "(core_step k)\<^sup>*\<^sup>* st2 st3" and st3: "pc st3 k = Idle" "lock st3 = None"
      "host_to_device st3 = 0" "device_to_host st3 = device_to_host st2" "buf st3 = (buf st2)(k := [])"
    using finish_steps [of st2 k] st1(1) by (auto simp: st2_def)
  obtain s' where "putc_finish tg env release ?B (fst (serve_test tg henv (t, io))) = Some s'" "represents tg b n s' st3"
    using finish_represents [OF assms(1,2) host(1) assms(5,4) _ st3(5,3,4)] assms(5) by (auto simp: st2_def)
  moreover have "(step ToDevice)\<^sup>*\<^sup>* st st3"
    using core_run [OF run1] host_run [OF run2] core_run [OF run3] by (meson rtranclp_trans)
  moreover have "buf st3 = (buf st)(k := [])" using keep1 by (auto simp: st3(5) st2_def)
  ultimately show ?thesis
    using put host(2) st3(1-4) keep1 core_keeps [OF run3] line assms(9) by (auto simp: st2_def)
qed

theorem line_round_trip_witness:
  "\<exists>t s' st'. (step ToDevice)\<^sup>*\<^sup>* htif_init st' \<and> shown st' = [(3, [10])]
    \<and> console_out (snd (serve_test ChimeraOpen quiet_env (t, sample_io))) = [10]
    \<and> represents ChimeraOpen sample_buffers 9 s' st'"
  using line_round_trip [OF sample_placed env_keeps_quiet env_keeps_quiet sample_lock _ sample_represents,
      where tg = ChimeraOpen and k = 3 and out = 7 and c = 10 and io = sample_io]
  by (fastforce simp: htif_init_def flushes_def sample_io_def)

subsection \<open>The result of a test\<close>

text \<open>The host program returns the code that the cluster has put into its return register, without
  the lowest bit, and leaves the cluster with its clock gated.\<close>

lemma test_main_result:
  assumes "env_holds env power_words"
    and "test_main tg uart_pad b sleep env handler function tramp st = Some (Ret v, st')"
  shows "gated (fst st') CLUSTER1"
    and "\<exists>s w s'. wait_snitchCluster_return env CLUSTER1 s = Some (Ret w, s') \<and> v = drop_bit 1 w"
proof -
  obtain st1 w st2 where w: "try_machine (wait_snitchCluster_return env CLUSTER1) st1 = Some (Ret w, st2)"
    and fin: "chain (on_machine (set_snitchCluster_clockGating env CLUSTER1 True)) (\<lambda>_. give (drop_bit 1 w)) st2
      = Some (Ret v, st')"
    using assms(2) unfolding test_main_def by (auto dest!: chain_SomeD simp: on_machine_def)
  from fin have v: "v = drop_bit 1 w" and st': "fst st' = set_snitchCluster_clockGating env CLUSTER1 True (fst st2)"
    by (auto simp: give_def)
  show "gated (fst st') CLUSTER1"
    unfolding st' by (rule gating_keeps(1) [OF assms(1), where c' = CLUSTER1]) (simp_all add: CLUSTER1_def)
  show "\<exists>s w s'. wait_snitchCluster_return env CLUSTER1 s = Some (Ret w, s') \<and> v = drop_bit 1 w"
    using w v by (auto simp: try_machine_def split: option.splits)
qed

end
