(* ===== verification/Dma.thy ===== *)
theory Dma
  imports Device
begin

section \<open>Asynchronous copies of the cluster's DMA engine\<close>

text \<open>
  The DMA functions come from the Snitch SDK: \<open>snrt_dma_start_1d\<close> queues a copy and returns at once,
  \<open>snrt_dma_wait_all\<close> returns when every queued copy is done. \<open>Device\<close> takes them as a parameter and
  states the contract of an engine that copies while it is waited for. The contract here allows more:
  the engine may write any pending destination at any time before the wait returns, so a client that
  is right under it needs no assumption on the speed of the engine.
\<close>

subsection \<open>Blocks of memory\<close>

definition block :: "addr \<Rightarrow> nat \<Rightarrow> addr set" where
  "block a n = (\<lambda>i. a + of_nat i) ` {..<n}"

lemma block_mono: "n \<le> k \<Longrightarrow> block a n \<subseteq> block a k"
  by (auto simp: block_def)

lemma block_in: "i < n \<Longrightarrow> a + of_nat i \<in> block a n"
  by (auto simp: block_def)

lemma blockE:
  assumes "b \<in> block a n"
  obtains i where "b = a + of_nat i" and "i < n"
  using assms by (auto simp: block_def)

lemma block_0 [simp]: "block a 0 = {}"
  by (simp add: block_def)

lemma block_offset:
  assumes "x + n \<le> k"
  shows "block (a + of_nat x) n \<subseteq> block a k"
proof
  fix b
  assume "b \<in> block (a + of_nat x) n"
  then obtain i where "b = a + of_nat x + of_nat i" and "i < n" by (rule blockE)
  then show "b \<in> block a k" using block_in [of "x + i" k a] assms by (simp add: add.assoc)
qed

lemma block_apart:
  assumes "x + n \<le> y" and "y + k \<le> 2 ^ 32"
  shows "block (a + of_nat x) n \<inter> block (a + of_nat y) k = {}"
proof -
  have False if "i < n" "j < k" "a + of_nat x + of_nat i = a + of_nat y + (of_nat j :: addr)" for i j
  proof -
    have "(of_nat (x + i) :: addr) = of_nat (y + j)"
      using that(3) by (simp add: add.assoc)
    then have "x + i = y + j"
      by (rule offset_inj) (use assms that in auto)
    with that assms(1) show False by simp
  qed
  then show ?thesis by (auto simp: block_def)
qed

subsection \<open>The contract\<close>

definition dst_block :: "u32 \<times> u32 \<times> u32 \<Rightarrow> addr set" where
  "dst_block t = (case t of (dst, src, n) \<Rightarrow> block dst (unat n))"

definition src_block :: "u32 \<times> u32 \<times> u32 \<Rightarrow> addr set" where
  "src_block t = (case t of (dst, src, n) \<Rightarrow> block src (unat n))"

definition dests :: "transfers \<Rightarrow> addr set" where
  "dests ts = (\<Union>t\<in>set ts. dst_block t)"

text \<open>Copies whose order does not matter: no destination overlaps a source or another destination.\<close>

definition independent :: "transfers \<Rightarrow> bool" where
  "independent ts \<longleftrightarrow> sorted_wrt (\<lambda>t u. dst_block t \<inter> dst_block u = {}) ts
     \<and> (\<forall>t\<in>set ts. src_block t \<inter> dests ts = {})"

definition dma_async :: "'d sdk \<Rightarrow> ('d \<Rightarrow> transfers) \<Rightarrow> bool" where
  "dma_async k pending \<longleftrightarrow>
     (\<forall>dst src n d m. let (d', m') = dma_start_1d k dst src n d m in
        pending d' = pending d @ [(dst, src, n)] \<and> (\<forall>a. a \<notin> dests (pending d') \<longrightarrow> m' a = m a)) \<and>
     (\<forall>d m. let (d', m') = dma_wait_all k d m in
        pending d' = [] \<and> (\<forall>a. a \<notin> dests (pending d) \<longrightarrow> m' a = m a) \<and>
        (independent (pending d) \<longrightarrow> (\<forall>(dst, src, n)\<in>set (pending d). \<forall>i<unat n. m' (dst + of_nat i) = m (src + of_nat i))))"

lemma dma_asyncD:
  assumes "dma_async k pending"
  shows "pending (fst (dma_start_1d k dst src n d m)) = pending d @ [(dst, src, n)]"
    and "a \<notin> dests (pending d @ [(dst, src, n)]) \<Longrightarrow> snd (dma_start_1d k dst src n d m) a = m a"
    and "pending (fst (dma_wait_all k d m)) = []"
    and "a \<notin> dests (pending d) \<Longrightarrow> snd (dma_wait_all k d m) a = m a"
    and "independent (pending d) \<Longrightarrow> (dst, src, n) \<in> set (pending d) \<Longrightarrow> i < unat n \<Longrightarrow>
      snd (dma_wait_all k d m) (dst + of_nat i) = m (src + of_nat i)"
  using assms unfolding dma_async_def by (fastforce simp: split_beta)+

lemma independent_Cons:
  "independent (t # ts) \<longleftrightarrow> independent ts \<and> src_block t \<inter> dst_block t = {} \<and> src_block t \<inter> dests ts = {}
     \<and> (\<forall>u\<in>set ts. dst_block t \<inter> dst_block u = {} \<and> src_block u \<inter> dst_block t = {})"
  unfolding independent_def dests_def by (simp add: Int_Un_distrib) blast

text \<open>An engine that copies while it is waited for meets the contract.\<close>

lemma run_transfers_outside: "a \<notin> dests ts \<Longrightarrow> run_transfers ts m a = m a"
proof (induction ts arbitrary: m)
  case (Cons t ts)
  obtain dst src n where t: "t = (dst, src, n)" by (cases t)
  have "memcpy dst src (unat n) m a = m a"
    using Cons.prems by (intro memcpy_outside) (auto simp: t dests_def dst_block_def block_def)
  with Cons show ?case by (simp add: run_transfers_def t dests_def)
qed (simp add: run_transfers_def)

lemma run_transfers_copies:
  assumes "independent ts" and "(dst, src, n) \<in> set ts" and "i < unat n"
  shows "run_transfers ts m (dst + of_nat i) = m (src + of_nat i)"
  using assms
proof (induction ts arbitrary: m)
  case (Cons t ts)
  obtain d s l where t: "t = (d, s, l)" by (cases t)
  have ind: "independent ts" using Cons.prems(1) by (simp add: independent_Cons)
  have src: "src_block (dst, src, n) \<inter> dst_block t = {}"
    using Cons.prems(1,2) by (auto simp: independent_Cons)
  have unfolded: "run_transfers (t # ts) m = run_transfers ts (memcpy d s (unat l) m)"
    by (simp add: run_transfers_def t)
  show ?case
  proof (cases "(dst, src, n) \<in> set ts")
    case True
    have "src + of_nat i \<notin> dst_block t"
      using src block_in [OF Cons.prems(3), of src] by (auto simp: src_block_def)
    then have "memcpy d s (unat l) m (src + of_nat i) = m (src + of_nat i)"
      by (intro memcpy_outside) (auto simp: t dst_block_def block_def)
    then show ?thesis using Cons.IH [OF ind True Cons.prems(3)] by (simp add: unfolded)
  next
    case False
    with Cons.prems(2) t have eq: "d = dst" "s = src" "l = n" by auto
    have "dst + of_nat i \<notin> dests ts"
      using Cons.prems(1) block_in [OF Cons.prems(3), of dst]
      by (auto simp: independent_Cons dests_def dst_block_def t eq)
    then have "run_transfers (t # ts) m (dst + of_nat i) = memcpy dst src (unat n) m (dst + of_nat i)"
      by (simp add: unfolded run_transfers_outside eq)
    also have "\<dots> = m (src + of_nat i)"
    proof (rule memcpy_inside)
      show "unat n \<le> 2 ^ 32" using unsigned_less [of n, where 'a = nat] by simp
      show "i < unat n" by (rule Cons.prems(3))
      show "\<forall>i<unat n. \<forall>k<unat n. dst + of_nat i \<noteq> src + of_nat k"
      proof (intro allI impI notI)
        fix i j
        assume "i < unat n" and "j < unat n" and "dst + of_nat i = src + of_nat j"
        then have "dst + of_nat i \<in> block src (unat n) \<inter> block dst (unat n)"
          by (metis IntI block_in)
        with src show False by (simp add: src_block_def dst_block_def t eq)
      qed
    qed
    finally show ?thesis .
  qed
qed simp

lemma dma_queues_async: "dma_queues k pending \<Longrightarrow> dma_async k pending"
  by (auto simp: dma_queues_def dma_async_def split_beta Let_def run_transfers_outside run_transfers_copies)

lemma sample_sdk_async: "dma_async sample_sdk (\<lambda>d. d)"
  by (rule dma_queues_async) (simp add: dma_queues_def sample_sdk_def)

end
