(* ===== verification/ItaUtils.thy ===== *)
theory ItaUtils
  imports Dma Loops "HOL-Library.Signed_Division"
begin

section \<open>Comparing results against golden data (third\_party/ita-sdk/src/ITA\_utils.c)\<close>

text \<open>
  \<open>check\<close> compares two arrays in main memory on a cluster core. It copies both, piece by piece, to
  L1 with the DMA engine, and compares one pair of buffers while the next pair is being filled. The
  engine is that of \<open>Dma\<close>. C integers are mathematical ones here; where a sum or a difference leaves
  the range of \<open>int\<close> the result is \<open>SignedOverflow\<close>. The texts that are printed are left out.
\<close>

subsection \<open>The function\<close>

definition fits_int :: "int \<Rightarrow> bool" where
  "fits_int x \<longleftrightarrow> - (2 ^ 31) \<le> x \<and> x < 2 ^ 31"

text \<open>\<open>buffer[4]\<close>, the four quarters of the L1 area.\<close>

definition check_buffer :: "u32 \<Rightarrow> int \<Rightarrow> int \<Rightarrow> u32" where
  "check_buffer l1_buffer buffer_size i = l1_buffer + word_of_int (i * buffer_size)"

record 'd check_state =
  errors :: int
  buffer_index :: int
  remaining :: int
  processed :: int
  c_dma :: 'd
  c_mem :: memory

definition dma_start :: "'d sdk \<Rightarrow> u32 \<Rightarrow> u32 \<Rightarrow> int \<Rightarrow> 'd check_state \<Rightarrow> 'd check_state" where
  "dma_start k dst src n st = (let (d, m) = dma_start_1d k dst src (word_of_int n) (c_dma st) (c_mem st)
     in st\<lparr>c_dma := d, c_mem := m\<rparr>)"

definition dma_wait :: "'d sdk \<Rightarrow> 'd check_state \<Rightarrow> 'd check_state" where
  "dma_wait k st = (let (d, m) = dma_wait_all k (c_dma st) (c_mem st) in st\<lparr>c_dma := d, c_mem := m\<rparr>)"

definition compare_buffers :: "memory \<Rightarrow> u32 \<Rightarrow> u32 \<Rightarrow> nat \<Rightarrow> int \<Rightarrow> int" where
  "compare_buffers m data_buf golden_buf n errs =
     fold (\<lambda>j errs. if m (data_buf + of_nat j) \<noteq> m (golden_buf + of_nat j) then errs + 1 else errs) [0..<n] errs"

definition check_body :: "'d sdk \<Rightarrow> u32 \<Rightarrow> u32 \<Rightarrow> u32 \<Rightarrow> int \<Rightarrow> 'd check_state
    \<Rightarrow> (int outcome option \<times> 'd check_state) option" where
  "check_body k data golden l1_buffer buffer_size st =
     (if \<not> 0 < remaining st then
        (let st = dma_wait k st in Some (Some (Ret (errors st)), st))
      else
        (let flip = (if buffer_index st = 0 then 1 else 0);
             next_buffer_data_index = 2 * flip;
             next_buffer_golden_index = 2 * flip + 1;
             buffer_data_index = 2 * buffer_index st;
             buffer_golden_index = 2 * buffer_index st + 1;
             check_size = (if remaining st < buffer_size then remaining st else buffer_size);
             rem = remaining st - check_size;
             proc = processed st + check_size;
             copy_size = (if rem < buffer_size then rem else buffer_size)
         in if \<not> fits_int rem \<or> \<not> fits_int proc then Some (Some (Fault SignedOverflow), st)
         else let
             st = dma_wait k (st\<lparr>remaining := rem, processed := proc\<rparr>);
             st = (if 0 < copy_size then
                 dma_start k (check_buffer l1_buffer buffer_size next_buffer_golden_index) (golden + word_of_int proc) copy_size
                   (dma_start k (check_buffer l1_buffer buffer_size next_buffer_data_index) (data + word_of_int proc) copy_size st)
               else st)
         in Some (None, st\<lparr>
             errors := compare_buffers (c_mem st) (check_buffer l1_buffer buffer_size buffer_data_index)
               (check_buffer l1_buffer buffer_size buffer_golden_index) (nat check_size) (errors st),
             buffer_index := flip\<rparr>)))"

definition check :: "'d sdk \<Rightarrow> u32 \<Rightarrow> u32 \<Rightarrow> int \<Rightarrow> u32 \<Rightarrow> int \<Rightarrow> 'd \<Rightarrow> memory
    \<Rightarrow> (int outcome \<times> 'd check_state) option" where
  "check k data golden sz l1_buffer l1_size d m =
     (let buffer_size = l1_size sdiv 4;
          copy_size = (if sz < buffer_size then sz else buffer_size);
          st = \<lparr>errors = 0, buffer_index = 0, remaining = sz, processed = 0, c_dma = d, c_mem = m\<rparr>;
          st = dma_start k (check_buffer l1_buffer buffer_size 0) data copy_size st;
          st = dma_start k (check_buffer l1_buffer buffer_size 1) golden copy_size st
      in loop (check_body k data golden l1_buffer buffer_size) st)"

subsection \<open>One round\<close>

text \<open>The reference: the number of differing bytes among the first \<open>n\<close>.\<close>

definition differing :: "memory \<Rightarrow> u32 \<Rightarrow> u32 \<Rightarrow> nat \<Rightarrow> nat" where
  "differing m a b n = card {i. i < n \<and> m (a + of_nat i) \<noteq> m (b + of_nat i)}"

lemma differing_Suc:
  "differing m a b (Suc n) = differing m a b n + (if m (a + of_nat n) \<noteq> m (b + of_nat n) then 1 else 0)"
proof -
  have "{i. i < Suc n \<and> m (a + of_nat i) \<noteq> m (b + of_nat i)} =
    (if m (a + of_nat n) \<noteq> m (b + of_nat n) then insert n else id) {i. i < n \<and> m (a + of_nat i) \<noteq> m (b + of_nat i)}"
    by (auto simp: less_Suc_eq)
  then show ?thesis by (simp add: differing_def)
qed

lemma compare_differing: "compare_buffers m a b n e = e + int (differing m a b n)"
  by (induction n) (simp_all add: compare_buffers_def differing_Suc, simp add: differing_def)

lemma differing_add: "differing m a b (p + n) = differing m a b p + differing m (a + of_nat p) (b + of_nat p) n"
  by (induction n) (simp_all add: differing_Suc add.assoc, simp add: differing_def)

lemma differing_cong:
  assumes "\<And>i. i < n \<Longrightarrow> m (a + of_nat i) = m' (a' + of_nat i) \<and> m (b + of_nat i) = m' (b' + of_nat i)"
  shows "differing m a b n = differing m' a' b' n"
  unfolding differing_def using assms by (intro arg_cong [of _ _ card]) auto

subsection \<open>Double buffering\<close>

text \<open>The pair of copies that fills buffer pair \<open>q\<close> with the \<open>n\<close> bytes from position \<open>p\<close> on.\<close>

definition piece :: "u32 \<Rightarrow> nat \<Rightarrow> u32 \<Rightarrow> u32 \<Rightarrow> nat \<Rightarrow> nat \<Rightarrow> nat \<Rightarrow> transfers" where
  "piece l1 B data golden q p n =
     [(l1 + of_nat (2 * q * B), data + of_nat p, of_nat n), (l1 + of_nat ((2 * q + 1) * B), golden + of_nat p, of_nat n)]"

text \<open>What \<open>check\<close> needs of its arguments: some L1 memory, and arrays of \<open>N\<close> bytes outside it.\<close>

definition check_layout :: "u32 \<Rightarrow> nat \<Rightarrow> u32 \<Rightarrow> u32 \<Rightarrow> nat \<Rightarrow> bool" where
  "check_layout l1 B data golden N \<longleftrightarrow> 0 < B \<and> 4 * B < 2 ^ 31 \<and> N < 2 ^ 31 \<and>
     block data N \<inter> block l1 (4 * B) = {} \<and> block golden N \<inter> block l1 (4 * B) = {}"

lemma buffer_block: "q < 4 \<Longrightarrow> n \<le> B \<Longrightarrow> block (l1 + of_nat (q * B)) n \<subseteq> block l1 (4 * B)"
proof -
  assume "q < 4" and "n \<le> B"
  then have "q * B + n \<le> 3 * B + B" by (intro add_mono mult_le_mono1) auto
  then show ?thesis by (intro block_offset) simp
qed

lemma buffers_apart:
  assumes "q < r" and "n \<le> B" and "r < 4" and "4 * B \<le> 2 ^ 32" and "k \<le> B"
  shows "block (l1 + of_nat (q * B)) n \<inter> block (l1 + of_nat (r * B)) k = {}"
proof (rule block_apart)
  have "q * B + n \<le> q * B + B" using assms(2) by simp
  also have "\<dots> \<le> r * B" using mult_le_mono1 [of "Suc q" r B] assms(1) by simp
  finally show "q * B + n \<le> r * B" .
  have "r * B + k \<le> 3 * B + B" using assms by (intro add_mono mult_le_mono1) auto
  then show "r * B + k \<le> 2 ^ 32" using assms(4) by simp
qed

lemma buffers_disjoint:
  assumes "q \<noteq> r" and "q < 4" and "r < 4" and "n \<le> B" and "k \<le> B" and "4 * B \<le> 2 ^ 32"
  shows "block (l1 + of_nat (q * B)) n \<inter> block (l1 + of_nat (r * B)) k = {}"
  using assms buffers_apart [of q r n B k l1] buffers_apart [of r q k B n l1] by (cases "q < r") auto

lemma piece_blocks:
  assumes "check_layout l1 B data golden N" and "q < 2" and "n \<le> B"
  shows "dests (piece l1 B data golden q p n) =
      block (l1 + of_nat (2 * q * B)) n \<union> block (l1 + of_nat ((2 * q + 1) * B)) n"
    and "dests (piece l1 B data golden q p n) \<subseteq> block l1 (4 * B)"
proof -
  have n: "unat (of_nat n :: u32) = n"
    using assms by (simp add: check_layout_def unat_of_nat)
  show eq: "dests (piece l1 B data golden q p n) =
      block (l1 + of_nat (2 * q * B)) n \<union> block (l1 + of_nat ((2 * q + 1) * B)) n"
    by (simp add: piece_def dests_def dst_block_def n del: of_nat_mult of_nat_add)
  show "dests (piece l1 B data golden q p n) \<subseteq> block l1 (4 * B)"
    unfolding eq using assms by (intro Un_least buffer_block) auto
qed

lemma piece_independent:
  assumes "check_layout l1 B data golden N" and "q < 2" and "n \<le> B" and "p + n \<le> N"
  shows "independent (piece l1 B data golden q p n)"
proof -
  have n: "unat (of_nat n :: u32) = n"
    using assms by (simp add: check_layout_def unat_of_nat)
  have "block (data + of_nat p) n \<inter> block l1 (4 * B) = {}" "block (golden + of_nat p) n \<inter> block l1 (4 * B) = {}"
    using assms block_offset [of p n N data] block_offset [of p n N golden] by (auto simp: check_layout_def)
  moreover have "block (l1 + of_nat (2 * q * B)) n \<inter> block (l1 + of_nat ((2 * q + 1) * B)) n = {}"
    using assms by (intro buffers_apart) (auto simp: check_layout_def)
  moreover have "dests (piece l1 B data golden q p n) \<subseteq> block l1 (4 * B)"
    by (rule piece_blocks(2) [OF assms(1-3)])
  ultimately show ?thesis
    unfolding independent_def by (auto simp: piece_def src_block_def dst_block_def n simp del: of_nat_mult of_nat_add)
qed

text \<open>After the wait a pair of buffers holds its piece of both arrays.\<close>

lemma piece_arrives:
  assumes "dma_async k pending" and "check_layout l1 B data golden N" and "q < 2" and "n \<le> B" and "p + n \<le> N"
    and "pending d = piece l1 B data golden q p n" and "\<forall>a. a \<notin> block l1 (4 * B) \<longrightarrow> m a = m0 a" and "i < n"
  defines "m' \<equiv> snd (dma_wait_all k d m)"
  shows "m' (l1 + of_nat (2 * q * B) + of_nat i) = m0 (data + of_nat p + of_nat i)"
    and "m' (l1 + of_nat ((2 * q + 1) * B) + of_nat i) = m0 (golden + of_nat p + of_nat i)"
proof -
  have n: "i < unat (of_nat n :: u32)"
    using assms by (simp add: check_layout_def unat_of_nat)
  have mem: "(l1 + of_nat (2 * q * B), data + of_nat p, of_nat n) \<in> set (pending d)"
    "(l1 + of_nat ((2 * q + 1) * B), golden + of_nat p, of_nat n) \<in> set (pending d)"
    by (simp_all add: assms(6) piece_def)
  have ind: "independent (pending d)"
    unfolding assms(6) by (rule piece_independent [OF assms(2-5)])
  have outside: "m (data + of_nat p + of_nat i) = m0 (data + of_nat p + of_nat i)"
    "m (golden + of_nat p + of_nat i) = m0 (golden + of_nat p + of_nat i)"
    using assms(2,5,7,8) block_in [of "p + i" N data] block_in [of "p + i" N golden]
    by (auto simp: check_layout_def add.assoc)
  show "m' (l1 + of_nat (2 * q * B) + of_nat i) = m0 (data + of_nat p + of_nat i)"
    and "m' (l1 + of_nat ((2 * q + 1) * B) + of_nat i) = m0 (golden + of_nat p + of_nat i)"
    unfolding m'_def using dma_asyncD(5) [OF assms(1) ind mem(1) n, of m] dma_asyncD(5) [OF assms(1) ind mem(2) n, of m]
    by (simp_all only: outside)
qed

text \<open>Starting the next pair leaves everything but its own buffers alone.\<close>

definition start_piece :: "'d sdk \<Rightarrow> u32 \<Rightarrow> nat \<Rightarrow> u32 \<Rightarrow> u32 \<Rightarrow> nat \<Rightarrow> nat \<Rightarrow> nat \<Rightarrow> 'd check_state \<Rightarrow> 'd check_state" where
  "start_piece k l1 B data golden q p n st =
     dma_start k (l1 + of_nat ((2 * q + 1) * B)) (golden + of_nat p) (int n)
       (dma_start k (l1 + of_nat (2 * q * B)) (data + of_nat p) (int n) st)"

lemma dma_start_sel [simp]:
  "errors (dma_start k dst src n st) = errors st" "buffer_index (dma_start k dst src n st) = buffer_index st"
  "remaining (dma_start k dst src n st) = remaining st" "processed (dma_start k dst src n st) = processed st"
  "c_dma (dma_start k dst src n st) = fst (dma_start_1d k dst src (word_of_int n) (c_dma st) (c_mem st))"
  "c_mem (dma_start k dst src n st) = snd (dma_start_1d k dst src (word_of_int n) (c_dma st) (c_mem st))"
  by (simp_all add: dma_start_def split_beta)

lemma dma_wait_sel [simp]:
  "errors (dma_wait k st) = errors st" "buffer_index (dma_wait k st) = buffer_index st"
  "remaining (dma_wait k st) = remaining st" "processed (dma_wait k st) = processed st"
  "c_dma (dma_wait k st) = fst (dma_wait_all k (c_dma st) (c_mem st))"
  "c_mem (dma_wait k st) = snd (dma_wait_all k (c_dma st) (c_mem st))"
  by (simp_all add: dma_wait_def split_beta)

lemma start_piece_sel [simp]:
  "errors (start_piece k l1 B data golden q p n st) = errors st"
  "buffer_index (start_piece k l1 B data golden q p n st) = buffer_index st"
  "remaining (start_piece k l1 B data golden q p n st) = remaining st"
  "processed (start_piece k l1 B data golden q p n st) = processed st"
  by (simp_all add: start_piece_def)

lemma start_piece_dma:
  assumes "dma_async k pending" and "pending (c_dma st) = []"
  shows "pending (c_dma (start_piece k l1 B data golden q p n st)) = piece l1 B data golden q p n"
    and "a \<notin> dests (piece l1 B data golden q p n) \<Longrightarrow> c_mem (start_piece k l1 B data golden q p n st) a = c_mem st a"
proof -
  note D = dma_asyncD(1,2) [OF assms(1)]
  show "pending (c_dma (start_piece k l1 B data golden q p n st)) = piece l1 B data golden q p n"
    by (simp add: start_piece_def D(1) assms(2) piece_def)
  assume a: "a \<notin> dests (piece l1 B data golden q p n)"
  show "c_mem (start_piece k l1 B data golden q p n st) a = c_mem st a"
    using a by (simp add: start_piece_def D assms(2) piece_def dests_def)
qed

lemma check_buffer_nat: "check_buffer l1 (int B) (int j) = l1 + of_nat (j * B)"
  by (simp add: check_buffer_def flip: of_nat_mult)

lemma check_body_values:
  fixes k :: "'d sdk" and data golden l1 :: u32
  assumes "0 < remaining st" and "(if remaining st < bs then remaining st else bs) = cs"
    and "remaining st - cs = rm" and "processed st + cs = pr" and "(if rm < bs then rm else bs) = cp"
    and "fits_int rm" and "fits_int pr" and "(if buffer_index st = 0 then 1 else 0) = flip"
  defines "st1 \<equiv> dma_wait k (st\<lparr>remaining := rm, processed := pr\<rparr>)"
  defines "st2 \<equiv> if 0 < cp then dma_start k (check_buffer l1 bs (2 * flip + 1)) (golden + word_of_int pr) cp
      (dma_start k (check_buffer l1 bs (2 * flip)) (data + word_of_int pr) cp st1) else st1"
  shows "check_body k data golden l1 bs st = Some (None, st2\<lparr>errors :=
      compare_buffers (c_mem st2) (check_buffer l1 bs (2 * buffer_index st)) (check_buffer l1 bs (2 * buffer_index st + 1)) (nat cs) (errors st),
      buffer_index := flip\<rparr>)"
proof -
  have "errors st2 = errors st" by (simp add: st2_def st1_def)
  then show ?thesis
    unfolding check_body_def Let_def assms(2-5,8) st1_def [symmetric] st2_def [symmetric]
    using assms(1,6,7) by simp
qed

definition refill :: "'d sdk \<Rightarrow> u32 \<Rightarrow> nat \<Rightarrow> u32 \<Rightarrow> u32 \<Rightarrow> nat \<Rightarrow> nat \<Rightarrow> nat \<Rightarrow> 'd check_state \<Rightarrow> 'd check_state" where
  "refill k l1 B data golden q p n st =
     (if 0 < n then start_piece k l1 B data golden q p n (dma_wait k st) else dma_wait k st)"

text \<open>A round of \<open>check\<close> with \<open>n\<close> bytes to compare and \<open>n'\<close> to fetch, on natural numbers.\<close>

lemma check_body_nat:
  fixes k :: "'d sdk" and data golden l1 :: u32
  assumes "q < 2" and "0 < r" and "p + r < 2 ^ 31" and "n = min r B" and "n' = min (r - n) B"
    and "buffer_index st = int q" and "processed st = int p" and "remaining st = int r"
  defines "st2 \<equiv> refill k l1 B data golden (1 - q) (p + n) n' (st\<lparr>remaining := int (r - n), processed := int (p + n)\<rparr>)"
  shows "check_body k data golden l1 (int B) st = Some (None, st2\<lparr>errors :=
      compare_buffers (c_mem st2) (l1 + of_nat (2 * q * B)) (l1 + of_nat ((2 * q + 1) * B)) n (errors st),
      buffer_index := int (1 - q)\<rparr>)"
proof -
  have run: "0 < remaining st" using assms(2,8) by simp
  have val: "(if remaining st < int B then remaining st else int B) = int n" "remaining st - int n = int (r - n)"
    "processed st + int n = int (p + n)" "(if int (r - n) < int B then int (r - n) else int B) = int n'"
    "(if buffer_index st = 0 then 1 else 0) = int (1 - q)"
    using assms(1,4-8) by auto
  have fits: "fits_int (int (r - n))" "fits_int (int (p + n))"
    using assms(3,4) by (auto simp: fits_int_def)
  have idx: "check_buffer l1 (int B) (2 * int x) = l1 + of_nat (2 * x * B)"
    "check_buffer l1 (int B) (2 * int x + 1) = l1 + of_nat ((2 * x + 1) * B)" for x
    using check_buffer_nat [of l1 B "2 * x"] check_buffer_nat [of l1 B "2 * x + 1"]
    by (simp_all only: of_nat_mult of_nat_add of_nat_numeral of_nat_1)
  show ?thesis
    using check_body_values [OF run val(1-4) fits val(5), of k data golden l1]
    unfolding assms(6) idx
    by (simp only: st2_def refill_def start_piece_def of_int_of_nat_eq nat_int of_nat_0_less_iff)
qed

text \<open>Waiting for buffer pair \<open>q\<close> and refilling the other one: pair \<open>q\<close> then holds its piece, and
  only L1 has changed.\<close>

lemma refill_dma:
  assumes "dma_async k pending"
  shows "pending (c_dma (refill k l1 B data golden q p n st)) = (if 0 < n then piece l1 B data golden q p n else [])"
    and "a \<notin> dests (piece l1 B data golden q p n) \<Longrightarrow>
      c_mem (refill k l1 B data golden q p n st) a = snd (dma_wait_all k (c_dma st) (c_mem st)) a"
proof -
  have none: "pending (c_dma (dma_wait k st)) = []" by (simp add: dma_asyncD(3) [OF assms])
  show "pending (c_dma (refill k l1 B data golden q p n st)) = (if 0 < n then piece l1 B data golden q p n else [])"
    using none by (simp add: refill_def start_piece_dma(1) [OF assms none])
  show "a \<notin> dests (piece l1 B data golden q p n) \<Longrightarrow>
      c_mem (refill k l1 B data golden q p n st) a = snd (dma_wait_all k (c_dma st) (c_mem st)) a"
    by (simp add: refill_def start_piece_dma(2) [OF assms none])
qed

lemma other_pair:
  assumes "check_layout l1 B data golden N" and "q < 2" and "n \<le> B" and "n' \<le> B" and "x = 2 * q \<or> x = 2 * q + 1"
  shows "block (l1 + of_nat (x * B)) n \<inter> dests (piece l1 B data golden (1 - q) p n') = {}"
proof -
  have x: "x \<noteq> 2 * (1 - q)" "x \<noteq> 2 * (1 - q) + 1" "x < 4" "2 * (1 - q) < 4" "2 * (1 - q) + 1 < 4"
    using assms(2,5) by (cases "q = 0"; auto)+
  have "4 * B \<le> 2 ^ 32" and "1 - q < 2" using assms(1) by (auto simp: check_layout_def)
  then show ?thesis
    by (simp only: piece_blocks(1) [OF assms(1) _ assms(4)] Int_Un_distrib
        buffers_disjoint [OF x(1,3,4) assms(3,4)] buffers_disjoint [OF x(2,3,5) assms(3,4)] Un_absorb)
qed

lemma refill_holds:
  fixes k :: "'d sdk" and m0 :: memory
  assumes "dma_async k pending" and "check_layout l1 B data golden N" and "q < 2" and "n \<le> B" and "n' \<le> B" and "p + n \<le> N"
    and "pending (c_dma st) = piece l1 B data golden q p n" and "\<forall>a. a \<notin> block l1 (4 * B) \<longrightarrow> c_mem st a = m0 a"
  defines "m \<equiv> c_mem (refill k l1 B data golden (1 - q) (p + n) n' st)"
  shows "a \<notin> block l1 (4 * B) \<Longrightarrow> m a = m0 a"
    and "i < n \<Longrightarrow> m (l1 + of_nat (2 * q * B) + of_nat i) = m0 (data + of_nat p + of_nat i)"
    and "i < n \<Longrightarrow> m (l1 + of_nat ((2 * q + 1) * B) + of_nat i) = m0 (golden + of_nat p + of_nat i)"
proof -
  have next_blocks: "dests (piece l1 B data golden (1 - q) (p + n) n') \<subseteq> block l1 (4 * B)"
    by (rule piece_blocks(2) [OF assms(2) _ assms(5)]) simp
  note kept = refill_dma(2) [OF assms(1), of _ l1 B data golden "1 - q" "p + n" n' st, folded m_def]
  show "m a = m0 a" if "a \<notin> block l1 (4 * B)"
  proof -
    have "a \<notin> dests (pending (c_dma st))"
      using that piece_blocks(2) [OF assms(2,3,4), of p] by (auto simp: assms(7))
    then show ?thesis
      using that kept [of a] next_blocks dma_asyncD(4) [OF assms(1), of a "c_dma st" "c_mem st"] assms(8)
      by (metis subsetD)
  qed
  assume i: "i < n"
  note arrived = piece_arrives [OF assms(1-4,6-8) i]
  show "m (l1 + of_nat (2 * q * B) + of_nat i) = m0 (data + of_nat p + of_nat i)"
    using other_pair [OF assms(2-5), of "2 * q"] block_in [OF i, of "l1 + of_nat (2 * q * B)"] arrived(1) kept
    by fastforce
  show "m (l1 + of_nat ((2 * q + 1) * B) + of_nat i) = m0 (golden + of_nat p + of_nat i)"
    using other_pair [OF assms(2-5), of "2 * q + 1"] block_in [OF i, of "l1 + of_nat ((2 * q + 1) * B)"] arrived(2) kept
    by fastforce
qed

text \<open>The bytes compared after it, and the transfers it leaves pending.\<close>

lemma refill_differing:
  assumes "dma_async k pending" and "check_layout l1 B data golden N" and "q < 2" and "n \<le> B" and "n' \<le> B" and "p + n \<le> N"
    and "pending (c_dma st) = piece l1 B data golden q p n" and "\<forall>a. a \<notin> block l1 (4 * B) \<longrightarrow> c_mem st a = m0 a"
  shows "differing (c_mem (refill k l1 B data golden (1 - q) (p + n) n' st))
      (l1 + of_nat (2 * q * B)) (l1 + of_nat ((2 * q + 1) * B)) n
    = differing m0 (data + of_nat p) (golden + of_nat p) n"
  by (rule differing_cong) (simp only: refill_holds(2,3) [OF assms] simp_thms)

lemma refill_inside:
  assumes "dma_async k pending" and "check_layout l1 B data golden N" and "q < 2" and "n \<le> B"
  shows "dests (pending (c_dma (refill k l1 B data golden q p n st))) \<subseteq> block l1 (4 * B)"
  using piece_blocks(2) [OF assms(2-4), of p] by (simp add: refill_dma(1) [OF assms(1)] dests_def [of "[]"])

subsection \<open>The invariant of the loop\<close>

definition check_inv :: "('d \<Rightarrow> transfers) \<Rightarrow> u32 \<Rightarrow> nat \<Rightarrow> u32 \<Rightarrow> u32 \<Rightarrow> nat \<Rightarrow> memory \<Rightarrow> 'd check_state \<Rightarrow> bool" where
  "check_inv pending l1 B data golden N m0 st \<longleftrightarrow> (\<exists>q p r. q < 2 \<and> p + r = N \<and>
     buffer_index st = int q \<and> processed st = int p \<and> remaining st = int r \<and>
     errors st = int (differing m0 data golden p) \<and>
     (\<forall>a. a \<notin> block l1 (4 * B) \<longrightarrow> c_mem st a = m0 a) \<and>
     dests (pending (c_dma st)) \<subseteq> block l1 (4 * B) \<and>
     (0 < r \<longrightarrow> pending (c_dma st) = piece l1 B data golden q p (min r B)))"

lemma check_round:
  assumes "dma_async k pending" and "check_layout l1 B data golden N"
    and "check_inv pending l1 B data golden N m0 st" and "0 < remaining st"
  shows "\<exists>st'. check_body k data golden l1 (int B) st = Some (None, st') \<and>
    check_inv pending l1 B data golden N m0 st' \<and> nat (remaining st') < nat (remaining st)"
proof -
  from assms(3) obtain q p r where inv: "q < 2" "p + r = N" "buffer_index st = int q" "processed st = int p"
      "remaining st = int r" "errors st = int (differing m0 data golden p)"
    and outside: "\<forall>a. a \<notin> block l1 (4 * B) \<longrightarrow> c_mem st a = m0 a"
    and full: "0 < r \<longrightarrow> pending (c_dma st) = piece l1 B data golden q p (min r B)"
    unfolding check_inv_def by blast
  have lay: "0 < B" "N < 2 ^ 31" using assms(2) by (simp_all add: check_layout_def)
  have r: "0 < r" using assms(4) inv(5) by simp
  define n where "n = min r B"
  define n' where "n' = min (r - n) B"
  have n: "0 < n" "n \<le> B" "n \<le> r" "p + n \<le> N" "n' \<le> B"
    using r lay inv(2) by (auto simp: n_def n'_def)
  let ?st0 = "st\<lparr>remaining := int (r - n), processed := int (p + n)\<rparr>"
  define st2 where "st2 = refill k l1 B data golden (1 - q) (p + n) n' ?st0"
  define st' where "st' = st2\<lparr>errors := compare_buffers (c_mem st2) (l1 + of_nat (2 * q * B)) (l1 + of_nat ((2 * q + 1) * B)) n (errors st),
    buffer_index := int (1 - q)\<rparr>"
  have body: "check_body k data golden l1 (int B) st = Some (None, st')"
    unfolding st'_def st2_def by (rule check_body_nat [OF inv(1) r]) (use inv lay in \<open>simp_all add: n_def n'_def\<close>)
  have pend: "pending (c_dma ?st0) = piece l1 B data golden q p n" "\<forall>a. a \<notin> block l1 (4 * B) \<longrightarrow> c_mem ?st0 a = m0 a"
    using full r outside by (simp_all add: n_def)
  note held = refill_holds [OF assms(1,2) inv(1) n(2,5,4) pend, folded st2_def]
  have errs: "errors st' = int (differing m0 data golden (p + n))"
    using refill_differing [OF assms(1,2) inv(1) n(2,5,4) pend, folded st2_def]
    by (simp add: st'_def compare_differing inv(6) differing_add)
  have regs: "buffer_index st' = int (1 - q)" "processed st' = int (p + n)" "remaining st' = int (r - n)"
    "c_mem st' = c_mem st2" "c_dma st' = c_dma st2"
    by (simp_all add: st'_def st2_def refill_def)
  have pend2: "pending (c_dma st2) = piece l1 B data golden (1 - q) (p + n) (min (r - n) B)" if "0 < r - n"
    using lay that by (simp add: st2_def refill_dma(1) [OF assms(1)] n'_def)
  have inside: "dests (pending (c_dma st2)) \<subseteq> block l1 (4 * B)"
    unfolding st2_def by (rule refill_inside [OF assms(1,2) _ n(5)]) simp
  have "check_inv pending l1 B data golden N m0 st'"
    unfolding check_inv_def regs errs
  proof (rule exI [of _ "1 - q"], rule exI [of _ "p + n"], rule exI [of _ "r - n"], intro conjI allI impI)
    show "c_mem st2 a = m0 a" if "a \<notin> block l1 (4 * B)" for a
      by (rule held(1) [OF that])
  qed (use inv(1,2) n(3) inside pend2 in simp_all)
  moreover have "nat (remaining st') < nat (remaining st)"
    using n(1,3) by (simp add: regs inv)
  ultimately show ?thesis using body by blast
qed

lemma check_start:
  fixes m :: memory
  assumes "dma_async k pending" and "check_layout l1 B data golden N" and "pending d = []"
  defines "n \<equiv> min N B"
  defines "st \<equiv> start_piece k l1 B data golden 0 0 n
      \<lparr>errors = 0, buffer_index = 0, remaining = int N, processed = 0, c_dma = d, c_mem = m\<rparr>"
  shows "check_inv pending l1 B data golden N m st"
proof -
  let ?st0 = "\<lparr>errors = 0, buffer_index = 0, remaining = int N, processed = 0, c_dma = d, c_mem = m\<rparr>"
  have none: "pending (c_dma ?st0) = []" using assms(3) by simp
  have inside: "dests (piece l1 B data golden 0 0 n) \<subseteq> block l1 (4 * B)"
    by (rule piece_blocks(2) [OF assms(2)]) (simp_all add: n_def)
  have outside: "\<forall>a. a \<notin> block l1 (4 * B) \<longrightarrow> c_mem st a = m a"
    using inside start_piece_dma(2) [OF assms(1) none, of _ l1 B data golden 0 0 n] by (auto simp: st_def)
  show ?thesis
    unfolding check_inv_def
    by (rule exI [of _ 0], rule exI [of _ 0], rule exI [of _ N])
      (use inside outside in \<open>simp add: st_def start_piece_dma(1) [OF assms(1) none] differing_def n_def\<close>)
qed

subsection \<open>Properties\<close>

text \<open>C14: \<open>check\<close> returns the number of bytes in which the two arrays differ, whatever the speed of the DMA
  engine: no buffer is compared before both its copies have arrived or refilled while it is being
  compared. It changes nothing but its L1 area and leaves no copy pending.\<close>

theorem check_counts:
  assumes "dma_async k pending" and "pending d = []" and "0 \<le> sz" and "4 \<le> l1_size"
    and "check_layout l1 (nat l1_size div 4) data golden (nat sz)"
  shows "\<exists>st'. check k data golden sz l1 l1_size d m = Some (Ret (int (differing m data golden (nat sz))), st')
    \<and> pending (c_dma st') = [] \<and> (\<forall>a. a \<notin> block l1 (nat l1_size) \<longrightarrow> c_mem st' a = m a)"
proof -
  define B where "B = nat l1_size div 4"
  have B: "l1_size sdiv 4 = int B" "4 * B \<le> nat l1_size"
    using assms(4) by (simp_all add: B_def signed_divide_int_def zdiv_int)
  note lay = assms(5) [folded B_def]
  let ?I = "check_inv pending l1 B data golden (nat sz) m"
  define st where "st = start_piece k l1 B data golden 0 0 (min (nat sz) B)
      \<lparr>errors = 0, buffer_index = 0, remaining = int (nat sz), processed = 0, c_dma = d, c_mem = m\<rparr>"
  have start: "?I st" unfolding st_def by (rule check_start [OF assms(1) lay assms(2)])
  have "(if sz < int B then sz else int B) = int (min (nat sz) B)" using assms(3) by auto
  then have loop: "check k data golden sz l1 l1_size d m = loop (check_body k data golden l1 (int B)) st"
    using assms(3) check_buffer_nat [of l1 B 0] check_buffer_nat [of l1 B 1]
    by (simp add: check_def B(1) Let_def st_def start_piece_def)
  have exit: "check_body k data golden l1 (int B) t = Some (Some (Ret (errors t)), dma_wait k t)" if "\<not> 0 < remaining t" for t
    using that by (simp add: check_body_def Let_def)
  have "\<exists>x t'. check_body k data golden l1 (int B) t = Some (x, t') \<and> (x = None \<longrightarrow> ?I t' \<and> nat (remaining t') < nat (remaining t))"
    if "?I t" for t
    using check_round [OF assms(1) lay that] exit [of t] by (cases "0 < remaining t") auto
  then obtain r st' where run: "loop (check_body k data golden l1 (int B)) st = Some (r, st')"
    using loop_terminates [of ?I st "check_body k data golden l1 (int B)" "\<lambda>t. nat (remaining t)", OF start] by blast
  obtain t where t: "?I t" "check_body k data golden l1 (int B) t = Some (Some r, st')"
    using loop_inv [where I = ?I, OF run start] check_round [OF assms(1) lay] exit by (metis option.inject prod.inject option.distinct(1))
  have over: "\<not> 0 < remaining t" using check_round [OF assms(1) lay t(1)] t(2) by auto
  with exit [OF over] t(2) have res: "r = Ret (errors t)" "st' = dma_wait k t" by auto
  from t(1) over have errs: "errors t = int (differing m data golden (nat sz))"
    and mem: "\<forall>a. a \<notin> block l1 (4 * B) \<longrightarrow> c_mem t a = m a \<and> a \<notin> dests (pending (c_dma t))"
    by (auto simp: check_inv_def)
  have "\<forall>a. a \<notin> block l1 (nat l1_size) \<longrightarrow> c_mem st' a = m a"
    using mem block_mono [OF B(2), of l1] by (auto simp: res(2) dma_asyncD(4) [OF assms(1)])
  with loop run errs res show ?thesis by (simp add: dma_asyncD(3) [OF assms(1)])
qed

lemma sample_check_layout: "check_layout 0x10000 2 0x1000 0x2000 5"
  using block_apart [where a = 0 and x = "0x1000" and n = 5 and y = "0x10000" and k = 8]
    block_apart [where a = 0 and x = "0x2000" and n = 5 and y = "0x10000" and k = 8]
  by (simp add: check_layout_def)

theorem check_counts_witness:
  "\<exists>st'. check sample_sdk 0x1000 0x2000 5 0x10000 8 [] (\<lambda>a. if a = 0x1003 then 1 else 0) = Some (Ret 1, st') \<and> c_dma st' = []"
proof -
  have "{i. i < (5::nat) \<and> (if 0x1000 + of_nat i = (0x1003 :: addr) then 1 else 0) \<noteq> (if 0x2000 + of_nat i = (0x1003 :: addr) then 1 else (0 :: u8))} = {3}"
  proof -
    have "i = 3" if "i < 5" "0x1000 + of_nat i = (0x1003 :: addr) \<or> 0x2000 + of_nat i = (0x1003 :: addr)" for i :: nat
    proof -
      have "i \<in> {0, 1, 2, 3, 4}" using that(1) by auto
      with that(2) show ?thesis by auto
    qed
    then show ?thesis by (auto split: if_splits)
  qed
  then have "differing (\<lambda>a. if a = 0x1003 then 1 else 0) 0x1000 0x2000 5 = 1" by (simp add: differing_def)
  then show ?thesis
    using check_counts [OF sample_sdk_async, where d = "[]" and sz = 5 and l1_size = 8 and ?l1.0 = "0x10000" and data = "0x1000"
      and golden = "0x2000" and m = "\<lambda>a. if a = 0x1003 then 1 else 0"]
      sample_check_layout by auto
qed

text \<open>With fewer than four bytes of L1 the buffers are empty and \<open>check\<close> never returns.\<close>

theorem check_without_buffers:
  assumes "0 < sz" and "sz < 2 ^ 31" and "\<bar>l1_size\<bar> < 4"
  shows "check k data golden sz l1 l1_size d m = None"
proof -
  have B: "l1_size sdiv 4 = 0" using assms(3) by (simp add: signed_divide_int_def)
  have step: "\<exists>t'. check_body k data golden l1 0 t = Some (None, t') \<and> remaining t' = sz \<and> processed t' = 0"
    if "remaining t = sz \<and> processed t = 0" for t
    using that assms(1,2) by (simp add: check_body_def Let_def fits_int_def)
  show ?thesis
    unfolding check_def B Let_def
    by (rule loop_diverges [where I = "\<lambda>t. remaining t = sz \<and> processed t = 0"]) (simp, rule step)
qed

theorem check_without_buffers_witness:
  "check sample_sdk 0x1000 0x2000 5 0x10000 3 [] (\<lambda>_. 0) = None"
  by (rule check_without_buffers) simp_all

end
