(* ===== verification/Ita.thy ===== *)
theory Ita
  imports Dma Bus SocMap
begin

section \<open>The ITA accelerator of cluster 4 (third\_party/ita-sdk/inc)\<close>

text \<open>
  The control functions of \<open>ITA_ctrl.h\<close> on the machine, and the two matrix products of
  \<open>ITA_layers.h\<close>. Every branch of a layer function depends on loop indices and sizes only, never on data
  that is read. A layer is therefore the list of the calls it makes, in order; \<open>perform\<close> says what a
  call does to the machine and the DMA engine. The numbers and sizes of tiles are macros of the
  application (\<open>ITA_mem.h\<close> and what it includes); they are a parameter.
\<close>

subsection \<open>Register map (cluster\_4\_addr\_map.h) and packed values\<close>

definition CLUSTER_4_BASE :: addr where [reg_offsets]: "CLUSTER_4_BASE = 0x40800000"

definition CLUSTER_4_HWPE_ITA_BASE_ADDR :: addr where [reg_offsets]:
  "CLUSTER_4_HWPE_ITA_BASE_ADDR = CLUSTER_4_BASE + 0x40000"

definition CLUSTER_4_HWPE_BUSY_ADDR :: addr where [reg_offsets]:
  "CLUSTER_4_HWPE_BUSY_ADDR = CLUSTER_4_BASE + 0x20000 + 0x1a8"

definition ITA_TILES :: "u32 \<Rightarrow> u32 \<Rightarrow> u32 \<Rightarrow> u32" where
  "ITA_TILES s e p = s OR push_bit 4 e OR push_bit 8 p"

definition ITA_LAYER :: "u32 \<Rightarrow> u32 \<Rightarrow> u32" where
  "ITA_LAYER layer activation = layer OR push_bit 2 activation"

definition ITA_FLAGS :: "u32 \<Rightarrow> u32 \<Rightarrow> u32 \<Rightarrow> u32 \<Rightarrow> u32 \<Rightarrow> u32" where
  "ITA_FLAGS weight_preload weight_nextload bias_disable bias_direction output_disable =
     weight_preload OR push_bit 1 weight_nextload OR push_bit 2 bias_disable
       OR push_bit 3 bias_direction OR push_bit 4 output_disable"

subsection \<open>Control functions (ITA\_ctrl.h)\<close>

definition ita_wr :: "env \<Rightarrow> addr \<Rightarrow> u32 \<Rightarrow> machine \<Rightarrow> machine" where
  "ita_wr env off = wr32 env (CLUSTER_4_HWPE_ITA_BASE_ADDR + off)"

definition ita_set_address :: "env \<Rightarrow> addr \<Rightarrow> u32 \<Rightarrow> machine \<Rightarrow> machine" where
  "ita_set_address env off a s = (if CLUSTER_4_BASE < a then ita_wr env off (a - CLUSTER_4_BASE) s else s)"

definition ita_set_addresses :: "env \<Rightarrow> u32 \<Rightarrow> u32 \<Rightarrow> u32 \<Rightarrow> u32 \<Rightarrow> u32 \<Rightarrow> machine \<Rightarrow> machine" where
  "ita_set_addresses env input_addr weight_addr weight_next_addr bias_addr output_addr s =
     (let s = ita_set_address env 0x20 input_addr s;
          s = ita_set_address env 0x24 weight_addr s;
          s = ita_set_address env 0x28 weight_next_addr s;
          s = ita_set_address env 0x2C bias_addr s
      in ita_set_address env 0x30 output_addr s)"

definition ita_set_tiles :: "env \<Rightarrow> u32 \<Rightarrow> machine \<Rightarrow> machine" where
  "ita_set_tiles env tiles = ita_wr env 0x38 tiles"

definition ita_set_layers :: "env \<Rightarrow> u32 \<Rightarrow> machine \<Rightarrow> machine" where
  "ita_set_layers env layer = ita_wr env 0x54 layer"

definition ita_set_flags :: "env \<Rightarrow> u32 \<Rightarrow> machine \<Rightarrow> machine" where
  "ita_set_flags env flags = ita_wr env 0x58 flags"

definition ita_write_rqs_params :: "env \<Rightarrow> u32 \<Rightarrow> u32 \<Rightarrow> u32 \<Rightarrow> u32 \<Rightarrow> u32 \<Rightarrow> u32 \<Rightarrow> machine \<Rightarrow> machine" where
  "ita_write_rqs_params env eps1 eps2 right_shift1 right_shift2 add1 add2 s =
     (let s = ita_wr env 0x3C eps1 s;
          s = ita_wr env 0x40 eps2 s;
          s = ita_wr env 0x44 right_shift1 s;
          s = ita_wr env 0x48 right_shift2 s;
          s = ita_wr env 0x4C add1 s
      in ita_wr env 0x50 add2 s)"

text \<open>The counting loops after the two resets are delays.\<close>

definition ita_soft_clear :: "env \<Rightarrow> machine \<Rightarrow> machine" where
  "ita_soft_clear env s = nops env 10 (ita_wr env 0x14 0 s)"

definition ita_soft_clear_keep_regs :: "env \<Rightarrow> machine \<Rightarrow> machine" where
  "ita_soft_clear_keep_regs env s = nops env 10 (ita_wr env 0x14 1 s)"

definition ita_acquire_job :: "env \<Rightarrow> machine \<Rightarrow> machine option" where
  "ita_acquire_job env s =
     (case poll32 env (CLUSTER_4_HWPE_ITA_BASE_ADDR + 0x04) (\<lambda>v. \<not> v < 1) s of None \<Rightarrow> None | Some (_, s) \<Rightarrow> Some s)"

definition ita_wait_job :: "env \<Rightarrow> machine \<Rightarrow> machine option" where
  "ita_wait_job env s =
     (case poll32 env CLUSTER_4_HWPE_BUSY_ADDR (\<lambda>v. \<not> v \<noteq> 0) s of None \<Rightarrow> None | Some (_, s) \<Rightarrow> Some s)"

definition ita_trigger :: "env \<Rightarrow> machine \<Rightarrow> machine" where
  "ita_trigger env = ita_wr env 0x00 0"

definition ita_commit :: "env \<Rightarrow> machine \<Rightarrow> machine" where
  "ita_commit env = ita_wr env 0x00 1"

text \<open>The first byte of L1 is a buffer address like any other, but it is not programmed.\<close>

lemma address_at_base: "ita_set_address env off CLUSTER_4_BASE s = s"
  by (simp add: ita_set_address_def)

subsection \<open>Layers as lists of calls (ITA\_layers.h)\<close>

datatype ita_call =
    Dma_start u32 u32 nat
  | Dma_wait
  | Set_addresses u32 u32 u32 u32 u32
  | Set_flags u32
  | Wait_job
  | Trigger

text \<open>\<open>N_TILE_*\<close> and \<open>TILE_SIZE_*\<close> of the sequence length, the projection and the embedding space.\<close>

record dims =
  n_seq :: nat
  n_proj :: nat
  n_emb :: nat
  ts_seq :: nat
  ts_proj :: nat
  ts_emb :: nat

text \<open>The arguments; a C array of two pointers is a pair. \<open>bias_l2\<close> counts in \<open>ita_int24_t\<close>, of three bytes.\<close>

record operands =
  a_l2 :: u32
  b_l2 :: u32
  bias_l2 :: u32
  out_l2 :: u32
  a_l1 :: "u32 \<times> u32"
  b_l1 :: "u32 \<times> u32"
  bias_l1 :: u32
  out_l1 :: "u32 \<times> u32"

definition pick :: "u32 \<times> u32 \<Rightarrow> nat \<Rightarrow> u32" where
  "pick p b = (if b = 0 then fst p else snd p)"

definition flag :: "bool \<Rightarrow> u32" where
  "flag b = (if b then 1 else 0)"

definition size_a :: "dims \<Rightarrow> nat" where "size_a d = ts_seq d * ts_emb d"

definition size_b :: "dims \<Rightarrow> nat" where "size_b d = ts_proj d * ts_emb d"

definition size_out :: "dims \<Rightarrow> nat" where "size_out d = ts_seq d * ts_proj d"

definition size_bias :: "dims \<Rightarrow> nat" where "size_bias d = ts_proj d * 3"

text \<open>The body of the innermost loop of \<open>ita_compute_matmul_L2\<close>; \<open>b\<close> is \<open>index_buff\<close>.\<close>

definition L2_job :: "dims \<Rightarrow> operands \<Rightarrow> nat \<Rightarrow> nat \<Rightarrow> nat \<Rightarrow> nat \<Rightarrow> ita_call list" where
  "L2_job d p i j k b =
     (let is_first_tile = (i = 0 \<and> j = 0 \<and> k = 0);
          is_last_tile = (i = n_seq d - 1 \<and> j = n_proj d - 1 \<and> k = n_emb d - 1);
          offset_input_a = (i * n_emb d + k) * size_a d;
          index_buff_output = (i * n_proj d + j) mod 2;
          next_k = (if k = n_emb d - 1 then 0 else k + 1);
          inc_j = (if j = n_proj d - 1 then 0 else j + 1);
          next_j = (if k = n_emb d - 1 then inc_j else j);
          offset_input_b = (next_j * n_emb d + next_k) * size_b d;
          prev_i = (if j = 0 then i - 1 else i);
          prev_j = (if j = 0 then n_proj d - 1 else j - 1);
          prev = prev_i * n_proj d + prev_j
      in [Dma_start (pick (a_l1 p) b) (a_l2 p + of_nat offset_input_a) (size_a d),
          Set_addresses (pick (a_l1 p) b) (pick (b_l1 p) b) (pick (b_l1 p) (1 - b)) (bias_l1 p) (pick (out_l1 p) index_buff_output),
          Set_flags (ITA_FLAGS (flag is_first_tile) (flag (\<not> is_last_tile)) 0 0 (if k = n_emb d - 1 then 0 else 1)),
          Dma_wait]
        @ (if \<not> is_first_tile then [Wait_job] else [])
        @ (if \<not> is_last_tile then [Dma_start (pick (b_l1 p) (1 - b)) (b_l2 p + of_nat offset_input_b) (size_b d)] else [])
        @ [Trigger]
        @ (if k = 0 \<and> (i \<noteq> 0 \<or> j \<noteq> 0)
           then [Dma_start (out_l2 p + of_nat (prev * size_out d)) (pick (out_l1 p) (prev mod 2)) (size_out d)] else []))"

definition L2_bias :: "dims \<Rightarrow> operands \<Rightarrow> nat \<Rightarrow> ita_call" where
  "L2_bias d p j = Dma_start (bias_l1 p) (bias_l2 p + of_nat (j * ts_proj d * 3)) (size_bias d)"

text \<open>The three loops; the calls so far and \<open>index_buff\<close> are carried along.\<close>

definition L2_tile :: "dims \<Rightarrow> operands \<Rightarrow> nat \<Rightarrow> nat \<Rightarrow> ita_call list \<times> nat \<Rightarrow> ita_call list \<times> nat" where
  "L2_tile d p i j acc = fold (\<lambda>k (cs, b). (cs @ L2_job d p i j k b, 1 - b)) [0..<n_emb d] (fst acc @ [L2_bias d p j], snd acc)"

definition L2_row :: "dims \<Rightarrow> operands \<Rightarrow> nat \<Rightarrow> ita_call list \<times> nat \<Rightarrow> ita_call list \<times> nat" where
  "L2_row d p i acc = fold (L2_tile d p i) [0..<n_proj d] acc"

definition ita_compute_matmul_L2 :: "dims \<Rightarrow> operands \<Rightarrow> ita_call list" where
  "ita_compute_matmul_L2 d p =
     fst (fold (L2_row d p) [0..<n_seq d] ([Dma_start (pick (b_l1 p) 0) (b_l2 p) (size_b d)], 0))"

text \<open>\<open>ita_compute_matmul_L1\<close>: all operands are in L1 already.\<close>

definition L1_job :: "dims \<Rightarrow> u32 \<Rightarrow> u32 \<Rightarrow> u32 \<Rightarrow> u32 \<Rightarrow> nat \<Rightarrow> nat \<Rightarrow> nat \<Rightarrow> ita_call list" where
  "L1_job d input_a input_b bias output i j k =
     (let is_first_tile = (i = 0 \<and> j = 0 \<and> k = 0);
          is_last_tile = (i = n_seq d - 1 \<and> j = n_proj d - 1 \<and> k = n_emb d - 1);
          offset_input_a = (i * n_emb d + k) * size_a d;
          offset_input_b = (j * n_emb d + k) * size_b d;
          offset_input_b_next = (j * n_emb d + (k + 1) mod n_emb d) * size_b d;
          offset_output = (i * n_proj d + j) * size_out d
      in [Set_addresses (input_a + of_nat offset_input_a) (input_b + of_nat offset_input_b)
            (input_b + of_nat offset_input_b_next) (bias + of_nat (j * ts_proj d * 3)) (output + of_nat offset_output),
          Set_flags (ITA_FLAGS (flag is_first_tile) (flag (\<not> is_last_tile)) 0 0 (if k = n_emb d - 1 then 0 else 1)),
          Dma_wait]
        @ (if \<not> is_first_tile then [Wait_job] else [])
        @ [Trigger])"

definition ita_compute_matmul_L1 :: "dims \<Rightarrow> u32 \<Rightarrow> u32 \<Rightarrow> u32 \<Rightarrow> u32 \<Rightarrow> ita_call list" where
  "ita_compute_matmul_L1 d input_a input_b bias output =
     concat (map (\<lambda>i. concat (map (\<lambda>j. concat (map (L1_job d input_a input_b bias output i j) [0..<n_emb d])) [0..<n_proj d])) [0..<n_seq d])"

subsection \<open>What a call does\<close>

text \<open>The DMA engine works on the memory of the machine.\<close>

definition on_memory :: "('d \<Rightarrow> memory \<Rightarrow> 'd \<times> memory) \<Rightarrow> 'd \<times> machine \<Rightarrow> 'd \<times> machine" where
  "on_memory f st = (let (e, m) = f (fst st) (mem (hw (snd st))) in (e, (snd st)\<lparr>hw := (hw (snd st))\<lparr>mem := m\<rparr>\<rparr>))"

fun perform :: "'d sdk \<Rightarrow> env \<Rightarrow> ita_call \<Rightarrow> 'd \<times> machine \<Rightarrow> ('d \<times> machine) option" where
  "perform q env (Dma_start dst src n) st = Some (on_memory (dma_start_1d q dst src (of_nat n)) st)"
| "perform q env Dma_wait st = Some (on_memory (dma_wait_all q) st)"
| "perform q env (Set_addresses ia wa wn ba oa) (e, s) = Some (e, ita_set_addresses env ia wa wn ba oa s)"
| "perform q env (Set_flags f) (e, s) = Some (e, ita_set_flags env f s)"
| "perform q env Wait_job (e, s) = (case ita_wait_job env s of None \<Rightarrow> None | Some s \<Rightarrow> Some (e, s))"
| "perform q env Trigger (e, s) = Some (e, ita_trigger env s)"

text \<open>A run, with a record of every job: the call that set its addresses, and the state in which it is
  triggered.\<close>

primrec run_layer :: "'d sdk \<Rightarrow> env \<Rightarrow> ita_call list \<Rightarrow> ita_call \<Rightarrow> 'd \<times> machine
    \<Rightarrow> ((ita_call \<times> 'd \<times> machine) list \<times> ita_call \<times> 'd \<times> machine) option" where
  "run_layer q env [] prog st = Some ([], prog, st)"
| "run_layer q env (c # cs) prog st = (case perform q env c st of
     None \<Rightarrow> None
   | Some st1 \<Rightarrow> (case run_layer q env cs (case c of Set_addresses _ _ _ _ _ \<Rightarrow> c | _ \<Rightarrow> prog) st1 of
       None \<Rightarrow> None
     | Some (jobs, r) \<Rightarrow> Some (if c = Trigger then (prog, st) # jobs else jobs, r)))"

end
