(* ===== verification/ItaMatmul.thy ===== *)
theory ItaMatmul
  imports Ita
begin

section \<open>The matrix products of the ITA accelerator\<close>

text \<open>
  The two products of \<open>Ita\<close> as sequences of jobs, and what holds when a job is triggered. Main memory
  and L1 are areas that are apart (\<open>L2_layout\<close>); a job's calls split at the wait for the DMA
  engine; the invariant \<open>L2_inv\<close> holds between jobs: which copies are pending, that the inputs are
  as at the start, and that a bias that stays is in place. The engine is any that meets
  \<open>dma_async\<close>, the accelerator any that finishes its jobs and writes none of the operands
  (\<open>quiet_on\<close>).
\<close>

subsection \<open>The loops as one sequence of jobs\<close>

text \<open>Job \<open>t\<close> belongs to output tile \<open>t div n_emb d\<close>.\<close>

definition L2_iter :: "dims \<Rightarrow> operands \<Rightarrow> nat \<Rightarrow> ita_call list" where
  "L2_iter d p t =
     (let u = t div n_emb d; k = t mod n_emb d; i = u div n_proj d; j = u mod n_proj d
      in (if k = 0 then [L2_bias d p j] else []) @ L2_job d p i j k (t mod 2))"

definition jobs :: "dims \<Rightarrow> nat" where
  "jobs d = n_seq d * n_proj d * n_emb d"

lemma flip_parity: "1 - t mod 2 = Suc t mod 2"
  by presburger

lemma tile_index: "(r :: nat) < n \<Longrightarrow> (u * n + r) div n = u \<and> (u * n + r) mod n = r"
  by simp

lemma upt_join: "a \<le> b \<Longrightarrow> b \<le> c \<Longrightarrow> [a..<c] = [a..<b] @ [b..<c]"
  by (metis le_Suc_ex upt_add_eq_append)

lemma L2_tile_flat:
  fixes i :: nat
  assumes "0 < n_emb d" and "j < n_proj d"
  defines "u \<equiv> i * n_proj d + j"
  shows "L2_tile d p i j (cs, u * n_emb d mod 2) =
    (cs @ concat (map (L2_iter d p) [u * n_emb d..<Suc u * n_emb d]), Suc u * n_emb d mod 2)"
proof -
  let ?step = "\<lambda>k (cs, b). (cs @ L2_job d p i j k b, 1 - b)"
  have idx: "u div n_proj d = i" "u mod n_proj d = j" using assms(2) by (simp_all add: u_def)
  have "fold ?step [0..<Suc n] (cs @ [L2_bias d p j], u * n_emb d mod 2) =
      (cs @ concat (map (L2_iter d p) [u * n_emb d..<u * n_emb d + Suc n]), (u * n_emb d + Suc n) mod 2)"
    if "Suc n \<le> n_emb d" for n
    using that
  proof (induction n)
    case 0
    then show ?case using assms(1) by (simp add: L2_iter_def idx flip_parity [simplified])
  next
    case (Suc n)
    have "(u * n_emb d + Suc n) div n_emb d = u" "(u * n_emb d + Suc n) mod n_emb d = Suc n"
      using Suc.prems tile_index [of "Suc n" "n_emb d" u] by simp_all
    then have "L2_iter d p (u * n_emb d + Suc n) = L2_job d p i j (Suc n) ((u * n_emb d + Suc n) mod 2)"
      by (simp add: L2_iter_def idx)
    with Suc show ?case by (simp add: flip_parity del: upt_Suc) (simp add: flip_parity [simplified])
  qed
  from this [of "n_emb d - 1"] show ?thesis
    using assms(1) by (simp add: L2_tile_def add.commute)
qed

lemma L2_row_flat:
  assumes "0 < n_emb d" and "0 < n_proj d"
  shows "L2_row d p i (cs, i * n_proj d * n_emb d mod 2) =
    (cs @ concat (map (L2_iter d p) [i * n_proj d * n_emb d..<Suc i * n_proj d * n_emb d]), Suc i * n_proj d * n_emb d mod 2)"
proof -
  have "fold (L2_tile d p i) [0..<n] (cs, i * n_proj d * n_emb d mod 2) =
      (cs @ concat (map (L2_iter d p) [i * n_proj d * n_emb d..<(i * n_proj d + n) * n_emb d]), (i * n_proj d + n) * n_emb d mod 2)"
    if "n \<le> n_proj d" for n
    using that
  proof (induction n)
    case (Suc n)
    have "[i * n_proj d * n_emb d..<(i * n_proj d + Suc n) * n_emb d] =
      [i * n_proj d * n_emb d..<(i * n_proj d + n) * n_emb d] @ [(i * n_proj d + n) * n_emb d..<(i * n_proj d + Suc n) * n_emb d]"
      by (rule upt_join) (simp_all add: algebra_simps)
    with Suc L2_tile_flat [OF assms(1), of n p i] show ?case by simp
  qed simp
  from this [of "n_proj d"] show ?thesis by (simp add: L2_row_def add.commute)
qed

lemma matmul_L2_flat:
  assumes "0 < n_emb d" and "0 < n_proj d"
  shows "ita_compute_matmul_L2 d p =
    Dma_start (pick (b_l1 p) 0) (b_l2 p) (size_b d) # concat (map (L2_iter d p) [0..<jobs d])"
proof -
  have "fold (L2_row d p) [0..<n] (cs, 0) =
      (cs @ concat (map (L2_iter d p) [0..<n * n_proj d * n_emb d]), n * n_proj d * n_emb d mod 2)" for n cs
  proof (induction n)
    case (Suc n)
    have "[0..<Suc n * n_proj d * n_emb d] =
      [0..<n * n_proj d * n_emb d] @ [n * n_proj d * n_emb d..<Suc n * n_proj d * n_emb d]"
      by (rule upt_join) (simp_all add: algebra_simps)
    with Suc L2_row_flat [OF assms, of p n] show ?case by simp
  qed simp
  from this [of "n_seq d"] show ?thesis
    by (simp add: ita_compute_matmul_L2_def jobs_def)
qed

text \<open>The tiles job \<open>t\<close> needs, and its calls before and after the wait for the DMA engine.\<close>

definition a_tile :: "dims \<Rightarrow> nat \<Rightarrow> nat" where
  "a_tile d t = t div n_emb d div n_proj d * n_emb d + t mod n_emb d"

definition bias_tile :: "dims \<Rightarrow> nat \<Rightarrow> nat" where
  "bias_tile d t = t div n_emb d mod n_proj d"

definition b_tile :: "dims \<Rightarrow> nat \<Rightarrow> nat" where
  "b_tile d t = bias_tile d t * n_emb d + t mod n_emb d"

definition L2_addresses :: "dims \<Rightarrow> operands \<Rightarrow> nat \<Rightarrow> ita_call" where
  "L2_addresses d p t = Set_addresses (pick (a_l1 p) (t mod 2)) (pick (b_l1 p) (t mod 2)) (pick (b_l1 p) (Suc t mod 2))
     (bias_l1 p) (pick (out_l1 p) (t div n_emb d mod 2))"

definition L2_flags :: "dims \<Rightarrow> nat \<Rightarrow> ita_call" where
  "L2_flags d t = Set_flags (ITA_FLAGS (flag (t = 0)) (flag (Suc t < jobs d)) 0 0 (if Suc t mod n_emb d = 0 then 0 else 1))"

definition L2_pre :: "dims \<Rightarrow> operands \<Rightarrow> nat \<Rightarrow> ita_call list" where
  "L2_pre d p t = (if t mod n_emb d = 0 then [L2_bias d p (bias_tile d t)] else [])
     @ [Dma_start (pick (a_l1 p) (t mod 2)) (a_l2 p + of_nat (a_tile d t * size_a d)) (size_a d), L2_addresses d p t, L2_flags d t]"

definition fetch_b :: "dims \<Rightarrow> operands \<Rightarrow> nat \<Rightarrow> ita_call" where
  "fetch_b d p t = Dma_start (pick (b_l1 p) (t mod 2)) (b_l2 p + of_nat (b_tile d t * size_b d)) (size_b d)"

definition write_back :: "dims \<Rightarrow> operands \<Rightarrow> nat \<Rightarrow> ita_call" where
  "write_back d p u = Dma_start (out_l2 p + of_nat (u * size_out d)) (pick (out_l1 p) (u mod 2)) (size_out d)"

definition L2_post :: "dims \<Rightarrow> operands \<Rightarrow> nat \<Rightarrow> ita_call list" where
  "L2_post d p t = (if t \<noteq> 0 then [Wait_job] else []) @ (if Suc t < jobs d then [fetch_b d p (Suc t)] else [])
     @ [Trigger] @ (if t \<noteq> 0 \<and> t mod n_emb d = 0 then [write_back d p (t div n_emb d - 1)] else [])"

lemma next_tile:
  assumes "k < NK" and "j < (NJ :: nat)"
  shows "(if k = NK - 1 then if j = NJ - 1 then 0 else j + 1 else j) * NK + (if k = NK - 1 then 0 else k + 1)
    = Suc (j * NK + k) mod (NJ * NK)"
proof (cases "j = NJ - 1 \<and> k = NK - 1")
  case True
  then have "Suc (j * NK + k) = NJ * NK" using assms by (cases NJ; cases NK) auto
  with True show ?thesis by simp
next
  case False
  have "Suc (j * NK + k) < NJ * NK"
  proof (cases "k = NK - 1")
    case True
    with False assms have "Suc j < NJ" "Suc k = NK" by auto
    then have "Suc (j * NK + k) = Suc j * NK" by simp
    moreover have "Suc j * NK < NJ * NK" using \<open>Suc j < NJ\<close> assms(1) by (intro mult_strict_right_mono) auto
    ultimately show ?thesis by simp
  next
    case False
    then have "Suc (j * NK + k) < Suc j * NK" using assms(1) by simp
    also have "\<dots> \<le> NJ * NK" using assms(2) by (intro mult_le_mono1) simp
    finally show ?thesis .
  qed
  with False assms show ?thesis by (auto simp: algebra_simps)
qed

lemma tile_coords:
  assumes "0 < n_emb d" and "0 < n_proj d"
  shows "t = (t div n_emb d div n_proj d * n_proj d + bias_tile d t) * n_emb d + t mod n_emb d"
    and "b_tile d t = t mod (n_proj d * n_emb d)"
    and "bias_tile d t < n_proj d" and "t mod n_emb d < n_emb d"
proof -
  show "t = (t div n_emb d div n_proj d * n_proj d + bias_tile d t) * n_emb d + t mod n_emb d"
    by (simp add: bias_tile_def)
  show "b_tile d t = t mod (n_proj d * n_emb d)"
    by (simp add: b_tile_def bias_tile_def mod_mult2_eq mult.commute [of "n_proj d"] ac_simps)
  show "bias_tile d t < n_proj d" "t mod n_emb d < n_emb d" using assms by (simp_all add: bias_tile_def)
qed

lemma last_job:
  assumes "0 < n_emb d" and "0 < n_proj d" and "t < jobs d"
  shows "(t div n_emb d div n_proj d = n_seq d - 1 \<and> bias_tile d t = n_proj d - 1 \<and> t mod n_emb d = n_emb d - 1) \<longleftrightarrow> Suc t = jobs d"
    and "(t div n_emb d div n_proj d = 0 \<and> bias_tile d t = 0 \<and> t mod n_emb d = 0) \<longleftrightarrow> t = 0"
proof -
  let ?i = "t div n_emb d div n_proj d"
  have seq: "0 < n_seq d" using assms(3) by (cases "n_seq d") (auto simp: jobs_def)
  note c = tile_coords [OF assms(1,2), of t]
  show "(?i = n_seq d - 1 \<and> bias_tile d t = n_proj d - 1 \<and> t mod n_emb d = n_emb d - 1) \<longleftrightarrow> Suc t = jobs d"
  proof
    assume *: "?i = n_seq d - 1 \<and> bias_tile d t = n_proj d - 1 \<and> t mod n_emb d = n_emb d - 1"
    have "Suc t = Suc (((n_seq d - 1) * n_proj d + (n_proj d - 1)) * n_emb d + (n_emb d - 1))"
      using c(1) * by simp
    also have "\<dots> = jobs d"
      using assms(1,2) seq by (cases "n_seq d"; cases "n_proj d"; cases "n_emb d") (simp_all add: jobs_def algebra_simps)
    finally show "Suc t = jobs d" .
  next
    assume "Suc t = jobs d"
    then have t: "t = (n_seq d * n_proj d - 1) * n_emb d + (n_emb d - 1)"
      using assms(1,2) seq by (cases "n_seq d"; cases "n_proj d"; cases "n_emb d") (auto simp: jobs_def algebra_simps)
    have u: "t div n_emb d = n_seq d * n_proj d - 1" "t mod n_emb d = n_emb d - 1"
      using tile_index [of "n_emb d - 1" "n_emb d" "n_seq d * n_proj d - 1"] assms(1) by (simp_all add: t)
    have "n_seq d * n_proj d - 1 = (n_seq d - 1) * n_proj d + (n_proj d - 1)"
      using assms(2) seq by (cases "n_seq d"; cases "n_proj d") simp_all
    then show "?i = n_seq d - 1 \<and> bias_tile d t = n_proj d - 1 \<and> t mod n_emb d = n_emb d - 1"
      using u tile_index [of "n_proj d - 1" "n_proj d" "n_seq d - 1"] assms(2) by (simp add: bias_tile_def)
  qed
  show "(?i = 0 \<and> bias_tile d t = 0 \<and> t mod n_emb d = 0) \<longleftrightarrow> t = 0"
  proof
    assume *: "?i = 0 \<and> bias_tile d t = 0 \<and> t mod n_emb d = 0"
    then have "t div n_emb d = 0"
      using div_mult_mod_eq [of "t div n_emb d" "n_proj d"] by (simp add: bias_tile_def)
    with * show "t = 0" using div_mult_mod_eq [of t "n_emb d"] by simp
  qed (simp add: bias_tile_def)
qed

lemma L2_iter_split:
  assumes "0 < n_emb d" and "0 < n_proj d" and "t < jobs d"
  shows "L2_iter d p t = L2_pre d p t @ Dma_wait # L2_post d p t"
proof -
  define i j k where "i = t div n_emb d div n_proj d" and "j = bias_tile d t" and "k = t mod n_emb d"
  have jk: "j < n_proj d" "k < n_emb d" using tile_coords(3,4) [OF assms(1,2), of t] by (simp_all add: j_def k_def)
  have u: "i * n_proj d + j = t div n_emb d" by (simp add: i_def j_def bias_tile_def)
  have t: "t = t div n_emb d * n_emb d + k" by (simp add: k_def)
  have first: "(i = 0 \<and> j = 0 \<and> k = 0) \<longleftrightarrow> t = 0" and last: "(i = n_seq d - 1 \<and> j = n_proj d - 1 \<and> k = n_emb d - 1) \<longleftrightarrow> Suc t = jobs d"
    using last_job [OF assms] by (simp_all add: i_def j_def k_def)
  have more: "Suc t \<noteq> jobs d \<longleftrightarrow> Suc t < jobs d" using assms(3) by auto
  have next_b: "(if k = n_emb d - 1 then if j = n_proj d - 1 then 0 else j + 1 else j) * n_emb d + (if k = n_emb d - 1 then 0 else k + 1)
      = b_tile d (Suc t)"
    using next_tile [OF jk(2,1)] tile_coords(2) [OF assms(1,2), of t] tile_coords(2) [OF assms(1,2), of "Suc t"]
    by (simp add: b_tile_def mod_Suc_eq flip: j_def k_def)
  have last_k: "k = n_emb d - 1 \<longleftrightarrow> Suc t mod n_emb d = 0"
    using assms(1) jk(2) by (simp add: k_def mod_Suc) linarith
  have fl: "(if k = n_emb d - 1 then 0 else 1 :: u32) = (if Suc t mod n_emb d = 0 then 0 else 1)"
    by (simp only: last_k)
  have start: "k = 0 \<and> (i \<noteq> 0 \<or> j \<noteq> 0) \<longleftrightarrow> t \<noteq> 0 \<and> t mod n_emb d = 0"
    using first by (auto simp: k_def)
  have prev: "(if j = 0 then i - 1 else i) * n_proj d + (if j = 0 then n_proj d - 1 else j - 1) = t div n_emb d - 1"
    if "t \<noteq> 0 \<and> t mod n_emb d = 0"
    using that start u jk(1) assms(2) by (cases i) (auto simp: algebra_simps)
  have "L2_iter d p t = (if k = 0 then [L2_bias d p j] else []) @ L2_job d p i j k (t mod 2)"
    by (simp add: L2_iter_def Let_def i_def j_def k_def bias_tile_def)
  also have "\<dots> = L2_pre d p t @ Dma_wait # L2_post d p t"
    unfolding L2_job_def Let_def
    using prev
    by (simp only: first last next_b fl flip_parity u start more)
      (simp add: L2_pre_def L2_post_def L2_addresses_def L2_flags_def fetch_b_def write_back_def a_tile_def
        flip: i_def j_def k_def)
  finally show ?thesis .
qed

subsection \<open>Memory areas\<close>

definition a_buf :: "dims \<Rightarrow> operands \<Rightarrow> nat \<Rightarrow> addr set" where
  "a_buf d p t = block (pick (a_l1 p) (t mod 2)) (size_a d)"

definition b_buf :: "dims \<Rightarrow> operands \<Rightarrow> nat \<Rightarrow> addr set" where
  "b_buf d p t = block (pick (b_l1 p) (t mod 2)) (size_b d)"

definition bias_buf :: "dims \<Rightarrow> operands \<Rightarrow> addr set" where
  "bias_buf d p = block (bias_l1 p) (size_bias d)"

definition out_area :: "dims \<Rightarrow> operands \<Rightarrow> addr set" where
  "out_area d p = block (out_l2 p) (n_seq d * n_proj d * size_out d)"

definition inputs :: "dims \<Rightarrow> operands \<Rightarrow> addr set" where
  "inputs d p = block (a_l2 p) (n_seq d * n_emb d * size_a d) \<union> block (b_l2 p) (n_proj d * n_emb d * size_b d)
     \<union> block (bias_l2 p) (n_proj d * size_bias d)"

definition out_buf :: "dims \<Rightarrow> operands \<Rightarrow> nat \<Rightarrow> addr set" where
  "out_buf d p u = block (pick (out_l1 p) (u mod 2)) (size_out d)"

text \<open>Everything the DMA engine writes is apart, and apart from everything it reads; the accelerator's
  registers are elsewhere.\<close>

definition L2_layout :: "dims \<Rightarrow> operands \<Rightarrow> bool" where
  "L2_layout d p \<longleftrightarrow>
     size_a d < 2 ^ 32 \<and> size_b d < 2 ^ 32 \<and> size_bias d < 2 ^ 32 \<and> size_out d < 2 ^ 32 \<and>
     sorted_wrt (\<lambda>X Y. X \<inter> Y = {}) [a_buf d p 0, a_buf d p 1, b_buf d p 0, b_buf d p 1, bias_buf d p, out_area d p] \<and>
     (\<forall>S\<in>{inputs d p, out_buf d p 0, out_buf d p 1, block CLUSTER_4_HWPE_ITA_BASE_ADDR 0x60}.
        \<forall>D\<in>{a_buf d p 0, a_buf d p 1, b_buf d p 0, b_buf d p 1, bias_buf d p, out_area d p}. S \<inter> D = {}) \<and>
     inputs d p \<inter> block CLUSTER_4_HWPE_ITA_BASE_ADDR 0x60 = {}"

lemma buf_cases:
  "a_buf d p t = a_buf d p 0 \<or> a_buf d p t = a_buf d p 1"
  "b_buf d p t = b_buf d p 0 \<or> b_buf d p t = b_buf d p 1"
  "out_buf d p t = out_buf d p 0 \<or> out_buf d p t = out_buf d p 1"
  by (cases "t mod 2 = 0"; simp add: a_buf_def b_buf_def out_buf_def pick_def)+

lemma layout_apart:
  assumes "L2_layout d p"
  shows "a_buf d p t \<inter> b_buf d p u = {}" "a_buf d p t \<inter> bias_buf d p = {}" "a_buf d p t \<inter> out_area d p = {}"
    "b_buf d p t \<inter> bias_buf d p = {}" "b_buf d p t \<inter> out_area d p = {}" "bias_buf d p \<inter> out_area d p = {}"
    "b_buf d p t \<inter> b_buf d p (Suc t) = {}"
proof -
  note lay = assms [unfolded L2_layout_def]
  have ab: "\<forall>x\<in>{a_buf d p 0, a_buf d p 1}. \<forall>y\<in>{b_buf d p 0, b_buf d p 1, bias_buf d p, out_area d p}. x \<inter> y = {}"
    and b: "\<forall>x\<in>{b_buf d p 0, b_buf d p 1}. \<forall>y\<in>{bias_buf d p, out_area d p}. x \<inter> y = {}"
    and bb: "b_buf d p 0 \<inter> b_buf d p 1 = {}" and bo: "bias_buf d p \<inter> out_area d p = {}"
    using lay by simp_all
  show "a_buf d p t \<inter> b_buf d p u = {}" "a_buf d p t \<inter> bias_buf d p = {}" "a_buf d p t \<inter> out_area d p = {}"
    using ab buf_cases(1) [of d p t] buf_cases(2) [of d p u] by (elim disjE; simp)+
  show "b_buf d p t \<inter> bias_buf d p = {}" "b_buf d p t \<inter> out_area d p = {}"
    using b buf_cases(2) [of d p t] by (elim disjE; simp)+
  show "bias_buf d p \<inter> out_area d p = {}" by (rule bo)
  have "t mod 2 = 0 \<and> Suc t mod 2 = 1 \<or> t mod 2 = 1 \<and> Suc t mod 2 = 0" by presburger
  then show "b_buf d p t \<inter> b_buf d p (Suc t) = {}"
    using bb by (auto simp: b_buf_def Int_commute)
qed

lemma layout_sources:
  assumes "L2_layout d p" and "S \<in> {inputs d p, out_buf d p u, block CLUSTER_4_HWPE_ITA_BASE_ADDR 0x60}"
  shows "S \<inter> a_buf d p t = {}" "S \<inter> b_buf d p t = {}" "S \<inter> bias_buf d p = {}" "S \<inter> out_area d p = {}"
proof -
  have src: "\<forall>S\<in>{inputs d p, out_buf d p 0, out_buf d p 1, block CLUSTER_4_HWPE_ITA_BASE_ADDR 0x60}.
      \<forall>D\<in>{a_buf d p 0, a_buf d p 1, b_buf d p 0, b_buf d p 1, bias_buf d p, out_area d p}. S \<inter> D = {}"
    using assms(1) unfolding L2_layout_def by blast
  have S: "S \<in> {inputs d p, out_buf d p 0, out_buf d p 1, block CLUSTER_4_HWPE_ITA_BASE_ADDR 0x60}"
    using assms(2) buf_cases(3) [of d p u] by auto
  note D = bspec [OF src S]
  show "S \<inter> a_buf d p t = {}" "S \<inter> b_buf d p t = {}"
    using D buf_cases(1,2) [of d p t] by (elim disjE; simp)+
  show "S \<inter> bias_buf d p = {}" "S \<inter> out_area d p = {}"
    using D by simp_all
qed

text \<open>The copies a list of calls starts.\<close>

fun dmas :: "ita_call list \<Rightarrow> transfers" where
  "dmas [] = []"
| "dmas (Dma_start dst src n # cs) = (dst, src, of_nat n) # dmas cs"
| "dmas (_ # cs) = dmas cs"

lemma dmas_append [simp]: "dmas (xs @ ys) = dmas xs @ dmas ys"
  by (induction xs rule: dmas.induct) simp_all

lemma dests_simps [simp]:
  "dests [] = {}" "dests (t # ts) = dst_block t \<union> dests ts" "dests (ts @ us) = dests ts \<union> dests us"
  by (auto simp: dests_def)

lemma sized_blocks:
  assumes "n < 2 ^ 32"
  shows "dst_block (dst, src, of_nat n) = block dst n" and "src_block (dst, src, of_nat n) = block src n"
  using assms by (simp_all add: dst_block_def src_block_def unat_of_nat)

lemma jobs_bounds:
  assumes "0 < n_emb d" and "0 < n_proj d" and "t < jobs d"
  shows "a_tile d t < n_seq d * n_emb d" and "b_tile d t < n_proj d * n_emb d" and "bias_tile d t < n_proj d"
    and "t div n_emb d < n_seq d * n_proj d"
proof -
  show u: "t div n_emb d < n_seq d * n_proj d"
    using assms by (simp add: jobs_def less_mult_imp_div_less)
  show "bias_tile d t < n_proj d" using assms by (simp add: bias_tile_def)
  have i: "t div n_emb d div n_proj d < n_seq d" using u by (simp add: less_mult_imp_div_less)
  have "a_tile d t < Suc (t div n_emb d div n_proj d) * n_emb d"
    using assms(1) by (simp add: a_tile_def)
  also have "\<dots> \<le> n_seq d * n_emb d" using i by (intro mult_le_mono1) simp
  finally show "a_tile d t < n_seq d * n_emb d" .
  show "b_tile d t < n_proj d * n_emb d"
    using assms by (simp add: tile_coords(2))
qed

lemma tile_block: "u < n \<Longrightarrow> block (a + of_nat (u * sz)) sz \<subseteq> block a (n * sz)"
  by (rule block_offset) (use mult_le_mono1 [of "Suc u" n sz] in simp)

lemma call_blocks:
  assumes "L2_layout d p" and "0 < n_emb d" and "0 < n_proj d" and "t < jobs d"
  shows "\<exists>x. dmas [fetch_b d p t] = [x] \<and> dst_block x = b_buf d p t \<and> src_block x \<subseteq> inputs d p"
    and "\<exists>x. dmas [L2_bias d p (bias_tile d t)] = [x] \<and> dst_block x = bias_buf d p \<and> src_block x \<subseteq> inputs d p"
    and "\<exists>x. dmas [Dma_start (pick (a_l1 p) (t mod 2)) (a_l2 p + of_nat (a_tile d t * size_a d)) (size_a d)] = [x]
      \<and> dst_block x = a_buf d p t \<and> src_block x \<subseteq> inputs d p"
    and "\<exists>x. dmas [write_back d p (t div n_emb d - 1)] = [x] \<and> dst_block x \<subseteq> out_area d p
      \<and> src_block x = out_buf d p (t div n_emb d - 1)"
proof -
  note lay = assms(1) [unfolded L2_layout_def] and bnd = jobs_bounds [OF assms(2-4)]
  show "\<exists>x. dmas [fetch_b d p t] = [x] \<and> dst_block x = b_buf d p t \<and> src_block x \<subseteq> inputs d p"
    using lay tile_block [OF bnd(2), of "b_l2 p" "size_b d"]
    by (auto simp: fetch_b_def sized_blocks b_buf_def inputs_def simp del: of_nat_mult)
  show "\<exists>x. dmas [L2_bias d p (bias_tile d t)] = [x] \<and> dst_block x = bias_buf d p \<and> src_block x \<subseteq> inputs d p"
    using lay tile_block [OF bnd(3), of "bias_l2 p" "size_bias d"]
    by (auto simp: L2_bias_def sized_blocks bias_buf_def inputs_def size_bias_def mult.assoc simp del: of_nat_mult)
  show "\<exists>x. dmas [Dma_start (pick (a_l1 p) (t mod 2)) (a_l2 p + of_nat (a_tile d t * size_a d)) (size_a d)] = [x]
      \<and> dst_block x = a_buf d p t \<and> src_block x \<subseteq> inputs d p"
    using lay tile_block [OF bnd(1), of "a_l2 p" "size_a d"]
    by (auto simp: sized_blocks a_buf_def inputs_def simp del: of_nat_mult)
  have "t div n_emb d - 1 < n_seq d * n_proj d" using bnd(4) by simp
  from tile_block [OF this, of "out_l2 p" "size_out d"]
  show "\<exists>x. dmas [write_back d p (t div n_emb d - 1)] = [x] \<and> dst_block x \<subseteq> out_area d p
      \<and> src_block x = out_buf d p (t div n_emb d - 1)"
    using lay by (auto simp: write_back_def sized_blocks out_buf_def out_area_def simp del: of_nat_mult)
qed

lemma independent_areas:
  assumes "list_all2 (\<lambda>t D. dst_block t \<subseteq> D) ts Ds" and "sorted_wrt (\<lambda>X Y. X \<inter> Y = {}) Ds"
    and "\<forall>t\<in>set ts. \<forall>D\<in>set Ds. src_block t \<inter> D = {}"
  shows "independent ts"
  using assms
proof (induction rule: list_all2_induct)
  case (Cons t ts D Ds)
  have dst: "\<exists>E\<in>set Ds. dst_block u \<subseteq> E" if "u \<in> set ts" for u
    using Cons.hyps(2) that by (auto simp: list_all2_conv_all_nth in_set_conv_nth intro!: bexI [OF _ nth_mem])
  have "independent ts" using Cons by simp
  moreover have "src_block t \<inter> dst_block t = {}" using Cons.hyps(1) Cons.prems(2) by auto
  moreover have "src_block t \<inter> dst_block u = {}" "dst_block t \<inter> dst_block u = {}" "src_block u \<inter> dst_block t = {}"
    if "u \<in> set ts" for u
    using dst [OF that] that Cons.hyps(1) Cons.prems by fastforce+
  ultimately show ?case unfolding independent_Cons dests_def by blast
qed (simp add: independent_def)

subsection \<open>Running calls\<close>

lemma run_layer_append:
  "run_layer q env (xs @ ys) prog st = (case run_layer q env xs prog st of
     None \<Rightarrow> None
   | Some (js, prog1, st1) \<Rightarrow> (case run_layer q env ys prog1 st1 of
       None \<Rightarrow> None
     | Some (ks, r) \<Rightarrow> Some (js @ ks, r)))"
proof (induction xs arbitrary: prog st)
  case Nil
  then show ?case by (auto split: option.splits)
next
  case (Cons c xs)
  show ?case
  proof (cases "perform q env c st")
    case (Some st1)
    then show ?thesis by (auto simp: Cons split: option.splits)
  qed simp
qed

text \<open>What a run needs of its environment: the accelerator becomes idle again after every job, and the
  hardware writes no memory of \<open>K\<close> on its own; the registers lie outside \<open>K\<close>.\<close>

definition quiet_on :: "env \<Rightarrow> addr set \<Rightarrow> bool" where
  "quiet_on env K \<longleftrightarrow> (\<forall>s. ita_wait_job env s \<noteq> None) \<and> env_keeps env K \<and> K \<inter> block CLUSTER_4_HWPE_ITA_BASE_ADDR 0x60 = {}"

lemma outside_reg:
  assumes "x \<notin> block A 0x60" and "off \<le> 0x5C"
  shows "4 \<le> x - (A + of_nat off)"
proof (rule ccontr)
  assume "\<not> 4 \<le> x - (A + of_nat off)"
  then have "unat (x - (A + of_nat off)) < 4" by (simp add: word_le_nat_alt)
  moreover have "x = A + of_nat (off + unat (x - (A + of_nat off)))" by simp
  ultimately show False using assms block_in [of "off + unat (x - (A + of_nat off))" "0x60" A] by auto
qed

lemma ita_wr_keeps:
  assumes "quiet_on env K" and "x \<in> K" and "off \<le> 0x5C"
  shows "mem (hw (ita_wr env (of_nat off) v s)) x = mem (hw s) x"
proof -
  have "x \<notin> block CLUSTER_4_HWPE_ITA_BASE_ADDR 0x60" using assms(1,2) by (auto simp: quiet_on_def)
  from outside_reg [OF this assms(3)] show ?thesis
    unfolding ita_wr_def by (rule keep_byte(1) [rotated 2]) (use assms(1,2) in \<open>auto simp: quiet_on_def\<close>)
qed

lemma ita_calls_keep:
  assumes "quiet_on env K" and "x \<in> K"
  shows "mem (hw (ita_set_addresses env ia wa wn ba oa s)) x = mem (hw s) x"
    and "mem (hw (ita_set_flags env f s)) x = mem (hw s) x"
    and "mem (hw (ita_trigger env s)) x = mem (hw s) x"
proof -
  note w = ita_wr_keeps [OF assms]
  note r = w [of "0x20"] w [of "0x24"] w [of "0x28"] w [of "0x2C"] w [of "0x30"]
  show "mem (hw (ita_set_addresses env ia wa wn ba oa s)) x = mem (hw s) x"
    using r by (simp add: ita_set_addresses_def ita_set_address_def Let_def)
  show "mem (hw (ita_set_flags env f s)) x = mem (hw s) x"
    using w [of "0x58"] by (simp add: ita_set_flags_def)
  show "mem (hw (ita_trigger env s)) x = mem (hw s) x"
    using w [of 0] by (simp add: ita_trigger_def)
qed

lemma hw_at_keeps: "env_keeps env K \<Longrightarrow> x \<in> K \<Longrightarrow> mem (hw_at env n h k) x = mem h x"
  by (induction k arbitrary: n h) (auto simp: env_keeps_def)

lemma wait_job_keeps:
  assumes "quiet_on env K" and "x \<in> K" and "ita_wait_job env s = Some s'"
  shows "mem (hw s') x = mem (hw s) x"
proof -
  from assms(3) obtain v where "poll32 env CLUSTER_4_HWPE_BUSY_ADDR (\<lambda>v. \<not> v \<noteq> 0) s = Some (v, s')"
    by (auto simp: ita_wait_job_def split: option.splits)
  then obtain k where "s' = reads32 env CLUSTER_4_HWPE_BUSY_ADDR (Suc k) s"
    by (auto simp only: poll32_Some_iff)
  moreover have "env_keeps env K" using assms(1) by (simp add: quiet_on_def)
  ultimately show ?thesis
    by (simp only: reads32_sel hw_at_keeps [OF _ assms(2)])
qed

lemma perform_keeps:
  assumes "dma_async q pending" and "quiet_on env K" and "c \<noteq> Dma_wait"
  shows "\<exists>e' s'. perform q env c (e, s) = Some (e', s') \<and> pending e' = pending e @ dmas [c] \<and>
    (\<forall>x\<in>K. x \<notin> dests (pending e @ dmas [c]) \<longrightarrow> mem (hw s') x = mem (hw s) x)"
proof (cases c)
  case (Dma_start dst src n)
  then show ?thesis
    using dma_asyncD(1,2) [OF assms(1)] by (simp add: on_memory_def split_beta)
next
  case Wait_job
  obtain s' where "ita_wait_job env s = Some s'" using assms(2) by (auto simp: quiet_on_def)
  with Wait_job show ?thesis using wait_job_keeps [OF assms(2)] by simp
qed (use assms(3) ita_calls_keep [OF assms(2)] in simp_all)

text \<open>The jobs of a run and the addresses set for them are those of the list of calls.\<close>

fun programmed :: "ita_call list \<Rightarrow> ita_call \<Rightarrow> ita_call list \<times> ita_call" where
  "programmed [] prog = ([], prog)"
| "programmed (c # cs) prog =
     (let (ps, r) = programmed cs (case c of Set_addresses _ _ _ _ _ \<Rightarrow> c | _ \<Rightarrow> prog) in (if c = Trigger then prog # ps else ps, r))"

lemma run_quiet:
  assumes "dma_async q pending" and "quiet_on env K" and "Dma_wait \<notin> set cs"
  shows "\<exists>js prog' e' s'. run_layer q env cs prog (e, s) = Some (js, prog', e', s') \<and>
    (map fst js, prog') = programmed cs prog \<and> pending e' = pending e @ dmas cs \<and>
    (\<forall>x\<in>K. x \<notin> dests (pending e @ dmas cs) \<longrightarrow>
      mem (hw s') x = mem (hw s) x \<and> (\<forall>j\<in>set js. mem (hw (snd (snd j))) x = mem (hw s) x))"
  using assms(3)
proof (induction cs arbitrary: prog e s)
  case (Cons c cs)
  obtain e1 s1 where p: "perform q env c (e, s) = Some (e1, s1)" "pending e1 = pending e @ dmas [c]"
    and k: "\<forall>x\<in>K. x \<notin> dests (pending e @ dmas [c]) \<longrightarrow> mem (hw s1) x = mem (hw s) x"
    using perform_keeps [OF assms(1,2), of c e s] Cons.prems by auto
  let ?prog = "case c of Set_addresses _ _ _ _ _ \<Rightarrow> c | _ \<Rightarrow> prog"
  obtain js prog' e' s' where r: "run_layer q env cs ?prog (e1, s1) = Some (js, prog', e', s')"
      "(map fst js, prog') = programmed cs ?prog" "pending e' = pending e1 @ dmas cs"
    and k': "\<forall>x\<in>K. x \<notin> dests (pending e1 @ dmas cs) \<longrightarrow>
      mem (hw s') x = mem (hw s1) x \<and> (\<forall>j\<in>set js. mem (hw (snd (snd j))) x = mem (hw s1) x)"
    using Cons.IH [of ?prog e1 s1] Cons.prems by auto
  have split: "dmas (c # cs) = dmas [c] @ dmas cs" using dmas_append [of "[c]" cs] by simp
  have run: "run_layer q env (c # cs) prog (e, s) = Some (if c = Trigger then (prog, e, s) # js else js, prog', e', s')"
    by (simp add: p(1) r(1))
  have progs: "(map fst (if c = Trigger then (prog, e, s) # js else js), prog') = programmed (c # cs) prog"
    by (simp add: r(2) [symmetric] Let_def)
  have kept: "mem (hw s') x = mem (hw s) x \<and> (\<forall>j\<in>set (if c = Trigger then (prog, e, s) # js else js). mem (hw (snd (snd j))) x = mem (hw s) x)"
    if "x \<in> K" "x \<notin> dests (pending e @ dmas (c # cs))" for x
    using that k k' by (auto simp: p(2) split)
  show ?case
    using run progs kept by (intro exI conjI) (assumption | simp add: r(3) p(2) split)+
qed simp

subsection \<open>One job\<close>

definition copied :: "memory \<Rightarrow> addr \<Rightarrow> memory \<Rightarrow> addr \<Rightarrow> nat \<Rightarrow> bool" where
  "copied m dst m0 src n \<longleftrightarrow> (\<forall>x<n. m (dst + of_nat x) = m0 (src + of_nat x))"

text \<open>The copies pending when job \<open>t\<close> starts, and those pending when it waits for them.\<close>

definition pending_at :: "dims \<Rightarrow> operands \<Rightarrow> nat \<Rightarrow> transfers" where
  "pending_at d p t = (if t = 0 then dmas [fetch_b d p 0] else dmas (L2_post d p (t - 1)))"

definition awaited :: "dims \<Rightarrow> operands \<Rightarrow> nat \<Rightarrow> transfers" where
  "awaited d p t = pending_at d p t @ dmas (L2_pre d p t)"

definition bias_src :: "dims \<Rightarrow> operands \<Rightarrow> nat \<Rightarrow> addr" where
  "bias_src d p t = bias_l2 p + of_nat (bias_tile d t * ts_proj d * 3)"

lemma awaited_split:
  assumes "t < jobs d"
  shows "\<exists>ws. awaited d p t = dmas [fetch_b d p t] @ ws @ (if t mod n_emb d = 0 then dmas [L2_bias d p (bias_tile d t)] else [])
      @ dmas [Dma_start (pick (a_l1 p) (t mod 2)) (a_l2 p + of_nat (a_tile d t * size_a d)) (size_a d)]
    \<and> (ws = [] \<or> ws = dmas [write_back d p ((t - 1) div n_emb d - 1)])"
  using assms
  by (cases t) (auto simp: awaited_def pending_at_def L2_pre_def L2_post_def L2_addresses_def L2_flags_def L2_bias_def fetch_b_def write_back_def)

lemma awaited_areas:
  assumes "L2_layout d p" and "0 < n_emb d" and "0 < n_proj d" and "t < jobs d"
  shows "independent (awaited d p t)"
    and "dests (awaited d p t) \<subseteq> a_buf d p t \<union> b_buf d p t \<union> out_area d p \<union> (if t mod n_emb d = 0 then bias_buf d p else {})"
proof -
  obtain ws where split: "awaited d p t = dmas [fetch_b d p t] @ ws @ (if t mod n_emb d = 0 then dmas [L2_bias d p (bias_tile d t)] else [])
      @ dmas [Dma_start (pick (a_l1 p) (t mod 2)) (a_l2 p + of_nat (a_tile d t * size_a d)) (size_a d)]"
    and ws: "ws = [] \<or> ws = dmas [write_back d p ((t - 1) div n_emb d - 1)]"
    using awaited_split [OF assms(4)] by blast
  obtain b a bi w where x: "dmas [fetch_b d p t] = [b]" "dst_block b = b_buf d p t" "src_block b \<subseteq> inputs d p"
    "dmas [Dma_start (pick (a_l1 p) (t mod 2)) (a_l2 p + of_nat (a_tile d t * size_a d)) (size_a d)] = [a]"
    "dst_block a = a_buf d p t" "src_block a \<subseteq> inputs d p"
    "dmas [L2_bias d p (bias_tile d t)] = [bi]" "dst_block bi = bias_buf d p" "src_block bi \<subseteq> inputs d p"
    "dmas [write_back d p ((t - 1) div n_emb d - 1)] = [w]" "dst_block w \<subseteq> out_area d p"
    "src_block w = out_buf d p ((t - 1) div n_emb d - 1)"
    using call_blocks [OF assms] call_blocks(4) [OF assms(1-3), of "t - 1"] assms(4) by (metis less_imp_diff_less)
  define Ws Bs where "Ws = (if ws = [] then [] else [out_area d p])" and "Bs = (if t mod n_emb d = 0 then [bias_buf d p] else [])"
  let ?Ds = "b_buf d p t # Ws @ Bs @ [a_buf d p t]"
  have W: "awaited d p t = b # ws @ (if t mod n_emb d = 0 then [bi] else []) @ [a]" "ws = [] \<or> ws = [w]"
    using split ws x by simp_all
  have areas: "list_all2 (\<lambda>t D. dst_block t \<subseteq> D) (awaited d p t) ?Ds"
    using W(2) x by (auto simp: W(1) Ws_def Bs_def)
  note apart = layout_apart [OF assms(1)]
  note src = layout_sources [OF assms(1)]
  have "sorted_wrt (\<lambda>X Y. X \<inter> Y = {}) ?Ds"
    using apart by (auto simp: Ws_def Bs_def Int_commute)
  moreover have "src_block u \<inter> D = {}" if "u \<in> set (awaited d p t)" "D \<in> set ?Ds" for u D
  proof -
    have "\<exists>S\<in>{inputs d p, out_buf d p ((t - 1) div n_emb d - 1)}. src_block u \<subseteq> S"
      using that(1) W x by (auto split: if_splits)
    then obtain S where S: "S \<in> {inputs d p, out_buf d p ((t - 1) div n_emb d - 1), block CLUSTER_4_HWPE_ITA_BASE_ADDR 0x60}"
      "src_block u \<subseteq> S" by blast
    have "D \<in> {a_buf d p t, b_buf d p t, bias_buf d p, out_area d p}"
      using that(2) by (auto simp: Ws_def Bs_def split: if_splits)
    then have "S \<inter> D = {}" using src(1,2) [OF S(1), of t] src(3,4) [OF S(1)] by (elim insertE emptyE) simp_all
    with S(2) show ?thesis by blast
  qed
  ultimately show "independent (awaited d p t)"
    using independent_areas [OF areas] by blast
  show "dests (awaited d p t) \<subseteq> a_buf d p t \<union> b_buf d p t \<union> out_area d p \<union> (if t mod n_emb d = 0 then bias_buf d p else {})"
    using W(2) x by (auto simp: W(1))
qed

lemma post_areas:
  assumes "L2_layout d p" and "0 < n_emb d" and "0 < n_proj d" and "t < jobs d"
  shows "dests (dmas (L2_post d p t)) \<subseteq> b_buf d p (Suc t) \<union> out_area d p"
proof -
  have "dests (dmas [fetch_b d p (Suc t)]) \<subseteq> b_buf d p (Suc t)" if "Suc t < jobs d"
    using call_blocks(1) [OF assms(1-3) that] by auto
  moreover have "dests (dmas [write_back d p (t div n_emb d - 1)]) \<subseteq> out_area d p"
    using call_blocks(4) [OF assms] by auto
  ultimately show ?thesis by (auto simp: L2_post_def)
qed

lemma programmed_parts:
  "programmed (L2_pre d p t) prog = ([], L2_addresses d p t)"
  "programmed (L2_post d p t) prog = ([prog], prog)"
  by (simp_all add: L2_pre_def L2_post_def L2_bias_def L2_addresses_def L2_flags_def fetch_b_def write_back_def Let_def)

lemma no_wait_parts: "Dma_wait \<notin> set (L2_pre d p t)" "Dma_wait \<notin> set (L2_post d p t)"
  by (simp_all add: L2_pre_def L2_post_def L2_bias_def L2_addresses_def L2_flags_def fetch_b_def write_back_def)

definition L2_memory :: "dims \<Rightarrow> operands \<Rightarrow> addr set" where
  "L2_memory d p = inputs d p \<union> a_buf d p 0 \<union> a_buf d p 1 \<union> b_buf d p 0 \<union> b_buf d p 1 \<union> bias_buf d p"

lemma L2_memory_parts: "inputs d p \<subseteq> L2_memory d p" "a_buf d p t \<subseteq> L2_memory d p" "b_buf d p t \<subseteq> L2_memory d p" "bias_buf d p \<subseteq> L2_memory d p"
  using buf_cases(1,2) [of d p t] by (auto simp: L2_memory_def)

definition operands_ready :: "dims \<Rightarrow> operands \<Rightarrow> memory \<Rightarrow> nat \<Rightarrow> memory \<Rightarrow> bool" where
  "operands_ready d p m0 t m \<longleftrightarrow>
     copied m (pick (a_l1 p) (t mod 2)) m0 (a_l2 p + of_nat (a_tile d t * size_a d)) (size_a d) \<and>
     copied m (pick (b_l1 p) (t mod 2)) m0 (b_l2 p + of_nat (b_tile d t * size_b d)) (size_b d) \<and>
     copied m (bias_l1 p) m0 (bias_src d p t) (size_bias d)"

definition L2_inv :: "('d \<Rightarrow> transfers) \<Rightarrow> dims \<Rightarrow> operands \<Rightarrow> memory \<Rightarrow> nat \<Rightarrow> 'd \<times> machine \<Rightarrow> bool" where
  "L2_inv pending d p m0 t st \<longleftrightarrow> pending (fst st) = pending_at d p t \<and>
     (\<forall>x\<in>inputs d p. mem (hw (snd st)) x = m0 x) \<and>
     (t mod n_emb d \<noteq> 0 \<longrightarrow> copied (mem (hw (snd st))) (bias_l1 p) m0 (bias_src d p t) (size_bias d))"

lemma copied_cong:
  "copied m dst m0 src n \<Longrightarrow> (\<And>x. x \<in> block dst n \<Longrightarrow> m' x = m x) \<Longrightarrow> copied m' dst m0 src n"
  by (simp add: copied_def block_in)

lemma arrival:
  assumes "dma_async q pending" and "independent (pending e)" and "set (dmas [Dma_start dst src n]) \<subseteq> set (pending e)"
    and "n < 2 ^ 32" and "block src n \<subseteq> I" and "\<forall>x\<in>I. m x = m0 x"
  shows "copied (snd (dma_wait_all q e m)) dst m0 src n"
  unfolding copied_def
proof (intro allI impI)
  fix x
  assume x: "x < n"
  have mem: "(dst, src, of_nat n) \<in> set (pending e)" using assms(3) by simp
  have "x < unat (of_nat n :: u32)" using x assms(4) by (simp add: unat_of_nat)
  from dma_asyncD(5) [OF assms(1,2) mem this] have "snd (dma_wait_all q e m) (dst + of_nat x) = m (src + of_nat x)" .
  also have "\<dots> = m0 (src + of_nat x)" using block_in [OF x, of src] assms(5,6) by blast
  finally show "snd (dma_wait_all q e m) (dst + of_nat x) = m0 (src + of_nat x)" .
qed

lemma inputs_apart:
  assumes "L2_layout d p"
  shows "inputs d p \<inter> a_buf d p u = {}" "inputs d p \<inter> b_buf d p u = {}" "inputs d p \<inter> bias_buf d p = {}" "inputs d p \<inter> out_area d p = {}"
  using layout_sources [OF assms, where S = "inputs d p"] by simp_all

text \<open>What the copies leave alone.\<close>

lemma awaited_avoids:
  assumes "L2_layout d p" and "0 < n_emb d" and "0 < n_proj d" and "t < jobs d"
  shows "x \<in> inputs d p \<Longrightarrow> x \<notin> dests (awaited d p t)"
    and "t mod n_emb d \<noteq> 0 \<Longrightarrow> x \<in> bias_buf d p \<Longrightarrow> x \<notin> dests (awaited d p t)"
proof -
  note areas = awaited_areas(2) [OF assms]
  have "inputs d p \<inter> (a_buf d p t \<union> b_buf d p t \<union> out_area d p \<union> (if t mod n_emb d = 0 then bias_buf d p else {})) = {}"
    by (simp add: Int_Un_distrib inputs_apart [OF assms(1)])
  then show "x \<in> inputs d p \<Longrightarrow> x \<notin> dests (awaited d p t)" using areas by blast
  assume "t mod n_emb d \<noteq> 0"
  then have "dests (awaited d p t) \<subseteq> a_buf d p t \<union> b_buf d p t \<union> out_area d p" using areas by simp
  moreover have "(a_buf d p t \<union> b_buf d p t \<union> out_area d p) \<inter> bias_buf d p = {}"
    using layout_apart [OF assms(1)] by (simp add: Int_Un_distrib2 Int_Un_distrib Int_commute)
  ultimately show "x \<in> bias_buf d p \<Longrightarrow> x \<notin> dests (awaited d p t)" by blast
qed

lemma post_avoids:
  assumes "L2_layout d p" and "0 < n_emb d" and "0 < n_proj d" and "t < jobs d"
    and "x \<in> a_buf d p t \<union> b_buf d p t \<union> bias_buf d p \<union> inputs d p"
  shows "x \<notin> dests (dmas (L2_post d p t))"
proof -
  have "(a_buf d p t \<union> b_buf d p t \<union> bias_buf d p \<union> inputs d p) \<inter> (b_buf d p (Suc t) \<union> out_area d p) = {}"
    using layout_apart [OF assms(1)] by (simp add: Int_Un_distrib Int_Un_distrib2 inputs_apart [OF assms(1)] Int_commute [of "bias_buf d p"])
  then show ?thesis using assms(5) post_areas [OF assms(1-4)] by blast
qed

text \<open>After the wait everything job \<open>t\<close> needs is in its buffers.\<close>

lemma ready_after_wait:
  assumes "dma_async q pending" and "L2_layout d p" and "0 < n_emb d" and "0 < n_proj d" and "t < jobs d"
    and "pending e = awaited d p t" and "\<forall>x\<in>inputs d p. m x = m0 x"
    and "t mod n_emb d \<noteq> 0 \<longrightarrow> copied m (bias_l1 p) m0 (bias_src d p t) (size_bias d)"
  defines "m' \<equiv> snd (dma_wait_all q e m)"
  shows "operands_ready d p m0 t m'" and "x \<in> inputs d p \<Longrightarrow> m' x = m0 x"
proof -
  note areas = awaited_areas [OF assms(2-5)]
  note lay = assms(2) [unfolded L2_layout_def] and bnd = jobs_bounds [OF assms(3-5)]
  have ind: "independent (pending e)" by (simp only: assms(6) areas(1))
  have kept: "m' x = m x" if "x \<notin> dests (awaited d p t)" for x
    using that dma_asyncD(4) [OF assms(1)] by (simp add: m'_def assms(6))
  obtain ws where split: "awaited d p t = dmas [fetch_b d p t] @ ws @ (if t mod n_emb d = 0 then dmas [L2_bias d p (bias_tile d t)] else [])
      @ dmas [Dma_start (pick (a_l1 p) (t mod 2)) (a_l2 p + of_nat (a_tile d t * size_a d)) (size_a d)]"
    using awaited_split [OF assms(5)] by blast
  note arr = arrival [OF assms(1) ind _ _ _ assms(7), folded m'_def]
  have "copied m' (pick (a_l1 p) (t mod 2)) m0 (a_l2 p + of_nat (a_tile d t * size_a d)) (size_a d)"
    by (rule arr) (use lay tile_block [OF bnd(1), of "a_l2 p" "size_a d"] in \<open>auto simp: assms(6) split inputs_def\<close>)
  moreover have "copied m' (pick (b_l1 p) (t mod 2)) m0 (b_l2 p + of_nat (b_tile d t * size_b d)) (size_b d)"
    by (rule arr) (use lay tile_block [OF bnd(2), of "b_l2 p" "size_b d"] in \<open>auto simp: assms(6) split inputs_def fetch_b_def\<close>)
  moreover have "copied m' (bias_l1 p) m0 (bias_src d p t) (size_bias d)"
  proof (cases "t mod n_emb d = 0")
    case True
    show ?thesis unfolding bias_src_def
      by (rule arr) (use lay True tile_block [OF bnd(3), of "bias_l2 p" "size_bias d"]
          in \<open>auto simp: assms(6) split inputs_def L2_bias_def size_bias_def mult.assoc\<close>)
  next
    case False
    have "m' x = m x" if "x \<in> block (bias_l1 p) (size_bias d)" for x
      by (rule kept, rule awaited_avoids(2) [OF assms(2-5) False]) (simp add: bias_buf_def that)
    with False assms(8) show ?thesis using copied_cong by blast
  qed
  ultimately show "operands_ready d p m0 t m'" by (simp add: operands_ready_def)
  show "m' x = m0 x" if "x \<in> inputs d p"
    using that kept [OF awaited_avoids(1) [OF assms(2-5) that]] assms(7) by simp
qed

lemma operands_ready_cong:
  assumes "operands_ready d p m0 t m" and "\<And>x. x \<in> a_buf d p t \<union> b_buf d p t \<union> bias_buf d p \<Longrightarrow> m' x = m x"
  shows "operands_ready d p m0 t m'"
  using assms unfolding operands_ready_def a_buf_def b_buf_def bias_buf_def by (auto intro: copied_cong)

text \<open>Before the wait: the calls leave the inputs alone, and a bias that stays.\<close>

lemma L2_run_pre:
  assumes "dma_async q pending" and "L2_layout d p" and "0 < n_emb d" and "0 < n_proj d" and "t < jobs d"
    and "quiet_on env (L2_memory d p)" and "L2_inv pending d p m0 t (e, s)"
  shows "\<exists>e1 s1. run_layer q env (L2_pre d p t) prog (e, s) = Some ([], L2_addresses d p t, e1, s1) \<and>
    pending e1 = awaited d p t \<and> (\<forall>x\<in>inputs d p. mem (hw s1) x = m0 x) \<and>
    (t mod n_emb d \<noteq> 0 \<longrightarrow> copied (mem (hw s1)) (bias_l1 p) m0 (bias_src d p t) (size_bias d))"
proof -
  note inv = assms(7) [unfolded L2_inv_def fst_conv snd_conv]
  note parts = L2_memory_parts [where d = d and p = p]
  obtain js e1 s1 where pre: "run_layer q env (L2_pre d p t) prog (e, s) = Some (js, L2_addresses d p t, e1, s1)" "js = []"
      "pending e1 = awaited d p t"
    and kept: "\<forall>x\<in>L2_memory d p. x \<notin> dests (awaited d p t) \<longrightarrow> mem (hw s1) x = mem (hw s) x"
    using run_quiet [OF assms(1,6) no_wait_parts(1), of d p t prog e s] inv by (auto simp: programmed_parts awaited_def)
  have "\<forall>x\<in>inputs d p. mem (hw s1) x = m0 x"
    using kept inv awaited_avoids(1) [OF assms(2-5)] parts(1) by (simp add: subset_iff)
  moreover have "copied (mem (hw s1)) (bias_l1 p) m0 (bias_src d p t) (size_bias d)" if "t mod n_emb d \<noteq> 0"
  proof (rule copied_cong)
    show "copied (mem (hw s)) (bias_l1 p) m0 (bias_src d p t) (size_bias d)" using inv that by simp
    show "mem (hw s1) x = mem (hw s) x" if x: "x \<in> block (bias_l1 p) (size_bias d)" for x
      using x kept awaited_avoids(2) [OF assms(2-5) \<open>t mod n_emb d \<noteq> 0\<close>] parts(4) by (simp add: bias_buf_def subset_iff)
  qed
  ultimately show ?thesis using pre by blast
qed

text \<open>After the wait: the job is triggered with its operands in place.\<close>

lemma L2_run_post:
  assumes "dma_async q pending" and "L2_layout d p" and "0 < n_emb d" and "0 < n_proj d" and "t < jobs d"
    and "quiet_on env (L2_memory d p)" and "pending e = []"
    and "operands_ready d p m0 t (mem (hw s))" and "\<forall>x\<in>inputs d p. mem (hw s) x = m0 x"
  shows "\<exists>j st'. run_layer q env (L2_post d p t) (L2_addresses d p t) (e, s) = Some ([(L2_addresses d p t, j)], L2_addresses d p t, st') \<and>
    operands_ready d p m0 t (mem (hw (snd j))) \<and> L2_inv pending d p m0 (Suc t) st'"
proof -
  note parts = L2_memory_parts [where d = d and p = p]
  obtain js e' s' where post: "run_layer q env (L2_post d p t) (L2_addresses d p t) (e, s) = Some (js, L2_addresses d p t, e', s')"
      "map fst js = [L2_addresses d p t]" "pending e' = dmas (L2_post d p t)"
    and kept: "\<forall>x\<in>L2_memory d p. x \<notin> dests (dmas (L2_post d p t)) \<longrightarrow>
      mem (hw s') x = mem (hw s) x \<and> (\<forall>j\<in>set js. mem (hw (snd (snd j))) x = mem (hw s) x)"
    using run_quiet [OF assms(1,6) no_wait_parts(2), of d p t "L2_addresses d p t" e s] assms(7)
    by (auto simp: programmed_parts)
  obtain j where j: "js = [(L2_addresses d p t, j)]" using post(2) by (cases js) auto
  have held: "mem (hw s') x = mem (hw s) x \<and> mem (hw (snd j)) x = mem (hw s) x"
    if "x \<in> a_buf d p t \<union> b_buf d p t \<union> bias_buf d p \<union> inputs d p" for x
  proof -
    have "x \<in> L2_memory d p" using that parts by blast
    with kept post_avoids [OF assms(2-5) that] j show ?thesis by simp
  qed
  have ready: "operands_ready d p m0 t (mem (hw s'))" "operands_ready d p m0 t (mem (hw (snd j)))"
    using held by (auto intro: operands_ready_cong [OF assms(8)])
  have "bias_src d p (Suc t) = bias_src d p t" if "Suc t mod n_emb d \<noteq> 0"
    using that by (simp add: bias_src_def bias_tile_def div_Suc)
  then have "L2_inv pending d p m0 (Suc t) (e', s')"
    using held assms(9) ready(1) by (simp add: L2_inv_def pending_at_def post(3) operands_ready_def)
  with post(1) ready(2) j show ?thesis by blast
qed

lemma L2_step:
  assumes "dma_async q pending" and "L2_layout d p" and "0 < n_emb d" and "0 < n_proj d" and "t < jobs d"
    and "quiet_on env (L2_memory d p)" and "L2_inv pending d p m0 t st"
  shows "\<exists>j st'. run_layer q env (L2_iter d p t) prog st = Some ([(L2_addresses d p t, j)], L2_addresses d p t, st') \<and>
    operands_ready d p m0 t (mem (hw (snd j))) \<and> L2_inv pending d p m0 (Suc t) st'"
proof -
  obtain e s where st: "st = (e, s)" by (cases st)
  obtain e1 s1 where pre: "run_layer q env (L2_pre d p t) prog (e, s) = Some ([], L2_addresses d p t, e1, s1)"
      "pending e1 = awaited d p t" "\<forall>x\<in>inputs d p. mem (hw s1) x = m0 x"
      "t mod n_emb d \<noteq> 0 \<longrightarrow> copied (mem (hw s1)) (bias_l1 p) m0 (bias_src d p t) (size_bias d)"
    using L2_run_pre [OF assms(1-6), of m0 e s prog] assms(7) st by blast
  define e2 where "e2 = fst (dma_wait_all q e1 (mem (hw s1)))"
  define s2 where "s2 = s1\<lparr>hw := (hw s1)\<lparr>mem := snd (dma_wait_all q e1 (mem (hw s1)))\<rparr>\<rparr>"
  have wait: "perform q env Dma_wait (e1, s1) = Some (e2, s2)"
    by (simp add: on_memory_def split_beta e2_def s2_def)
  have none: "pending e2 = []" by (simp add: e2_def dma_asyncD(3) [OF assms(1)])
  have arrived: "operands_ready d p m0 t (mem (hw s2))" "\<forall>x\<in>inputs d p. mem (hw s2) x = m0 x"
    using ready_after_wait [OF assms(1-5) pre(2-4)] by (simp_all add: s2_def)
  from L2_run_post [OF assms(1-6) none arrived] show ?thesis
    by (auto simp: L2_iter_split [OF assms(3-5)] run_layer_append pre(1) wait st simp del: perform.simps)
qed

lemma L2_steps:
  assumes "dma_async q pending" and "L2_layout d p" and "0 < n_emb d" and "0 < n_proj d" and "n \<le> jobs d"
    and "quiet_on env (L2_memory d p)" and "L2_inv pending d p m0 0 st"
  shows "\<exists>js prog' st'. run_layer q env (concat (map (L2_iter d p) [0..<n])) prog st = Some (js, prog', st') \<and>
    length js = n \<and> (\<forall>t<n. fst (js ! t) = L2_addresses d p t \<and> operands_ready d p m0 t (mem (hw (snd (snd (js ! t)))))) \<and>
    L2_inv pending d p m0 n st'"
  using assms(5)
proof (induction n)
  case 0
  then show ?case using assms(7) by simp
next
  case (Suc n)
  then obtain js prog' st' where IH: "run_layer q env (concat (map (L2_iter d p) [0..<n])) prog st = Some (js, prog', st')"
      "length js = n" "\<forall>t<n. fst (js ! t) = L2_addresses d p t \<and> operands_ready d p m0 t (mem (hw (snd (snd (js ! t)))))"
      "L2_inv pending d p m0 n st'" by auto
  obtain j st2 where step: "run_layer q env (L2_iter d p n) prog' st' = Some ([(L2_addresses d p n, j)], L2_addresses d p n, st2)"
      "operands_ready d p m0 n (mem (hw (snd j)))" "L2_inv pending d p m0 (Suc n) st2"
    using L2_step [OF assms(1-4) _ assms(6) IH(4), of prog'] Suc.prems by auto
  have "run_layer q env (concat (map (L2_iter d p) [0..<Suc n])) prog st = Some (js @ [(L2_addresses d p n, j)], L2_addresses d p n, st2)"
    by (simp add: run_layer_append IH(1) step(1))
  moreover have "\<forall>t<Suc n. fst ((js @ [(L2_addresses d p n, j)]) ! t) = L2_addresses d p t \<and>
      operands_ready d p m0 t (mem (hw (snd (snd ((js @ [(L2_addresses d p n, j)]) ! t)))))"
    using IH(2,3) step(2) by (auto simp: nth_append less_Suc_eq)
  ultimately show ?case using IH(2) step(3) by (intro exI conjI) (assumption | simp)+
qed

subsection \<open>Properties: matrix product from main memory\<close>

text \<open>At the trigger of a job the addresses set for it hold the operands of tiles \<open>(i, k)\<close> and
  \<open>(k, j)\<close> and the bias of column \<open>j\<close>, as main memory held them at the start.\<close>

definition job_reads :: "dims \<Rightarrow> operands \<Rightarrow> memory \<Rightarrow> nat \<Rightarrow> nat \<Rightarrow> nat \<Rightarrow> ita_call \<times> 'd \<times> machine \<Rightarrow> bool" where
  "job_reads d p m0 i j k job = (case fst job of
     Set_addresses ia wa wn ba oa \<Rightarrow> let m = mem (hw (snd (snd job))) in
       copied m ia m0 (a_l2 p + of_nat ((i * n_emb d + k) * (ts_seq d * ts_emb d))) (ts_seq d * ts_emb d) \<and>
       copied m wa m0 (b_l2 p + of_nat ((j * n_emb d + k) * (ts_proj d * ts_emb d))) (ts_proj d * ts_emb d) \<and>
       copied m ba m0 (bias_l2 p + of_nat (j * ts_proj d * 3)) (ts_proj d * 3) \<and>
       oa = pick (out_l1 p) ((i * n_proj d + j) mod 2)
   | _ \<Rightarrow> False)"

lemma job_reads_ready:
  assumes "0 < n_emb d" and "0 < n_proj d" and "j < n_proj d" and "k < n_emb d"
    and "t = (i * n_proj d + j) * n_emb d + k"
    and "fst job = L2_addresses d p t" and "operands_ready d p m0 t (mem (hw (snd (snd job))))"
  shows "job_reads d p m0 i j k job"
proof -
  have t: "t div n_emb d = i * n_proj d + j" "t mod n_emb d = k" using assms(4,5) by simp_all
  then have "a_tile d t = i * n_emb d + k" "bias_tile d t = j" "b_tile d t = j * n_emb d + k"
    using assms(3) by (simp_all add: a_tile_def bias_tile_def b_tile_def)
  with assms(6,7) t show ?thesis
    by (simp add: job_reads_def L2_addresses_def operands_ready_def bias_src_def size_a_def size_b_def size_bias_def)
qed


text \<open>A product of a 2 by 2 with a 2 by 4 matrix in tiles of 2 by 2, and an accelerator that is never busy.\<close>

definition sample_dims :: dims where
  "sample_dims = \<lparr>n_seq = 1, n_proj = 2, n_emb = 1, ts_seq = 2, ts_proj = 2, ts_emb = 2\<rparr>"

definition sample_operands :: operands where
  "sample_operands = \<lparr>a_l2 = 0x48000000, b_l2 = 0x48000100, bias_l2 = 0x48000200, out_l2 = 0x48000300,
     a_l1 = (0x40801000, 0x40801010), b_l1 = (0x40801020, 0x40801030), bias_l1 = 0x40801040,
     out_l1 = (0x40801050, 0x40801060)\<rparr>"

definition ita_idle_env :: env where
  "ita_idle_env n h = h\<lparr>mem := store32 (mem h) CLUSTER_4_HWPE_BUSY_ADDR 0\<rparr>"

lemma blocks_apart:
  "unat a + n \<le> unat b \<and> unat b + k \<le> 2 ^ 32 \<or> unat b + k \<le> unat a \<and> unat a + n \<le> 2 ^ 32 \<Longrightarrow> block a n \<inter> block b k = {}"
  using block_apart [of "unat a" n "unat b" k 0] block_apart [of "unat b" k "unat a" n 0] by (auto simp: Int_commute)

lemma sample_L2_layout: "L2_layout sample_dims sample_operands"
  by (simp add: L2_layout_def a_buf_def b_buf_def bias_buf_def out_area_def inputs_def out_buf_def pick_def
      sample_dims_def sample_operands_def size_a_def size_b_def size_bias_def size_out_def
      CLUSTER_4_HWPE_ITA_BASE_ADDR_def CLUSTER_4_BASE_def Int_Un_distrib Int_Un_distrib2 blocks_apart)

lemma idle_quiet:
  assumes "K \<inter> block CLUSTER_4_HWPE_BUSY_ADDR 4 = {}" and "K \<inter> block CLUSTER_4_HWPE_ITA_BASE_ADDR 0x60 = {}"
  shows "quiet_on ita_idle_env K"
proof -
  have "reg_at ita_idle_env s CLUSTER_4_HWPE_BUSY_ADDR 0 = 0" for s
    by (simp add: reg_at_0 ita_idle_env_def load32_store32_same)
  then have "poll32 ita_idle_env CLUSTER_4_HWPE_BUSY_ADDR (\<lambda>v. \<not> v \<noteq> 0) s \<noteq> None" for s
    unfolding poll32_None_iff by (auto intro!: exI [of _ 0])
  then have idle: "ita_wait_job ita_idle_env s \<noteq> None" for s
    by (auto simp: ita_wait_job_def split: option.splits)
  have "4 \<le> x - CLUSTER_4_HWPE_BUSY_ADDR" if "x \<in> K" for x
  proof (rule ccontr)
    assume "\<not> 4 \<le> x - CLUSTER_4_HWPE_BUSY_ADDR"
    then have "unat (x - CLUSTER_4_HWPE_BUSY_ADDR) < 4" by (simp add: word_le_nat_alt)
    then have "x \<in> block CLUSTER_4_HWPE_BUSY_ADDR 4"
      using block_in [of "unat (x - CLUSTER_4_HWPE_BUSY_ADDR)" 4 CLUSTER_4_HWPE_BUSY_ADDR] by simp
    with assms(1) that show False by blast
  qed
  then have "env_keeps ita_idle_env K"
    by (auto simp: env_keeps_def ita_idle_env_def store32_other)
  with idle assms(2) show ?thesis by (simp add: quiet_on_def)
qed

lemma sample_quiet: "quiet_on ita_idle_env (L2_memory sample_dims sample_operands)"
  by (rule idle_quiet)
    (simp_all add: L2_memory_def a_buf_def b_buf_def bias_buf_def inputs_def pick_def sample_dims_def sample_operands_def
        size_a_def size_b_def size_bias_def CLUSTER_4_HWPE_ITA_BASE_ADDR_def CLUSTER_4_HWPE_BUSY_ADDR_def
        CLUSTER_4_BASE_def Int_Un_distrib2 blocks_apart)


lemma programmed_append: "programmed (xs @ ys) prog =
  (fst (programmed xs prog) @ fst (programmed ys (snd (programmed xs prog))), snd (programmed ys (snd (programmed xs prog))))"
  by (induction xs prog rule: programmed.induct) (simp_all add: split_beta Let_def)

definition triggers :: "ita_call list \<Rightarrow> nat" where
  "triggers cs = length (filter ((=) Trigger) cs)"

lemma triggers_simps [simp]:
  "triggers [] = 0" "triggers (c # cs) = (if c = Trigger then Suc (triggers cs) else triggers cs)"
  "triggers (xs @ ys) = triggers xs + triggers ys"
  by (auto simp: triggers_def)

lemma triggers_parts: "triggers (L2_pre d p t) = 0" "triggers (L2_post d p t) = 1"
  by (simp_all add: L2_pre_def L2_post_def L2_bias_def L2_addresses_def L2_flags_def fetch_b_def write_back_def)

lemma triggers_iters:
  assumes "0 < n_emb d" and "0 < n_proj d" and "n \<le> jobs d"
  shows "triggers (concat (map (L2_iter d p) [0..<n])) = n"
  using assms(3) by (induction n) (simp_all add: L2_iter_split [OF assms(1,2)] triggers_parts)

text \<open>C26: the bias is the only operand without a second buffer: for every output tile but the first, the
  bias of the new tile is copied over the buffer that the last job of the previous tile was given, after
  that job is triggered and before anything waits for it to finish.\<close>

theorem matmul_L2_bias_overwritten:
  assumes "0 < n_emb d" and "0 < n_proj d" and "0 < u" and "u < n_seq d * n_proj d"
  shows "\<exists>before between after. ita_compute_matmul_L2 d p = before @ Trigger # between
      @ Dma_start (bias_l1 p) (bias_l2 p + of_nat (u mod n_proj d * ts_proj d * 3)) (ts_proj d * 3) # after
    \<and> length (filter ((=) Trigger) before) = u * n_emb d - 1 \<and> Wait_job \<notin> set between
    \<and> (\<exists>ia wa wn oa. snd (programmed before prog) = Set_addresses ia wa wn (bias_l1 p) oa)"
proof -
  define t where "t = u * n_emb d - 1"
  have t: "Suc t = u * n_emb d" "t < jobs d" "Suc t < jobs d"
    using assms unfolding t_def jobs_def by (simp_all add: less_imp_diff_less)
  have su: "Suc t div n_emb d = u" "Suc t mod n_emb d = 0" using assms(1) by (simp_all add: t(1))
  define W where "W = (if t \<noteq> 0 then [Wait_job] else []) @ (if Suc t < jobs d then [fetch_b d p (Suc t)] else [])"
  define wb where "wb = (if t \<noteq> 0 \<and> t mod n_emb d = 0 then [write_back d p (t div n_emb d - 1)] else [])"
  define rest where "rest = Dma_start (pick (a_l1 p) (Suc t mod 2)) (a_l2 p + of_nat (a_tile d (Suc t) * size_a d)) (size_a d)
      # L2_addresses d p (Suc t) # L2_flags d (Suc t) # Dma_wait # L2_post d p (Suc t)"
  define before where "before = Dma_start (pick (b_l1 p) 0) (b_l2 p) (size_b d) # concat (map (L2_iter d p) [0..<t]) @ L2_pre d p t @ Dma_wait # W"
  have post: "L2_post d p t = W @ Trigger # wb" by (simp add: L2_post_def W_def wb_def)
  have "[0..<jobs d] = [0..<t] @ t # Suc t # [Suc (Suc t)..<jobs d]"
    using t(2,3) upt_join [of 0 t "jobs d"] by (simp add: upt_conv_Cons)
  then have "ita_compute_matmul_L2 d p = before @ Trigger # wb @ L2_bias d p (u mod n_proj d) # rest
      @ concat (map (L2_iter d p) [Suc (Suc t)..<jobs d])"
    using su by (simp add: matmul_L2_flat [OF assms(1,2)] L2_iter_split [OF assms(1,2) t(2)] L2_iter_split [OF assms(1,2) t(3)]
        before_def rest_def post L2_pre_def [of d p "Suc t"] bias_tile_def)
  moreover have "triggers before = t"
    using triggers_iters [OF assms(1,2), of t p] t(2) by (simp add: before_def triggers_parts W_def fetch_b_def)
  moreover have "snd (programmed before prog) = L2_addresses d p t"
    by (simp add: before_def programmed_append programmed_parts W_def fetch_b_def split_beta Let_def)
  ultimately show ?thesis
    by (intro exI [of _ before] exI [of _ wb] exI [of _ "rest @ concat (map (L2_iter d p) [Suc (Suc t)..<jobs d])"])
      (simp add: L2_bias_def size_bias_def L2_addresses_def triggers_def t_def wb_def write_back_def)
qed

theorem matmul_L2_bias_overwritten_witness:
  "\<exists>before between after. ita_compute_matmul_L2 sample_dims sample_operands = before @ Trigger # between
      @ Dma_start 0x40801040 0x48000206 6 # after \<and> Wait_job \<notin> set between"
  using matmul_L2_bias_overwritten [of sample_dims 1 sample_operands Trigger]
  by (auto simp: sample_dims_def sample_operands_def)

subsection \<open>Properties: matrix product in L1\<close>

text \<open>The addresses of the weights a job uses, and of those the accelerator is to load for the next job.\<close>

fun weights :: "ita_call \<Rightarrow> u32" where
  "weights (Set_addresses ia wa wn ba oa) = wa"
| "weights _ = 0"

fun next_weights :: "ita_call \<Rightarrow> u32" where
  "next_weights (Set_addresses ia wa wn ba oa) = wn"
| "next_weights _ = 0"

lemma concat_tiles:
  assumes "0 < (n :: nat)"
  shows "concat (map (\<lambda>u. concat (map (f u) [0..<n])) [0..<m]) = concat (map (\<lambda>t. f (t div n) (t mod n)) [0..<m * n])"
proof (induction m)
  case (Suc m)
  have "[0..<Suc m * n] = [0..<m * n] @ [m * n..<m * n + n]"
    by (subst upt_join [of 0 "m * n"]) (simp_all add: add.commute)
  moreover have "map (\<lambda>t. f (t div n) (t mod n)) [m * n..<m * n + n] = map (f m) [0..<n]"
    by (rule nth_equalityI) (simp_all add: add.commute)
  ultimately show ?case using Suc by simp
qed simp

definition L1_addresses :: "dims \<Rightarrow> u32 \<Rightarrow> u32 \<Rightarrow> u32 \<Rightarrow> u32 \<Rightarrow> nat \<Rightarrow> nat \<Rightarrow> nat \<Rightarrow> ita_call" where
  "L1_addresses d input_a input_b bias output i j k = Set_addresses (input_a + of_nat ((i * n_emb d + k) * size_a d))
     (input_b + of_nat ((j * n_emb d + k) * size_b d)) (input_b + of_nat ((j * n_emb d + (k + 1) mod n_emb d) * size_b d))
     (bias + of_nat (j * ts_proj d * 3)) (output + of_nat ((i * n_proj d + j) * size_out d))"

lemma matmul_L1_programs:
  assumes "0 < n_emb d" and "0 < n_proj d"
  shows "fst (programmed (ita_compute_matmul_L1 d a b bias out) prog) =
    map (\<lambda>t. L1_addresses d a b bias out (t div n_emb d div n_proj d) (t div n_emb d mod n_proj d) (t mod n_emb d)) [0..<jobs d]"
proof -
  let ?job = "\<lambda>t. L1_job d a b bias out (t div n_emb d div n_proj d) (t div n_emb d mod n_proj d) (t mod n_emb d)"
  have "ita_compute_matmul_L1 d a b bias out = concat (map ?job [0..<jobs d])"
    unfolding ita_compute_matmul_L1_def jobs_def
    by (subst concat_tiles [OF assms(2), where f = "\<lambda>i j. concat (map (L1_job d a b bias out i j) [0..<n_emb d])"])
      (rule concat_tiles [OF assms(1), where f = "\<lambda>u. L1_job d a b bias out (u div n_proj d) (u mod n_proj d)"])
  moreover have "programmed (L1_job d a b bias out i j k) prog = ([L1_addresses d a b bias out i j k], L1_addresses d a b bias out i j k)"
    for i j k prog
    by (simp add: L1_job_def L1_addresses_def Let_def)
  then have "fst (programmed (concat (map ?job [0..<n])) prog) =
      map (\<lambda>t. L1_addresses d a b bias out (t div n_emb d div n_proj d) (t div n_emb d mod n_proj d) (t mod n_emb d)) [0..<n]" for n
    by (induction n) (simp_all add: programmed_append)
  ultimately show ?thesis by simp
qed

lemma matmul_L2_programs:
  assumes "0 < n_emb d" and "0 < n_proj d"
  shows "fst (programmed (ita_compute_matmul_L2 d p) prog) = map (L2_addresses d p) [0..<jobs d]"
proof -
  have "fst (programmed (concat (map (L2_iter d p) [0..<n])) prog) = map (L2_addresses d p) [0..<n]" if "n \<le> jobs d" for n
    using that
    by (induction n) (simp_all add: programmed_append L2_iter_split [OF assms] programmed_parts split_beta Let_def)
  then show ?thesis by (simp add: matmul_L2_flat [OF assms] split_beta Let_def)
qed

text \<open>C15: the weights announced to the accelerator for its next job. In the product from main memory they
  are always the next job's weights; in the product in L1 they are not where a new column of tiles
  starts: after the last tile of column \<open>j\<close> the first tile of the same column is announced, while
  the next job uses the first tile of column \<open>j + 1\<close>.\<close>

theorem matmul_next_weights:
  fixes a b bias out :: u32 and p :: operands and prog :: ita_call
  assumes "0 < n_emb d" and "0 < size_b d" and "n_proj d * n_emb d * size_b d \<le> 2 ^ 32" and "i < n_seq d" and "Suc j < n_proj d"
  defines "L1 \<equiv> fst (programmed (ita_compute_matmul_L1 d a b bias out) prog)"
    and "L2 \<equiv> fst (programmed (ita_compute_matmul_L2 d p) prog)"
    and "t \<equiv> (i * n_proj d + j) * n_emb d + (n_emb d - 1)"
  shows "(\<forall>n. Suc n < length L2 \<longrightarrow> next_weights (L2 ! n) = weights (L2 ! Suc n))
    \<and> next_weights (L1 ! t) = b + of_nat (j * n_emb d * size_b d)
    \<and> weights (L1 ! Suc t) = b + of_nat (Suc j * n_emb d * size_b d)
    \<and> next_weights (L1 ! t) \<noteq> weights (L1 ! Suc t)"
proof -
  have proj: "0 < n_proj d" using assms(5) by simp
  note progs = matmul_L1_programs [OF assms(1) proj] matmul_L2_programs [OF assms(1) proj]
  have t': "Suc t = (i * n_proj d + Suc j) * n_emb d + 0"
    using assms(1) by (simp add: t_def)
  have "Suc t < Suc (i * n_proj d + Suc j) * n_emb d" using assms(1) t' by simp
  also have "\<dots> \<le> (Suc i * n_proj d) * n_emb d" using assms(5) by (intro mult_le_mono1) simp
  also have "\<dots> \<le> jobs d" using assms(4) unfolding jobs_def by (intro mult_le_mono1) simp
  finally have len: "Suc t < jobs d" .
  have idx: "t div n_emb d = i * n_proj d + j" "t mod n_emb d = n_emb d - 1"
    using tile_index [of "n_emb d - 1" "n_emb d" "i * n_proj d + j"] assms(1) by (simp_all add: t_def)
  have idx': "Suc t div n_emb d = i * n_proj d + Suc j" "Suc t mod n_emb d = 0"
    using tile_index [of 0 "n_emb d" "i * n_proj d + Suc j"] assms(1) by (simp_all only: t')
  have col: "(i * n_proj d + j) mod n_proj d = j" "(i * n_proj d + Suc j) mod n_proj d = Suc j" "j mod n_proj d = j" "Suc j mod n_proj d = Suc j"
    using assms(5) by (simp_all del: add_Suc_right)
  have "next_weights (L2 ! n) = weights (L2 ! Suc n)" if "Suc n < length L2" for n
    using that by (simp add: L2_def progs L2_addresses_def)
  moreover have "next_weights (L1 ! t) = b + of_nat (j * n_emb d * size_b d)"
    using len assms(1) by (simp add: L1_def progs idx col L1_addresses_def)
  moreover have "weights (L1 ! Suc t) = b + of_nat (Suc j * n_emb d * size_b d)"
    using len by (simp add: L1_def progs idx' col L1_addresses_def del: of_nat_mult)
  moreover have "(of_nat (j * n_emb d * size_b d) :: u32) \<noteq> of_nat (Suc j * n_emb d * size_b d)"
  proof
    assume eq: "(of_nat (j * n_emb d * size_b d) :: u32) = of_nat (Suc j * n_emb d * size_b d)"
    have "Suc j * n_emb d * size_b d < n_proj d * n_emb d * size_b d"
      using assms(1,2,5) by (intro mult_strict_right_mono) auto
    then have hi: "Suc j * n_emb d * size_b d < 2 ^ 32" using assms(3) by (rule less_le_trans)
    have "j * n_emb d * size_b d \<le> Suc j * n_emb d * size_b d" by (intro mult_le_mono1) simp
    then have "j * n_emb d * size_b d < 2 ^ 32" using hi by (rule le_less_trans)
    from offset_inj [OF eq this hi] show False using assms(1,2) by simp
  qed
  ultimately show ?thesis by auto
qed

theorem matmul_next_weights_witness:
  "next_weights (fst (programmed (ita_compute_matmul_L1 sample_dims 0x40801000 0x40801020 0x40801040 0x40801050) Trigger) ! 0)
    \<noteq> weights (fst (programmed (ita_compute_matmul_L1 sample_dims 0x40801000 0x40801020 0x40801040 0x40801050) Trigger) ! 1)"
  using matmul_next_weights [where d = sample_dims and i = 0 and j = 0 and a = "0x40801000" and b = "0x40801020"
      and bias = "0x40801040" and out = "0x40801050" and prog = Trigger and p = sample_operands]
  by (simp add: sample_dims_def size_b_def)

end
