(* ===== verification/ItaAttention.thy ===== *)
theory ItaAttention
  imports ItaMatmul
begin

section \<open>The attention layer of the ITA accelerator (ITA\_layers.h)\<close>

text \<open>
  The five steps of an attention head: projection of queries and keys, projection of values, one row
  of scores, one row of weighted values, and the output projection. As in \<open>Ita\<close> a step is the list of
  the calls it makes. Each step writes back the last tile of the step before it, and fetches the first
  weights of the step after it; \<open>hand_over\<close> holds the arguments for both. Two of the steps also
  store into the array of two pointers that they are given: they return it. The last section is
  the order in which an application runs the steps (\<open>tests/chimera-convolve/snitchCluster/ITA\_SHA\_L2\<close>).
\<close>

subsection \<open>Loops with a state\<close>

text \<open>A loop whose body makes calls and changes the loop's variables.\<close>

definition for_calls :: "nat \<Rightarrow> (nat \<Rightarrow> 's \<Rightarrow> ita_call list \<times> 's) \<Rightarrow> 's \<Rightarrow> ita_call list \<times> 's" where
  "for_calls n f s = fold (\<lambda>k (cs, s). let (c, s) = f k s in (cs @ c, s)) [0..<n] ([], s)"

definition then_calls :: "ita_call list \<Rightarrow> ita_call list \<times> 's \<Rightarrow> ita_call list \<times> 's" where
  "then_calls cs r = (cs @ fst r, snd r)"

definition REDUCTION_FACTOR :: nat where "REDUCTION_FACTOR = 2"

record hand_over =
  prev_l2 :: u32
  prev_l1 :: u32
  prev_size :: nat
  next_l2 :: u32
  next_l1 :: u32
  next_size :: nat

text \<open>The last tile of the step before, where the step has the test for its presence.\<close>

definition write_prev :: "hand_over \<Rightarrow> ita_call list" where
  "write_prev h = (if prev_l2 h \<noteq> 0 \<and> prev_l1 h \<noteq> 0 \<and> prev_size h \<noteq> 0
     then [Dma_start (prev_l2 h) (prev_l1 h) (prev_size h div REDUCTION_FACTOR)] else [])"

subsection \<open>Projections\<close>

definition qk_job :: "dims \<Rightarrow> operands \<Rightarrow> hand_over \<Rightarrow> bool \<Rightarrow> nat \<Rightarrow> nat \<Rightarrow> nat \<Rightarrow> nat \<Rightarrow> ita_call list \<times> nat" where
  "qk_job d p h is_first_job i j k b =
     (let is_first_tile = (i = 0 \<and> j = 0 \<and> k = 0);
          is_last_tile = (i = n_seq d - 1 \<and> j = n_proj d - 1 \<and> k = n_emb d - 1);
          offset_input_a = (i * n_emb d + k) * size_a d;
          index_buff_output = (i * n_proj d + j) mod 2;
          next_k = (if k = n_emb d - 1 then 0 else k + 1);
          inc_j = (if j = n_proj d - 1 then 0 else j + 1);
          next_j = (if k = n_emb d - 1 then inc_j else j);
          offset_input_b = (next_j * n_emb d + next_k) * size_b d;
          prev_i = (if j = 0 then i - 1 else i);
          prev_j = (if j = 0 then n_proj d - 1 else j - 1);
          prev = prev_i * n_proj d + prev_j
      in ([Dma_start (pick (a_l1 p) b) (a_l2 p + of_nat offset_input_a) (size_a d div REDUCTION_FACTOR),
           Set_addresses (pick (a_l1 p) b) (pick (b_l1 p) b) (if is_last_tile then next_l1 h else pick (b_l1 p) (1 - b))
             (bias_l1 p) (pick (out_l1 p) index_buff_output),
           Set_flags (ITA_FLAGS (flag (is_first_job \<and> is_first_tile)) 1 0 0 (if k = n_emb d - 1 then 0 else 1)),
           Dma_wait]
         @ (if \<not> (is_first_job \<and> is_first_tile) then [Wait_job] else [])
         @ (if is_last_tile then [Dma_start (next_l1 h) (next_l2 h) (next_size h div REDUCTION_FACTOR)]
            else [Dma_start (pick (b_l1 p) (1 - b)) (b_l2 p + of_nat offset_input_b) (size_b d div REDUCTION_FACTOR)])
         @ [Trigger]
         @ (if k = 0 then
              if i = 0 \<and> j = 0 then write_prev h
              else [Dma_start (out_l2 p + of_nat (prev * size_out d)) (pick (out_l1 p) (prev mod 2)) (size_out d div REDUCTION_FACTOR)]
            else []), 1 - b))"

definition qk_bias :: "dims \<Rightarrow> operands \<Rightarrow> nat \<Rightarrow> ita_call" where
  "qk_bias d p j = Dma_start (bias_l1 p) (bias_l2 p + of_nat (j * ts_proj d * 3)) (size_bias d div REDUCTION_FACTOR)"

definition ita_compute_qk_projection_step :: "dims \<Rightarrow> operands \<Rightarrow> hand_over \<Rightarrow> bool \<Rightarrow> ita_call list" where
  "ita_compute_qk_projection_step d p h is_first_job =
     (if is_first_job then [Dma_start (pick (b_l1 p) 0) (b_l2 p) (size_b d div REDUCTION_FACTOR)] else [])
     @ fst (for_calls (n_seq d) (\<lambda>i. for_calls (n_proj d) (\<lambda>j b.
         then_calls [qk_bias d p j] (for_calls (n_emb d) (qk_job d p h is_first_job i j) b))) 0)"

text \<open>The values: rows of the output are columns of the weights, which here are the first operand
  (\<open>input_b\<close>); the weights that are fetched ahead are the inputs.\<close>

definition value_job :: "dims \<Rightarrow> operands \<Rightarrow> hand_over \<Rightarrow> nat \<Rightarrow> nat \<Rightarrow> nat \<Rightarrow> nat \<Rightarrow> ita_call list \<times> nat" where
  "value_job d p h i j k b =
     (let is_last_tile = (i = n_proj d - 1 \<and> j = n_seq d - 1 \<and> k = n_emb d - 1);
          offset_input_b = (i * n_emb d + k) * size_b d;
          index_buff_output = (i * n_seq d + j) mod 2;
          next_k = (if k = n_emb d - 1 then 0 else k + 1);
          inc_j = (if j = n_seq d - 1 then 0 else j + 1);
          next_j = (if k = n_emb d - 1 then inc_j else j);
          offset_input_a = (next_j * n_emb d + next_k) * size_a d;
          prev_i = (if j = 0 then i - 1 else i);
          prev_j = (if j = 0 then n_seq d - 1 else j - 1);
          prev = prev_i * n_seq d + prev_j
      in ([Dma_start (pick (b_l1 p) b) (b_l2 p + of_nat offset_input_b) (size_b d div REDUCTION_FACTOR),
           Set_addresses (pick (b_l1 p) b) (pick (a_l1 p) b) (if is_last_tile then next_l1 h else pick (a_l1 p) (1 - b))
             (bias_l1 p) (pick (out_l1 p) index_buff_output),
           Set_flags (ITA_FLAGS 0 1 0 1 (if k = n_emb d - 1 then 0 else 1)),
           Dma_wait, Wait_job]
         @ (if is_last_tile then
              if n_seq d = 1 \<and> n_proj d = 1
              then [Dma_start (next_l1 h) (prev_l1 h) (next_size h div REDUCTION_FACTOR), Dma_wait]
              else [Dma_start (next_l1 h) (next_l2 h) (next_size h div REDUCTION_FACTOR)]
            else [Dma_start (pick (a_l1 p) (1 - b)) (a_l2 p + of_nat offset_input_a) (size_a d div REDUCTION_FACTOR)])
         @ [Trigger]
         @ (if k = 0 then
              if i = 0 \<and> j = 0 then write_prev h
              else [Dma_start (out_l2 p + of_nat (prev * size_out d)) (pick (out_l1 p) (prev mod 2)) (size_out d div REDUCTION_FACTOR)]
            else []), 1 - b))"

definition ita_compute_value_projection_step :: "dims \<Rightarrow> operands \<Rightarrow> hand_over \<Rightarrow> ita_call list" where
  "ita_compute_value_projection_step d p h =
     fst (for_calls (n_proj d) (\<lambda>i b. then_calls [qk_bias d p i]
       (for_calls (n_seq d) (\<lambda>j. for_calls (n_emb d) (value_job d p h i j)) b)) 0)"

subsection \<open>Rows\<close>

definition size_qk :: "dims \<Rightarrow> nat" where "size_qk d = ts_seq d * ts_seq d"

definition qk_row_job :: "dims \<Rightarrow> operands \<Rightarrow> hand_over \<Rightarrow> nat \<Rightarrow> nat \<Rightarrow> nat \<Rightarrow> ita_call list \<times> nat" where
  "qk_row_job d p h j k b =
     (let is_last_tile = (j = n_seq d - 1 \<and> k = n_proj d - 1);
          offset_input_Pq = k * size_out d;
          next_k = (if k = n_proj d - 1 then 0 else k + 1);
          inc_j = (if j = n_seq d - 1 then 0 else j + 1);
          next_j = (if k = n_proj d - 1 then inc_j else j);
          offset_input_Pk = (next_j * n_proj d + next_k) * size_out d
      in ([Dma_start (pick (a_l1 p) b) (a_l2 p + of_nat offset_input_Pq) (size_out d div REDUCTION_FACTOR),
           Set_addresses (pick (a_l1 p) b) (pick (b_l1 p) b) (if is_last_tile then next_l1 h else pick (b_l1 p) (1 - b))
             0 (pick (out_l1 p) (j mod 2)),
           Set_flags (ITA_FLAGS 0 1 1 0 (if k = n_proj d - 1 then 0 else 1)),
           Dma_wait, Wait_job]
         @ (if is_last_tile then
              if n_seq d = 1 \<and> n_proj d = 1
              then [Dma_start (next_l1 h) (prev_l1 h) (next_size h div REDUCTION_FACTOR), Dma_wait]
              else [Dma_start (next_l1 h) (next_l2 h) (next_size h div REDUCTION_FACTOR)]
            else [Dma_start (pick (b_l1 p) (1 - b)) (b_l2 p + of_nat offset_input_Pk) (size_out d div REDUCTION_FACTOR)])
         @ [Trigger]
         @ (if k = 0 then
              if j = 0 then [Dma_start (prev_l2 h) (prev_l1 h) (prev_size h div REDUCTION_FACTOR)]
              else [Dma_start (out_l2 p + of_nat ((j - 1) * size_qk d)) (pick (out_l1 p) ((j - 1) mod 2)) (size_qk d div REDUCTION_FACTOR)]
            else []), 1 - b))"

definition ita_compute_qk_row :: "dims \<Rightarrow> operands \<Rightarrow> hand_over \<Rightarrow> ita_call list" where
  "ita_compute_qk_row d p h =
     fst (for_calls (n_seq d) (\<lambda>j. for_calls (n_proj d) (qk_row_job d p h j)) 0)"

text \<open>\<open>input_qk_l1\<close> is an array of the caller: with a single tile of the sequence the entry of the current
  buffer is set to the tile of the step before.\<close>

definition put :: "u32 \<times> u32 \<Rightarrow> nat \<Rightarrow> u32 \<Rightarrow> u32 \<times> u32" where
  "put q b v = (if b = 0 then (v, snd q) else (fst q, v))"

definition attention_job :: "dims \<Rightarrow> operands \<Rightarrow> hand_over \<Rightarrow> nat \<Rightarrow> nat \<Rightarrow> nat \<times> (u32 \<times> u32)
    \<Rightarrow> ita_call list \<times> nat \<times> (u32 \<times> u32)" where
  "attention_job d p h j k s =
     (let (b, input_qk_l1) = s;
          is_last_tile = (j = n_proj d - 1 \<and> k = n_seq d - 1);
          offset_input_qk = k * size_qk d;
          (fetch, input_qk_l1) = (if n_seq d > 1
            then ([Dma_start (pick input_qk_l1 b) (a_l2 p + of_nat offset_input_qk) (size_qk d div REDUCTION_FACTOR)], input_qk_l1)
            else ([], put input_qk_l1 b (prev_l1 h)));
          next_k = (if k = n_seq d - 1 then 0 else k + 1);
          inc_j = (if j = n_proj d - 1 then 0 else j + 1);
          next_j = (if k = n_seq d - 1 then inc_j else j);
          offset_input_Pv = (next_j * n_seq d + next_k) * size_out d
      in (fetch
         @ [Set_addresses (pick input_qk_l1 b) (pick (b_l1 p) b) (if is_last_tile then next_l1 h else pick (b_l1 p) (1 - b))
              0 (pick (out_l1 p) (j mod 2)),
            Set_flags (ITA_FLAGS 0 1 1 0 (if k = n_seq d - 1 then 0 else 1)),
            Dma_wait, Wait_job]
         @ (if is_last_tile then [Dma_start (next_l1 h) (next_l2 h) (next_size h div REDUCTION_FACTOR)]
            else [Dma_start (pick (b_l1 p) (1 - b)) (b_l2 p + of_nat offset_input_Pv) (size_out d div REDUCTION_FACTOR)])
         @ [Trigger]
         @ (if k = 0 then
              if j = 0 then [Dma_start (prev_l2 h) (prev_l1 h) (prev_size h div REDUCTION_FACTOR), Dma_wait]
              else [Dma_start (out_l2 p + of_nat ((j - 1) * size_out d)) (pick (out_l1 p) ((j - 1) mod 2)) (size_out d div REDUCTION_FACTOR)]
            else []), 1 - b, input_qk_l1))"

text \<open>The calls and the array afterwards.\<close>

definition ita_compute_attention_row :: "dims \<Rightarrow> operands \<Rightarrow> hand_over \<Rightarrow> ita_call list \<times> (u32 \<times> u32)" where
  "ita_compute_attention_row d p h =
     (let (cs, _, input_qk_l1) = for_calls (n_proj d) (\<lambda>j. for_calls (n_seq d) (attention_job d p h j)) (0, a_l1 p)
      in (cs, input_qk_l1))"

subsection \<open>Output projection\<close>

text \<open>The size of an input tile is that of the tile of the step before; nothing is fetched for a next step.\<close>

definition embedding_job :: "dims \<Rightarrow> operands \<Rightarrow> hand_over \<Rightarrow> nat \<Rightarrow> nat \<Rightarrow> nat \<Rightarrow> nat \<times> (u32 \<times> u32)
    \<Rightarrow> ita_call list \<times> nat \<times> (u32 \<times> u32)" where
  "embedding_job d p h i j k s =
     (let (b, input_av_l1) = s;
          is_last_tile = (i = n_seq d - 1 \<and> j = n_emb d - 1 \<and> k = n_proj d - 1);
          (fetch, input_av_l1) = (if n_seq d > 1 \<and> n_emb d > 1
            then ([Dma_start (pick input_av_l1 b) (a_l2 p + of_nat ((i * n_proj d + k) * prev_size h)) (prev_size h div REDUCTION_FACTOR)],
                  input_av_l1)
            else ([], put input_av_l1 b (prev_l1 h)));
          index_buff_output = (i * n_emb d + j) mod 2;
          next_k = (if k = n_proj d - 1 then 0 else k + 1);
          inc_j = (if j = n_emb d - 1 then 0 else j + 1);
          next_j = (if k = n_proj d - 1 then inc_j else j);
          offset_input_Wo = (next_j * n_proj d + next_k) * size_b d;
          prev_i = (if j = 0 then i - 1 else i);
          prev_j = (if j = 0 then n_emb d - 1 else j - 1);
          prev = prev_i * n_emb d + prev_j
      in (fetch
         @ [Set_addresses (pick input_av_l1 b) (pick (b_l1 p) b) (pick (b_l1 p) (1 - b)) (bias_l1 p) (pick (out_l1 p) index_buff_output),
            Set_flags (ITA_FLAGS 0 (flag (\<not> is_last_tile)) 0 0 (if k = n_proj d - 1 then 0 else 1)),
            Dma_wait, Wait_job]
         @ (if \<not> is_last_tile then [Dma_start (pick (b_l1 p) (1 - b)) (b_l2 p + of_nat offset_input_Wo) (size_b d div REDUCTION_FACTOR)] else [])
         @ [Trigger]
         @ (if k = 0 then
              if i = 0 \<and> j = 0 then write_prev h
              else [Dma_start (out_l2 p + of_nat (prev * size_a d)) (pick (out_l1 p) (prev mod 2)) (size_a d div REDUCTION_FACTOR)]
            else []), 1 - b, input_av_l1))"

definition embedding_bias :: "dims \<Rightarrow> operands \<Rightarrow> nat \<Rightarrow> ita_call" where
  "embedding_bias d p j = Dma_start (bias_l1 p) (bias_l2 p + of_nat (j * ts_emb d * 3)) (ts_emb d * 3 div REDUCTION_FACTOR)"

definition ita_compute_output_embedding_step :: "dims \<Rightarrow> operands \<Rightarrow> hand_over \<Rightarrow> ita_call list \<times> (u32 \<times> u32)" where
  "ita_compute_output_embedding_step d p h =
     (let (cs, _, input_av_l1) = for_calls (n_seq d) (\<lambda>i. for_calls (n_emb d) (\<lambda>j s.
        then_calls [embedding_bias d p j] (for_calls (n_proj d) (embedding_job d p h i j) s))) (0, a_l1 p)
      in (cs, input_av_l1))"

subsection \<open>One attention head (ITA\_SHA\_L2/src\_cluster/test\_cluster.c)\<close>

text \<open>Main memory: inputs, weights, biases and what the steps produce; L1: buffers, in pairs.\<close>

record head =
  input_q :: u32
  input_k :: u32
  input_Wq :: u32
  input_Wk :: u32
  input_Wv :: u32
  input_Wo :: u32
  input_Bq :: u32
  input_Bk :: u32
  input_Bv :: u32
  input_Bo :: u32
  interm_Pq :: u32
  interm_Pk :: u32
  interm_Pv :: u32
  interm_qk :: u32
  interm_attention :: u32
  interm_output :: u32
  input_a0_buff :: "u32 \<times> u32"
  input_a1_buff :: "u32 \<times> u32"
  input_b0_buff :: "u32 \<times> u32"
  input_b1_buff :: "u32 \<times> u32"
  input_b2_buff :: "u32 \<times> u32"
  output_0_buff :: "u32 \<times> u32"
  output_1_buff :: "u32 \<times> u32"
  output_2_buff :: "u32 \<times> u32"
  input_bias_0 :: u32
  input_bias_1 :: u32

text \<open>The last of \<open>n\<close> tiles of a matrix, and the buffer of a pair it is in.\<close>

definition last_tile :: "u32 \<Rightarrow> nat \<Rightarrow> nat \<Rightarrow> u32" where
  "last_tile m n sz = m + of_nat ((n - 1) * sz)"

definition q_projection :: "dims \<Rightarrow> head \<Rightarrow> ita_call list" where
  "q_projection d h = ita_compute_qk_projection_step d
     \<lparr>a_l2 = input_q h, b_l2 = input_Wq h, bias_l2 = input_Bq h, out_l2 = interm_Pq h,
      a_l1 = input_a0_buff h, b_l1 = input_b0_buff h, bias_l1 = input_bias_0 h, out_l1 = output_0_buff h\<rparr>
     \<lparr>prev_l2 = 0, prev_l1 = 0, prev_size = 0,
      next_l2 = input_Wk h, next_l1 = fst (input_b1_buff h), next_size = size_b d\<rparr> True"

definition k_projection :: "dims \<Rightarrow> head \<Rightarrow> ita_call list" where
  "k_projection d h = ita_compute_qk_projection_step d
     \<lparr>a_l2 = input_k h, b_l2 = input_Wk h, bias_l2 = input_Bk h, out_l2 = interm_Pk h,
      a_l1 = input_a1_buff h, b_l1 = input_b1_buff h, bias_l1 = input_bias_1 h, out_l1 = output_1_buff h\<rparr>
     \<lparr>prev_l2 = last_tile (interm_Pq h) (n_seq d * n_proj d) (size_out d),
      prev_l1 = pick (output_0_buff h) ((n_seq d * n_proj d - 1) mod 2), prev_size = size_out d,
      next_l2 = input_k h, next_l1 = fst (input_b2_buff h), next_size = size_a d\<rparr> False"

definition v_projection :: "dims \<Rightarrow> head \<Rightarrow> ita_call list" where
  "v_projection d h = ita_compute_value_projection_step d
     \<lparr>a_l2 = input_k h, b_l2 = input_Wv h, bias_l2 = input_Bv h, out_l2 = interm_Pv h,
      a_l1 = input_b2_buff h, b_l1 = input_a0_buff h, bias_l1 = input_bias_0 h, out_l1 = output_2_buff h\<rparr>
     \<lparr>prev_l2 = last_tile (interm_Pk h) (n_seq d * n_proj d) (size_out d),
      prev_l1 = pick (output_1_buff h) ((n_seq d * n_proj d - 1) mod 2), prev_size = size_out d,
      next_l2 = interm_Pk h, next_l1 = fst (input_b0_buff h), next_size = size_out d\<rparr>"

text \<open>A row: its scores, then its weighted values. The array \<open>input_a0_buff\<close> is the loop's variable.\<close>

definition attention_row :: "dims \<Rightarrow> head \<Rightarrow> nat \<Rightarrow> u32 \<times> u32 \<Rightarrow> ita_call list \<times> (u32 \<times> u32)" where
  "attention_row d h i a0 =
     (let qk_row = interm_qk h + of_nat (i * n_seq d * size_qk d);
          scores = ita_compute_qk_row d
            \<lparr>a_l2 = interm_Pq h + of_nat (i * n_proj d * size_out d), b_l2 = interm_Pk h, bias_l2 = 0, out_l2 = qk_row,
             a_l1 = input_a1_buff h, b_l1 = input_b0_buff h, bias_l1 = 0, out_l1 = output_0_buff h\<rparr>
            \<lparr>prev_l2 = if i = 0 then last_tile (interm_Pv h) (n_seq d * n_proj d) (size_out d)
               else interm_attention h + of_nat (((i - 1) * n_proj d + (n_proj d - 1)) * size_out d),
             prev_l1 = if i = 0 then pick (output_2_buff h) ((n_seq d * n_proj d - 1) mod 2)
               else pick (output_1_buff h) ((n_proj d - 1) mod 2),
             prev_size = size_out d,
             next_l2 = interm_Pv h, next_l1 = fst (input_b1_buff h), next_size = size_out d\<rparr>;
          is_last_row = (i = n_seq d - 1)
      in then_calls scores (ita_compute_attention_row d
            \<lparr>a_l2 = qk_row, b_l2 = interm_Pv h, bias_l2 = 0,
             out_l2 = interm_attention h + of_nat (i * n_proj d * size_out d),
             a_l1 = a0, b_l1 = input_b1_buff h, bias_l1 = 0, out_l1 = output_1_buff h\<rparr>
            \<lparr>prev_l2 = qk_row + of_nat ((n_seq d - 1) * size_qk d), prev_l1 = pick (output_0_buff h) ((n_seq d - 1) mod 2),
             prev_size = size_qk d,
             next_l2 = if is_last_row then input_Wo h else interm_Pk h,
             next_l1 = if is_last_row then fst (input_b2_buff h) else fst (input_b0_buff h),
             next_size = if is_last_row then size_b d else size_out d\<rparr>))"

definition output_projection :: "dims \<Rightarrow> head \<Rightarrow> ita_call list \<times> (u32 \<times> u32)" where
  "output_projection d h = ita_compute_output_embedding_step d
     \<lparr>a_l2 = interm_attention h, b_l2 = input_Wo h, bias_l2 = input_Bo h, out_l2 = interm_output h,
      a_l1 = input_a1_buff h, b_l1 = input_b2_buff h, bias_l1 = input_bias_0 h, out_l1 = output_2_buff h\<rparr>
     \<lparr>prev_l2 = last_tile (interm_attention h) (n_seq d * n_proj d) (size_out d),
      prev_l1 = pick (output_1_buff h) ((n_proj d - 1) mod 2), prev_size = size_out d,
      next_l2 = 0, next_l1 = 0, next_size = 0\<rparr>"

text \<open>A repetition from the first projection on, and the buffers as it leaves them.\<close>

definition attention_head :: "dims \<Rightarrow> head \<Rightarrow> ita_call list \<times> head" where
  "attention_head d h =
     (let (rows, a0) = for_calls (n_seq d) (attention_row d h) (input_a0_buff h);
          (out, a1) = output_projection d h
      in (q_projection d h @ k_projection d h @ v_projection d h @ rows @ out
          @ [Wait_job, Dma_start (last_tile (interm_output h) (n_seq d * n_emb d) (size_a d))
               (pick (output_2_buff h) ((n_seq d * n_emb d - 1) mod 2)) (size_a d div REDUCTION_FACTOR), Dma_wait],
          h\<lparr>input_a0_buff := a0, input_a1_buff := a1\<rparr>))"

end
