(* ===== verification/ItaHead.thy ===== *)
theory ItaHead
  imports ItaAttention
begin

section \<open>Properties of an attention head\<close>

text \<open>
  What holds of the steps of \<open>ItaAttention\<close> and of their composition. Facts about the calls of a
  step go through the loops by one rule each: \<open>loop_hands\<close> for the weights that one job announces
  and the next is given, \<open>triggers_loop\<close> for the number of jobs, \<open>for_calls_state\<close> for the loop's
  variables, \<open>dests_loop\<close> for the memory the copies write, \<open>reads_from_loop\<close> for the buffers read.
\<close>

subsection \<open>The weights of the next job\<close>

text \<open>Every job is given the weights announced by the job before it: \<open>w\<close> is announced before the first
  of them, and \<open>w'\<close> by the last.\<close>

fun chained :: "u32 \<Rightarrow> ita_call list \<Rightarrow> u32 \<Rightarrow> bool" where
  "chained w [] w' = (w = w')"
| "chained w (x # xs) w' = (weights x = w \<and> chained (next_weights x) xs w')"

lemma chained_append: "chained w xs v \<Longrightarrow> chained v ys w' \<Longrightarrow> chained w (xs @ ys) w'"
  by (induction xs arbitrary: w) auto

definition jobs_of :: "ita_call list \<Rightarrow> ita_call list" where
  "jobs_of cs = fst (programmed cs Trigger)"

text \<open>Each job sets its addresses before it is triggered.\<close>

definition well_set :: "ita_call list \<Rightarrow> bool" where
  "well_set cs \<longleftrightarrow> (\<forall>prog. fst (programmed cs prog) = jobs_of cs)"

lemma well_set_append: "well_set xs \<Longrightarrow> well_set ys \<Longrightarrow> well_set (xs @ ys) \<and> jobs_of (xs @ ys) = jobs_of xs @ jobs_of ys"
  unfolding well_set_def jobs_of_def programmed_append by (metis fst_conv)

definition hands :: "u32 \<Rightarrow> ita_call list \<Rightarrow> u32 \<Rightarrow> bool" where
  "hands w cs w' \<longleftrightarrow> well_set cs \<and> chained w (jobs_of cs) w'"

lemma hands_append: "hands w xs v \<Longrightarrow> hands v ys w' \<Longrightarrow> hands w (xs @ ys) w'"
  using well_set_append chained_append by (fastforce simp: hands_def)

lemma for_calls_Suc: "for_calls (Suc n) f s = (let (cs, s) = for_calls n f s; (c, s) = f n s in (cs @ c, s))"
  by (simp add: for_calls_def split_beta)

lemma for_calls_0 [simp]: "for_calls 0 f s = ([], s)"
  by (simp add: for_calls_def)

lemma for_calls_hands:
  assumes "\<And>k w s. k < n \<Longrightarrow> I k w s \<Longrightarrow> \<exists>w'. hands w (fst (f k s)) w' \<and> I (Suc k) w' (snd (f k s))"
    and "I 0 w s"
  shows "\<exists>w'. hands w (fst (for_calls n f s)) w' \<and> I n w' (snd (for_calls n f s))"
  using assms
proof (induction n)
  case 0
  then show ?case by (simp add: hands_def well_set_def jobs_of_def)
next
  case (Suc n)
  then obtain v where "hands w (fst (for_calls n f s)) v" "I n v (snd (for_calls n f s))"
    by (meson less_SucI)
  moreover from this Suc.prems(1) obtain w' where "hands v (fst (f n (snd (for_calls n f s)))) w'"
      "I (Suc n) w' (snd (f n (snd (for_calls n f s))))" by blast
  ultimately show ?case
    by (auto simp: for_calls_Suc split_beta Let_def intro!: exI [of _ w'] hands_append)
qed

text \<open>Calls that neither set addresses nor trigger a job do not matter here.\<close>

fun idle :: "ita_call list \<Rightarrow> bool" where
  "idle [] = True"
| "idle (Trigger # cs) = False"
| "idle (Set_addresses _ _ _ _ _ # cs) = False"
| "idle (c # cs) = idle cs"

lemma idle_append: "idle (xs @ ys) = (idle xs \<and> idle ys)"
  by (induction xs rule: idle.induct) simp_all

lemma idle_if:
  "idle (if b then xs else ys) = ((b \<longrightarrow> idle xs) \<and> (\<not> b \<longrightarrow> idle ys))"
  "idle (fst (if b then r else q)) = ((b \<longrightarrow> idle (fst r)) \<and> (\<not> b \<longrightarrow> idle (fst q)))"
  by simp_all

lemma idle_write_prev: "idle (write_prev h)"
  by (simp add: write_prev_def)

lemma programmed_idle: "idle cs \<Longrightarrow> programmed cs prog = ([], prog)"
  by (induction cs rule: idle.induct) simp_all

lemmas programmed_job = programmed_append programmed_idle idle_append idle_if idle_write_prev Let_def split_beta

lemma hands_job:
  "hands (pick (b_l1 p) b) (fst (qk_job d p h fj i j k b))
    (if i = n_seq d - 1 \<and> j = n_proj d - 1 \<and> k = n_emb d - 1 then next_l1 h else pick (b_l1 p) (1 - b))"
  "hands (pick (a_l1 p) b) (fst (value_job d p h i j k b))
    (if i = n_proj d - 1 \<and> j = n_seq d - 1 \<and> k = n_emb d - 1 then next_l1 h else pick (a_l1 p) (1 - b))"
  "hands (pick (b_l1 p) b) (fst (qk_row_job d p h j k b))
    (if j = n_seq d - 1 \<and> k = n_proj d - 1 then next_l1 h else pick (b_l1 p) (1 - b))"
  "hands (pick (b_l1 p) (fst s)) (fst (attention_job d p h j k s))
    (if j = n_proj d - 1 \<and> k = n_seq d - 1 then next_l1 h else pick (b_l1 p) (1 - fst s))"
  "hands (pick (b_l1 p) (fst s)) (fst (embedding_job d p h i j k s)) (pick (b_l1 p) (1 - fst s))"
  by (simp_all add: hands_def well_set_def jobs_of_def qk_job_def value_job_def qk_row_job_def attention_job_def
      embedding_job_def programmed_job split del: if_split)

lemma buff_job:
  "snd (qk_job d p h fj i j k b) = 1 - b" "snd (value_job d p h i j k b) = 1 - b" "snd (qk_row_job d p h j k b) = 1 - b"
  "fst (snd (attention_job d p h j k s)) = 1 - fst s" "fst (snd (embedding_job d p h i j k s)) = 1 - fst s"
  by (simp_all only: qk_job_def value_job_def qk_row_job_def attention_job_def embedding_job_def Let_def split_beta fst_conv snd_conv)

lemma hands_Dma: "hands w cs w' \<Longrightarrow> hands w (Dma_start a b n # cs) w'"
  by (simp add: hands_def well_set_def jobs_of_def split_beta Let_def)

lemma then_hands: "hands w (fst r) w' \<Longrightarrow> hands w (fst (then_calls [Dma_start a b n] r)) w'"
  by (simp add: then_calls_def hands_Dma)

text \<open>In a loop whose bodies hand over between the two buffers only the last may announce something else.\<close>

lemma loop_hands:
  assumes "0 < n"
    and "\<And>j s. j < n \<Longrightarrow> hands (pick q (buff s)) (fst (f j s)) (if final \<and> j = n - 1 then v else pick q (buff (snd (f j s))))"
  shows "hands (pick q (buff s)) (fst (for_calls n f s)) (if final then v else pick q (buff (snd (for_calls n f s))))"
proof -
  let ?I = "\<lambda>k w s. w = (if k = n \<and> final then v else pick q (buff s))"
  have "\<exists>w'. hands (pick q (buff s)) (fst (for_calls n f s)) w' \<and> ?I n w' (snd (for_calls n f s))"
  proof (rule for_calls_hands [where I = ?I])
    fix k w s
    assume k: "k < n" and w: "w = (if k = n \<and> final then v else pick q (buff s))"
    have "(Suc k = n) = (k = n - 1)" using assms(1) by auto
    with assms(2) [OF k, of s] w k show "\<exists>w'. hands w (fst (f k s)) w' \<and> ?I (Suc k) w' (snd (f k s))"
      by (intro exI [of _ "if final \<and> k = n - 1 then v else pick q (buff (snd (f k s)))"]) auto
  qed (use assms(1) in simp)
  then show ?thesis by auto
qed

lemma two_loops_hand:
  assumes "0 < nj" and "0 < nk"
    and "\<And>j k s. hands (pick q (buff s)) (fst (f j k s))
      (if (final \<and> j = nj - 1) \<and> k = nk - 1 then v else pick q (buff (snd (f j k s))))"
  shows "hands (pick q (buff s)) (fst (for_calls nj (\<lambda>j. for_calls nk (f j)) s))
    (if final then v else pick q (buff (snd (for_calls nj (\<lambda>j. for_calls nk (f j)) s))))"
  by (intro loop_hands [where v = v] assms)

lemma qk_step_hands:
  assumes "0 < n_seq d" and "0 < n_proj d" and "0 < n_emb d"
  shows "hands (pick (b_l1 p) 0) (ita_compute_qk_projection_step d p h fj) (next_l1 h)"
proof -
  note loop = loop_hands [where buff = "\<lambda>b. b" and q = "b_l1 p" and v = "next_l1 h"]
  let ?loops = "for_calls (n_seq d) (\<lambda>i. for_calls (n_proj d) (\<lambda>j b.
         then_calls [qk_bias d p j] (for_calls (n_emb d) (qk_job d p h fj i j) b)))"
  have "hands (pick (b_l1 p) 0) (fst (?loops 0)) (if True then next_l1 h else pick (b_l1 p) (snd (?loops 0)))"
  proof (rule loop [OF assms(1)], simp only: simp_thms, rule loop [OF assms(2)])
    fix i j b
    show "hands (pick (b_l1 p) b) (fst (then_calls [qk_bias d p j] (for_calls (n_emb d) (qk_job d p h fj i j) b)))
      (if i = n_seq d - 1 \<and> j = n_proj d - 1 then next_l1 h
       else pick (b_l1 p) (snd (then_calls [qk_bias d p j] (for_calls (n_emb d) (qk_job d p h fj i j) b))))"
      unfolding qk_bias_def
    proof (rule then_hands, unfold then_calls_def snd_conv, rule loop [OF assms(3)])
      fix k b
      show "hands (pick (b_l1 p) b) (fst (qk_job d p h fj i j k b))
        (if (i = n_seq d - 1 \<and> j = n_proj d - 1) \<and> k = n_emb d - 1 then next_l1 h else pick (b_l1 p) (snd (qk_job d p h fj i j k b)))"
        using hands_job(1) [of p b d h fj i j k] by (simp only: buff_job conj_assoc)
    qed
  qed
  then show ?thesis
    by (cases fj) (simp_all add: ita_compute_qk_projection_step_def hands_Dma)
qed

lemma value_step_hands:
  assumes "0 < n_seq d" and "0 < n_proj d" and "0 < n_emb d"
  shows "hands (pick (a_l1 p) 0) (ita_compute_value_projection_step d p h) (next_l1 h)"
proof -
  note loop = loop_hands [where buff = "\<lambda>b. b" and q = "a_l1 p" and v = "next_l1 h"]
  note loops = two_loops_hand [where buff = "\<lambda>b. b" and q = "a_l1 p" and v = "next_l1 h"]
  let ?loops = "for_calls (n_proj d) (\<lambda>i b. then_calls [qk_bias d p i]
       (for_calls (n_seq d) (\<lambda>j. for_calls (n_emb d) (value_job d p h i j)) b))"
  have "hands (pick (a_l1 p) 0) (fst (?loops 0)) (if True then next_l1 h else pick (a_l1 p) (snd (?loops 0)))"
  proof (rule loop [OF assms(2)], simp only: simp_thms)
    fix i b
    show "hands (pick (a_l1 p) b)
        (fst (then_calls [qk_bias d p i] (for_calls (n_seq d) (\<lambda>j. for_calls (n_emb d) (value_job d p h i j)) b)))
      (if i = n_proj d - 1 then next_l1 h else pick (a_l1 p)
        (snd (then_calls [qk_bias d p i] (for_calls (n_seq d) (\<lambda>j. for_calls (n_emb d) (value_job d p h i j)) b))))"
      unfolding qk_bias_def
      by (rule then_hands, unfold then_calls_def snd_conv, rule loops [OF assms(1,3)])
        (use hands_job(2) [of p _ d h i] in \<open>simp only: buff_job conj_assoc\<close>)
  qed
  then show ?thesis
    by (simp add: ita_compute_value_projection_step_def)
qed

lemma row_hands:
  assumes "0 < n_seq d" and "0 < n_proj d"
  shows "hands (pick (b_l1 p) 0) (ita_compute_qk_row d p h) (next_l1 h)"
    and "hands (pick (b_l1 p) 0) (fst (ita_compute_attention_row d p h)) (next_l1 h)"
proof -
  show "hands (pick (b_l1 p) 0) (ita_compute_qk_row d p h) (next_l1 h)"
    unfolding ita_compute_qk_row_def
    using two_loops_hand [where buff = "\<lambda>b. b" and q = "b_l1 p" and v = "next_l1 h" and final = True, OF assms,
        of "qk_row_job d p h" 0] hands_job(3) [of p _ d h]
    by (simp only: buff_job simp_thms if_True)
  show "hands (pick (b_l1 p) 0) (fst (ita_compute_attention_row d p h)) (next_l1 h)"
    unfolding ita_compute_attention_row_def
    using two_loops_hand [where buff = fst and q = "b_l1 p" and v = "next_l1 h" and final = True, OF assms(2,1),
        of "attention_job d p h" "(0, a_l1 p)"] hands_job(4) [of p]
    by (simp only: buff_job simp_thms if_True split_beta Let_def fst_conv surjective_pairing)
qed

lemma embedding_step_hands:
  assumes "0 < n_seq d" and "0 < n_proj d" and "0 < n_emb d"
  shows "\<exists>w. hands (pick (b_l1 p) 0) (fst (ita_compute_output_embedding_step d p h)) w"
proof -
  note loop = loop_hands [where buff = fst and q = "b_l1 p" and final = False, unfolded simp_thms if_False]
  let ?loops = "for_calls (n_seq d) (\<lambda>i. for_calls (n_emb d) (\<lambda>j s.
        then_calls [embedding_bias d p j] (for_calls (n_proj d) (embedding_job d p h i j) s)))"
  have "hands (pick (b_l1 p) (fst s)) (fst (?loops s)) (pick (b_l1 p) (fst (snd (?loops s))))" for s
    unfolding embedding_bias_def
    by (intro loop assms then_hands, unfold then_calls_def snd_conv, rule loop [OF assms(2)])
      (use hands_job(5) in \<open>simp only: buff_job\<close>)
  from this [of "(0, a_l1 p)"] show ?thesis
    by (auto simp: ita_compute_output_embedding_step_def split_beta Let_def)
qed

text \<open>A step takes over its first buffer of weights and hands over that of the next step.\<close>

lemma step_hands:
  assumes "0 < n_seq d" and "0 < n_proj d" and "0 < n_emb d" and "next_l1 h = w'"
  shows "w = fst (b_l1 p) \<Longrightarrow> hands w (ita_compute_qk_projection_step d p h fj) w'"
    and "w = fst (a_l1 p) \<Longrightarrow> hands w (ita_compute_value_projection_step d p h) w'"
    and "w = fst (b_l1 p) \<Longrightarrow> hands w (ita_compute_qk_row d p h) w'"
    and "w = fst (b_l1 p) \<Longrightarrow> hands w (fst (ita_compute_attention_row d p h)) w'"
    and "w = fst (b_l1 p) \<Longrightarrow> \<exists>w''. hands w (fst (ita_compute_output_embedding_step d p h)) w''"
proof -
  have first: "pick q 0 = fst q" for q by (simp add: pick_def)
  show "w = fst (b_l1 p) \<Longrightarrow> hands w (ita_compute_qk_projection_step d p h fj) w'"
    "w = fst (a_l1 p) \<Longrightarrow> hands w (ita_compute_value_projection_step d p h) w'"
    "w = fst (b_l1 p) \<Longrightarrow> hands w (ita_compute_qk_row d p h) w'"
    "w = fst (b_l1 p) \<Longrightarrow> hands w (fst (ita_compute_attention_row d p h)) w'"
    "w = fst (b_l1 p) \<Longrightarrow> \<exists>w''. hands w (fst (ita_compute_output_embedding_step d p h)) w''"
    using qk_step_hands [OF assms(1-3), of p h fj] value_step_hands [OF assms(1-3), of p h]
      row_hands [OF assms(1,2), of p h] embedding_step_hands [OF assms(1-3), of p h] assms(4)
    by (simp_all only: first)
qed

lemma attention_row_hands:
  assumes "0 < n_seq d" and "0 < n_proj d" and "0 < n_emb d"
  shows "hands (fst (input_b0_buff h)) (fst (attention_row d h i a0))
    (if i = n_seq d - 1 then fst (input_b2_buff h) else fst (input_b0_buff h))"
  unfolding attention_row_def Let_def then_calls_def fst_conv
  by (rule hands_append, (rule step_hands(3,4) [OF assms]; simp)+)

lemma head_hands:
  assumes "0 < n_seq d" and "0 < n_proj d" and "0 < n_emb d"
  shows "\<exists>w. hands (fst (input_b0_buff h)) (fst (attention_head d h)) w"
proof -
  note steps = step_hands [OF assms]
  let ?rows = "for_calls (n_seq d) (attention_row d h) (input_a0_buff h)"
  have q: "hands (fst (input_b0_buff h)) (q_projection d h) (fst (input_b1_buff h))"
    unfolding q_projection_def by (rule steps(1); simp)
  have k: "hands (fst (input_b1_buff h)) (k_projection d h) (fst (input_b2_buff h))"
    unfolding k_projection_def by (rule steps(1); simp)
  have v: "hands (fst (input_b2_buff h)) (v_projection d h) (fst (input_b0_buff h))"
    unfolding v_projection_def by (rule steps(2); simp)
  let ?I = "\<lambda>i w a0. w = (if i = n_seq d then fst (input_b2_buff h) else fst (input_b0_buff h))"
  have "\<exists>w'. hands (fst (input_b0_buff h)) (fst ?rows) w' \<and> ?I (n_seq d) w' (snd ?rows)"
  proof (rule for_calls_hands [where I = ?I])
    fix i w a0
    assume i: "i < n_seq d" and w: "w = (if i = n_seq d then fst (input_b2_buff h) else fst (input_b0_buff h))"
    have "(Suc i = n_seq d) = (i = n_seq d - 1)" using assms(1) by auto
    with attention_row_hands [OF assms, of h i a0] i w
    show "\<exists>w'. hands w (fst (attention_row d h i a0)) w' \<and> ?I (Suc i) w' (snd (attention_row d h i a0))" by auto
  qed (use assms(1) in simp)
  then have r: "hands (fst (input_b0_buff h)) (fst ?rows) (fst (input_b2_buff h))" by simp
  have "\<exists>w. hands (fst (input_b2_buff h)) (fst (output_projection d h)) w"
    unfolding output_projection_def by (rule steps(5) [OF refl]) simp
  then obtain w where out: "hands (fst (input_b2_buff h)) (fst (output_projection d h)) w" by blast
  have tail: "hands w [Wait_job, Dma_start a b n, Dma_wait] w" for a b n
    by (simp add: hands_def well_set_def jobs_of_def)
  show ?thesis
    unfolding attention_head_def Let_def split_beta fst_conv
    by (intro exI) (rule hands_append [OF q hands_append [OF k hands_append [OF v hands_append [OF r hands_append [OF out tail]]]]])
qed

text \<open>How many jobs there are.\<close>

lemma triggers_loop:
  assumes "\<And>k s. triggers (fst (f k s)) = c"
  shows "triggers (fst (for_calls n f s)) = n * c"
proof (induction n)
  case (Suc n)
  then show ?case using assms by (simp add: for_calls_Suc split_beta Let_def)
qed simp

lemma triggers_job:
  "triggers (fst (qk_job d p h fj i j k b)) = 1" "triggers (fst (value_job d p h i j k b)) = 1"
  "triggers (fst (qk_row_job d p h j k b)) = 1" "triggers (fst (attention_job d p h j k s)) = 1"
  "triggers (fst (embedding_job d p h i j k s)) = 1"
  by (simp_all add: qk_job_def value_job_def qk_row_job_def attention_job_def embedding_job_def write_prev_def
      Let_def split_beta)

lemma triggers_then: "triggers (fst (then_calls [Dma_start a b n] r)) = triggers (fst r)"
  by (simp add: then_calls_def)

lemma triggers_step:
  "triggers (ita_compute_qk_projection_step d p h fj) = n_seq d * (n_proj d * n_emb d)"
  "triggers (ita_compute_value_projection_step d p h) = n_proj d * (n_seq d * n_emb d)"
  "triggers (ita_compute_qk_row d p h) = n_seq d * n_proj d"
  "triggers (fst (ita_compute_attention_row d p h)) = n_proj d * n_seq d"
  "triggers (fst (ita_compute_output_embedding_step d p h)) = n_seq d * (n_emb d * n_proj d)"
proof -
  note jobs = triggers_job triggers_then triggers_loop
  show "triggers (ita_compute_qk_projection_step d p h fj) = n_seq d * (n_proj d * n_emb d)"
    by (simp add: ita_compute_qk_projection_step_def qk_bias_def jobs triggers_loop [where c = "n_proj d * n_emb d"]
        triggers_loop [where c = "n_emb d"] triggers_loop [where c = 1])
  show "triggers (ita_compute_value_projection_step d p h) = n_proj d * (n_seq d * n_emb d)"
    by (simp add: ita_compute_value_projection_step_def qk_bias_def jobs triggers_loop [where c = "n_seq d * n_emb d"]
        triggers_loop [where c = "n_emb d"] triggers_loop [where c = 1])
  show "triggers (ita_compute_qk_row d p h) = n_seq d * n_proj d"
    by (simp add: ita_compute_qk_row_def jobs triggers_loop [where c = "n_proj d"] triggers_loop [where c = 1])
  show "triggers (fst (ita_compute_attention_row d p h)) = n_proj d * n_seq d"
    by (simp add: ita_compute_attention_row_def split_beta Let_def jobs triggers_loop [where c = "n_seq d"] triggers_loop [where c = 1])
  show "triggers (fst (ita_compute_output_embedding_step d p h)) = n_seq d * (n_emb d * n_proj d)"
    by (simp add: ita_compute_output_embedding_step_def embedding_bias_def split_beta Let_def jobs
        triggers_loop [where c = "n_emb d * n_proj d"] triggers_loop [where c = "n_proj d"] triggers_loop [where c = 1])
qed

lemma triggers_head:
  "triggers (fst (attention_head d h)) = 4 * (n_seq d * n_proj d * n_emb d) + 2 * (n_seq d * n_seq d * n_proj d)"
proof -
  have "triggers (fst (attention_row d h i a0)) = 2 * (n_seq d * n_proj d)" for i a0
    by (simp add: attention_row_def then_calls_def Let_def triggers_step)
  then show ?thesis
    by (simp add: attention_head_def split_beta Let_def q_projection_def k_projection_def v_projection_def
        output_projection_def triggers_step triggers_loop [where c = "2 * (n_seq d * n_proj d)"])
qed

text \<open>A run ends once every wait for the accelerator does; its jobs are those of the calls.\<close>

lemma run_ends:
  assumes "\<forall>s. ita_wait_job env s \<noteq> None"
  shows "\<exists>js r. run_layer q env cs prog st = Some (js, r) \<and> map fst js = fst (programmed cs prog)"
proof (induction cs arbitrary: prog st)
  case (Cons c cs)
  have "\<exists>st'. perform q env c st = Some st'"
    using assms by (cases c; cases st) (auto split: option.splits)
  then obtain st' where "perform q env c st = Some st'" ..
  with Cons [of "case c of Set_addresses _ _ _ _ _ \<Rightarrow> c | _ \<Rightarrow> prog" st'] show ?case
    by (auto simp: split_beta Let_def)
qed simp

lemma programmed_length: "length (fst (programmed cs prog)) = triggers cs"
  by (induction cs prog rule: programmed.induct) (auto simp: split_beta Let_def)

lemma chained_nth: "chained w xs w' \<Longrightarrow> Suc n < length xs \<Longrightarrow> next_weights (xs ! n) = weights (xs ! Suc n)"
proof (induction xs arbitrary: w n)
  case (Cons x xs)
  then show ?case by (cases xs; cases n) auto
qed simp

text \<open>C12: across all the steps of an attention head, whatever the shapes and however fast the DMA engine,
  each job is given exactly the weights that the job before it announced to the accelerator: the first
  projection starts with its first buffer, every step ends by announcing the first buffer of the step
  after it, and the head runs \<open>4 S P E + 2 S S P\<close> jobs.\<close>

theorem head_next_weights:
  assumes "0 < n_seq d" and "0 < n_proj d" and "0 < n_emb d" and "\<forall>s. ita_wait_job env s \<noteq> None"
  shows "\<exists>js r. run_layer q env (fst (attention_head d h)) prog st = Some (js, r)
    \<and> length js = 4 * (n_seq d * n_proj d * n_emb d) + 2 * (n_seq d * n_seq d * n_proj d)
    \<and> weights (fst (js ! 0)) = fst (input_b0_buff h)
    \<and> (\<forall>n. Suc n < length js \<longrightarrow> next_weights (fst (js ! n)) = weights (fst (js ! Suc n)))"
proof -
  let ?cs = "fst (attention_head d h)"
  obtain js r where run: "run_layer q env ?cs prog st = Some (js, r)" and js: "map fst js = fst (programmed ?cs prog)"
    using run_ends [OF assms(4)] by blast
  obtain w where "hands (fst (input_b0_buff h)) ?cs w" using head_hands [OF assms(1-3)] by blast
  then have chain: "chained (fst (input_b0_buff h)) (map fst js) w"
    by (simp add: hands_def well_set_def js)
  have len: "length js = 4 * (n_seq d * n_proj d * n_emb d) + 2 * (n_seq d * n_seq d * n_proj d)"
    using arg_cong [OF js, of length] by (simp add: programmed_length triggers_head)
  then have "0 < length js" using assms(1-3) by simp
  then have "weights (fst (js ! 0)) = fst (input_b0_buff h)" using chain by (cases js) auto
  moreover have "next_weights (fst (js ! n)) = weights (fst (js ! Suc n))" if "Suc n < length js" for n
    using chained_nth [OF chain, of n] that by simp
  ultimately show ?thesis using run len by (intro exI [of _ js] exI [of _ r]) simp
qed

definition sample_head :: head where
  "sample_head = \<lparr>input_q = 0x48000000, input_k = 0x48001000, input_Wq = 0x48002000, input_Wk = 0x48003000,
     input_Wv = 0x48004000, input_Wo = 0x48005000, input_Bq = 0x48006000, input_Bk = 0x48006100, input_Bv = 0x48006200,
     input_Bo = 0x48006300, interm_Pq = 0x48007000, interm_Pk = 0x48008000, interm_Pv = 0x48009000, interm_qk = 0x4800A000,
     interm_attention = 0x4800B000, interm_output = 0x4800C000,
     input_a0_buff = (0x40801000, 0x40801100), input_a1_buff = (0x40801200, 0x40801300),
     input_b0_buff = (0x40801400, 0x40801500), input_b1_buff = (0x40801600, 0x40801700),
     input_b2_buff = (0x40801800, 0x40801900), output_0_buff = (0x40801A00, 0x40801B00),
     output_1_buff = (0x40801C00, 0x40801D00), output_2_buff = (0x40801E00, 0x40801F00),
     input_bias_0 = 0x40802000, input_bias_1 = 0x40802100\<rparr>"

text \<open>The shape S64\_E128\_P64, with tiles of four by four.\<close>

definition short_dims :: dims where
  "short_dims = \<lparr>n_seq = 1, n_proj = 1, n_emb = 2, ts_seq = 4, ts_proj = 4, ts_emb = 4\<rparr>"

theorem head_next_weights_witness:
  "\<exists>js r. run_layer sample_sdk ita_idle_env (fst (attention_head short_dims sample_head)) Trigger ([], boot) = Some (js, r)
    \<and> length js = 10 \<and> next_weights (fst (js ! 1)) = weights (fst (js ! 2)) \<and> weights (fst (js ! 0)) = 0x40801400"
proof -
  have "\<forall>s. ita_wait_job ita_idle_env s \<noteq> None" using sample_quiet by (simp add: quiet_on_def)
  from head_next_weights [OF _ _ _ this, of short_dims sample_sdk sample_head Trigger "([], boot)"]
  show ?thesis by (auto simp: short_dims_def sample_head_def numeral_2_eq_2)
qed

subsection \<open>A second repetition\<close>

lemma for_calls_Cons: "for_calls (Suc n) f s = (let (c, s) = f 0 s; (cs, s) = for_calls n (\<lambda>k. f (Suc k)) s in (c @ cs, s))"
proof (induction n)
  case (Suc n)
  then show ?case
    by (subst for_calls_Suc) (simp add: for_calls_Suc [of n "\<lambda>k. f (Suc k)"] split_beta Let_def)
qed (simp add: for_calls_def split_beta)

lemma for_calls_state:
  assumes "\<And>k s. k < n \<Longrightarrow> I k s \<Longrightarrow> I (Suc k) (snd (f k s))" and "I 0 s"
  shows "I n (snd (for_calls n f s))"
  using assms by (induction n) (simp_all add: for_calls_Suc split_beta Let_def)

text \<open>With a single tile of the sequence the output projection sets both entries of its array of input
  buffers, one per job, to the buffer of the last attention tile.\<close>

definition given_to :: "u32 \<Rightarrow> nat \<Rightarrow> nat \<times> (u32 \<times> u32) \<Rightarrow> bool" where
  "given_to v t s \<longleftrightarrow> fst s = t mod 2 \<and> (1 \<le> t \<longrightarrow> fst (snd s) = v) \<and> (2 \<le> t \<longrightarrow> snd (snd s) = v)"

lemma given_to_both: "given_to v t s \<Longrightarrow> 2 \<le> t \<Longrightarrow> snd s = (v, v)"
  by (simp add: given_to_def prod_eq_iff)

lemma embedding_job_gives:
  assumes "n_seq d = 1" and "given_to (prev_l1 h) t s"
  shows "given_to (prev_l1 h) (Suc t) (snd (embedding_job d p h i j k s))"
proof -
  have "snd (embedding_job d p h i j k s) = (1 - fst s, put (snd s) (fst s) (prev_l1 h))"
    using assms(1) by (simp add: embedding_job_def Let_def split_beta)
  moreover have "t = 0 \<or> t = 1 \<or> 2 \<le> t" by arith
  ultimately show ?thesis
    using assms(2) by (auto simp: given_to_def put_def mod_Suc)
qed

lemma embedding_step_gives:
  assumes "n_seq d = 1" and "2 \<le> n_emb d * n_proj d"
  shows "snd (ita_compute_output_embedding_step d p h) = (prev_l1 h, prev_l1 h)"
proof -
  let ?row = "\<lambda>i j s. then_calls [embedding_bias d p j] (for_calls (n_proj d) (embedding_job d p h i j) s)"
  have inner: "given_to (prev_l1 h) (Suc j * n_proj d) (snd (?row i j s))" if "given_to (prev_l1 h) (j * n_proj d) s" for i j s
  proof -
    have "given_to (prev_l1 h) (j * n_proj d + n_proj d) (snd (for_calls (n_proj d) (embedding_job d p h i j) s))"
      by (rule for_calls_state [where I = "\<lambda>k. given_to (prev_l1 h) (j * n_proj d + k)"])
        (use that embedding_job_gives [OF assms(1)] in simp_all)
    then show ?thesis by (simp add: then_calls_def add.commute)
  qed
  have "given_to (prev_l1 h) (n_emb d * n_proj d) (snd (for_calls (n_emb d) (?row 0) (0, a_l1 p)))"
    by (rule for_calls_state [where I = "\<lambda>j. given_to (prev_l1 h) (j * n_proj d)"])
      (use inner in \<open>simp_all add: given_to_def\<close>)
  from given_to_both [OF this assms(2)]
  have "snd (snd (for_calls (n_emb d) (?row 0) (0, a_l1 p))) = (prev_l1 h, prev_l1 h)" .
  then show ?thesis
    by (simp add: ita_compute_output_embedding_step_def assms(1) for_calls_Suc split_beta Let_def)
qed

text \<open>The first two jobs of a projection.\<close>

lemma for_calls_front:
  "0 < n \<Longrightarrow> \<exists>rest. fst (for_calls n f s) = fst (f 0 s) @ rest"
  "2 \<le> n \<Longrightarrow> \<exists>rest. fst (for_calls n f s) = fst (f 0 s) @ fst (f 1 (snd (f 0 s))) @ rest"
proof -
  show front: "\<exists>rest. fst (for_calls n f s) = fst (f 0 s) @ rest" if "0 < n" for n and f :: "nat \<Rightarrow> 'a \<Rightarrow> ita_call list \<times> 'a" and s
    using that by (cases n) (simp_all add: for_calls_Cons split_beta Let_def)
  assume "2 \<le> n"
  then obtain m where "n = Suc m" "0 < m" by (cases n) auto
  with front [of m "\<lambda>k. f (Suc k)" "snd (f 0 s)"]
  show "\<exists>rest. fst (for_calls n f s) = fst (f 0 s) @ fst (f 1 (snd (f 0 s))) @ rest"
    by (auto simp: for_calls_Cons split_beta Let_def)
qed

lemma qk_step_front:
  assumes "0 < n_seq d" and "0 < n_proj d" and "2 \<le> n_emb d"
  shows "\<exists>rest. ita_compute_qk_projection_step d p h False =
    qk_bias d p 0 # fst (qk_job d p h False 0 0 0 0) @ fst (qk_job d p h False 0 0 1 1) @ rest"
proof -
  let ?inner = "for_calls (n_emb d) (qk_job d p h False 0 0) 0"
  let ?middle = "\<lambda>i. for_calls (n_proj d) (\<lambda>j b. then_calls [qk_bias d p j] (for_calls (n_emb d) (qk_job d p h False i j) b))"
  obtain r1 where r1: "fst (for_calls (n_seq d) ?middle 0) = fst (?middle 0 0) @ r1"
    using for_calls_front(1) [OF assms(1), of ?middle 0] ..
  obtain r2 where r2: "fst (?middle 0 0) = fst (then_calls [qk_bias d p 0] ?inner) @ r2"
    using for_calls_front(1) [OF assms(2), of "\<lambda>j b. then_calls [qk_bias d p j] (for_calls (n_emb d) (qk_job d p h False 0 j) b)" 0] ..
  obtain r3 where r3: "fst ?inner = fst (qk_job d p h False 0 0 0 0) @ fst (qk_job d p h False 0 0 1 1) @ r3"
    using for_calls_front(2) [OF assms(3), of "qk_job d p h False 0 0" 0] unfolding buff_job diff_zero by blast
  have "ita_compute_qk_projection_step d p h False = [qk_bias d p 0] @ fst ?inner @ r2 @ r1"
    unfolding ita_compute_qk_projection_step_def if_False r1 r2 by (simp only: then_calls_def fst_conv append_Nil append_assoc)
  then show ?thesis unfolding r3 append_assoc append_Cons append_Nil by blast
qed



subsection \<open>Half of every tile\<close>

text \<open>What a run leaves alone, waits for the DMA engine included.\<close>

lemma perform_any:
  assumes "dma_async q pending" and "quiet_on env K"
  shows "\<exists>e' s'. perform q env c (e, s) = Some (e', s') \<and> dests (pending e') \<subseteq> dests (pending e @ dmas [c]) \<and>
    (\<forall>x\<in>K. x \<notin> dests (pending e @ dmas [c]) \<longrightarrow> mem (hw s') x = mem (hw s) x)"
proof (cases "c = Dma_wait")
  case True
  then show ?thesis using dma_asyncD(3,4) [OF assms(1)] by (simp add: on_memory_def split_beta)
next
  case False
  then show ?thesis using perform_keeps [OF assms False, of e s] by fastforce
qed

lemma layer_keeps:
  assumes "dma_async q pending" and "quiet_on env K"
  shows "\<exists>js prog' e' s'. run_layer q env cs prog (e, s) = Some (js, prog', e', s') \<and> map fst js = fst (programmed cs prog) \<and>
    (\<forall>j\<in>set js. \<forall>x\<in>K. x \<notin> dests (pending e) \<union> dests (dmas cs) \<longrightarrow> mem (hw (snd (snd j))) x = mem (hw s) x)"
proof (induction cs arbitrary: prog e s)
  case (Cons c cs)
  obtain e1 s1 where p: "perform q env c (e, s) = Some (e1, s1)" "dests (pending e1) \<subseteq> dests (pending e @ dmas [c])"
    and k: "\<forall>x\<in>K. x \<notin> dests (pending e @ dmas [c]) \<longrightarrow> mem (hw s1) x = mem (hw s) x"
    using perform_any [OF assms, of c e s] by auto
  let ?prog = "case c of Set_addresses _ _ _ _ _ \<Rightarrow> c | _ \<Rightarrow> prog"
  obtain js prog' e' s' where r: "run_layer q env cs ?prog (e1, s1) = Some (js, prog', e', s')"
      "map fst js = fst (programmed cs ?prog)"
    and k': "\<forall>j\<in>set js. \<forall>x\<in>K. x \<notin> dests (pending e1) \<union> dests (dmas cs) \<longrightarrow> mem (hw (snd (snd j))) x = mem (hw s1) x"
    using Cons.IH [of ?prog e1 s1] by auto
  have split: "dests (dmas (c # cs)) = dests (dmas [c]) \<union> dests (dmas cs)" using dmas_append [of "[c]" cs] by simp
  have "mem (hw (snd (snd j))) x = mem (hw s) x"
    if "j \<in> set (if c = Trigger then (prog, e, s) # js else js)" "x \<in> K" "x \<notin> dests (pending e) \<union> dests (dmas (c # cs))" for j x
  proof -
    have "mem (hw s1) x = mem (hw s) x" if "x \<notin> dests (pending e @ dmas [c])" using k that \<open>x \<in> K\<close> by blast
    moreover have "x \<notin> dests (pending e1) \<union> dests (dmas cs)" "x \<notin> dests (pending e @ dmas [c])"
      using that(3) p(2) unfolding split by auto
    ultimately show ?thesis using that(1,2) k' by (auto split: if_splits)
  qed
  moreover have "map fst (if c = Trigger then (prog, e, s) # js else js) = fst (programmed (c # cs) prog)"
    by (simp add: r(2) split_beta Let_def)
  moreover have "run_layer q env (c # cs) prog (e, s) = Some (if c = Trigger then (prog, e, s) # js else js, prog', e', s')"
    by (simp add: p(1) r(1))
  ultimately show ?case by blast
qed simp

text \<open>The memory the copies of a projection step may write.\<close>

definition qk_dests :: "dims \<Rightarrow> operands \<Rightarrow> hand_over \<Rightarrow> addr set" where
  "qk_dests d p h = (\<Union>b. block (pick (a_l1 p) b) (size_a d div 2) \<union> block (pick (b_l1 p) b) (size_b d div 2))
     \<union> block (bias_l1 p) (size_bias d div 2) \<union> block (next_l1 h) (next_size h div 2) \<union> block (prev_l2 h) (prev_size h div 2)
     \<union> block (out_l2 p) (n_seq d * n_proj d * size_out d)"

lemma dest_le: "dst_block (dst, src, of_nat n) \<subseteq> block dst n"
proof -
  have "unat (of_nat n :: u32) \<le> n" by (simp add: unat_of_nat)
  then show ?thesis unfolding dst_block_def by (simp add: block_mono)
qed

lemma dests_loop:
  assumes "\<And>k s. k < n \<Longrightarrow> dests (dmas (fst (f k s))) \<subseteq> D"
  shows "dests (dmas (fst (for_calls n f s))) \<subseteq> D"
  using assms by (induction n) (simp_all add: for_calls_Suc split_beta Let_def)

lemma prev_tile:
  assumes "i < ns" and "j < np"
  shows "(if j = 0 then i - 1 else i) * np + (if j = 0 then np - 1 else j - 1) < ns * (np :: nat)"
proof -
  let ?i = "if j = 0 then i - 1 else i"
  have "?i * np + (if j = 0 then np - 1 else j - 1) < Suc ?i * np" using assms(2) by auto
  also have "\<dots> \<le> ns * np" using assms(1) by (intro mult_le_mono1) auto
  finally show ?thesis .
qed

lemma qk_job_dests:
  assumes "i < n_seq d" and "j < n_proj d"
  shows "dests (dmas (fst (qk_job d p h fj i j k b))) \<subseteq> qk_dests d p h"
proof -
  define u where "u = (if j = 0 then i - 1 else i) * n_proj d + (if j = 0 then n_proj d - 1 else j - 1)"
  have "block (out_l2 p + of_nat (u * size_out d)) (size_out d div 2) \<subseteq> block (out_l2 p) (n_seq d * n_proj d * size_out d)"
    using block_mono [of "size_out d div 2" "size_out d"] tile_block [OF prev_tile [OF assms, folded u_def], of "out_l2 p" "size_out d"]
    by fastforce
  then have sub: "block (out_l2 p + of_nat (u * size_out d)) (size_out d div 2) \<subseteq> qk_dests d p h"
    "block (pick (a_l1 p) c) (size_a d div 2) \<subseteq> qk_dests d p h" "block (pick (b_l1 p) c) (size_b d div 2) \<subseteq> qk_dests d p h"
    "block (next_l1 h) (next_size h div 2) \<subseteq> qk_dests d p h" "block (prev_l2 h) (prev_size h div 2) \<subseteq> qk_dests d p h" for c
    by (auto simp: qk_dests_def)
  note le = sub [THEN subset_trans [OF dest_le]]
  show ?thesis
    unfolding qk_job_def Let_def fst_conv REDUCTION_FACTOR_def write_prev_def u_def [symmetric]
    using le by (simp del: of_nat_mult)
qed

lemma qk_step_dests: "dests (dmas (ita_compute_qk_projection_step d p h fj)) \<subseteq> qk_dests d p h"
proof -
  have first: "dests (dmas [Dma_start (pick (b_l1 p) 0) (b_l2 p) (size_b d div 2)]) \<subseteq> qk_dests d p h"
    and bias: "dests (dmas [qk_bias d p j]) \<subseteq> qk_dests d p h" for j
    using dest_le by (fastforce simp: qk_bias_def qk_dests_def REDUCTION_FACTOR_def)+
  have row: "dests (dmas (fst (then_calls [qk_bias d p j] (for_calls (n_emb d) (qk_job d p h fj i j) b)))) \<subseteq> qk_dests d p h"
    if "i < n_seq d" "j < n_proj d" for i j b
    unfolding then_calls_def fst_conv dmas_append dests_simps
    by (intro Un_least bias dests_loop qk_job_dests that)
  show ?thesis
    unfolding ita_compute_qk_projection_step_def dmas_append dests_simps REDUCTION_FACTOR_def
    by (intro Un_least dests_loop row) (use first in auto)
qed

fun input :: "ita_call \<Rightarrow> u32" where
  "input (Set_addresses ia wa wn ba oa) = ia"
| "input _ = 0"

text \<open>Every job of the step reads one of the two input buffers.\<close>

definition reads_from :: "u32 set \<Rightarrow> ita_call list \<Rightarrow> bool" where
  "reads_from S cs \<longleftrightarrow> well_set cs \<and> input ` set (jobs_of cs) \<subseteq> S"

lemma reads_from_append: "reads_from S xs \<Longrightarrow> reads_from S ys \<Longrightarrow> reads_from S (xs @ ys)"
  using well_set_append [of xs ys] by (auto simp: reads_from_def)

lemma reads_from_Nil: "reads_from S []"
  by (simp add: reads_from_def well_set_def jobs_of_def)

lemma reads_from_Dma: "reads_from S cs \<Longrightarrow> reads_from S (Dma_start a b n # cs)"
  by (simp add: reads_from_def well_set_def jobs_of_def split_beta Let_def)

lemma reads_from_loop: "(\<And>k s. reads_from S (fst (f k s))) \<Longrightarrow> reads_from S (fst (for_calls n f s))"
  by (induction n) (simp_all add: for_calls_Suc split_beta Let_def reads_from_Nil reads_from_append)

text \<open>With one tile of the sequence (or of the embedding space) every job of the output projection reads
  the same tile, however many tiles of the projection space there are.\<close>

lemma embedding_reads_one_tile:
  assumes "\<not> (n_seq d > 1 \<and> n_emb d > 1)"
  shows "reads_from {prev_l1 h} (fst (ita_compute_output_embedding_step d p h))"
proof -
  have put: "pick (put q b v) b = v" for q b v by (simp add: pick_def put_def)
  have job: "reads_from {prev_l1 h} (fst (embedding_job d p h i j k s))" for i j k s
    unfolding embedding_job_def Let_def split_beta if_not_P [OF assms]
    by (simp add: reads_from_def well_set_def jobs_of_def put programmed_job split del: if_split)
  have "reads_from {prev_l1 h} (fst (then_calls [embedding_bias d p j] (for_calls (n_proj d) (embedding_job d p h i j) s)))"
    for i j s
    unfolding then_calls_def fst_conv embedding_bias_def append_Cons append_Nil
    by (intro reads_from_Dma reads_from_loop job)
  then show ?thesis
    unfolding ita_compute_output_embedding_step_def Let_def split_beta fst_conv
    by (intro reads_from_loop)
qed

lemma pick_in: "pick q b = fst q \<or> pick q b = snd q"
  by (simp add: pick_def)

lemma qk_step_reads: "reads_from {fst (a_l1 p), snd (a_l1 p)} (ita_compute_qk_projection_step d p h fj)"
proof -
  have job: "reads_from {fst (a_l1 p), snd (a_l1 p)} (fst (qk_job d p h fj i j k b))" for i j k b
    by (simp add: reads_from_def well_set_def jobs_of_def qk_job_def pick_in programmed_job split del: if_split)
  have "reads_from {fst (a_l1 p), snd (a_l1 p)} (fst (then_calls [qk_bias d p j] (for_calls (n_emb d) (qk_job d p h fj i j) b)))"
    for i j b
    unfolding then_calls_def fst_conv qk_bias_def append_Cons append_Nil
    by (intro reads_from_Dma reads_from_loop job)
  then have "reads_from {fst (a_l1 p), snd (a_l1 p)} (fst (for_calls (n_seq d) (\<lambda>i. for_calls (n_proj d) (\<lambda>j b.
         then_calls [qk_bias d p j] (for_calls (n_emb d) (qk_job d p h fj i j) b))) 0))"
    by (intro reads_from_loop)
  then show ?thesis
    by (cases fj) (simp_all add: ita_compute_qk_projection_step_def reads_from_Dma)
qed

definition second_half :: "dims \<Rightarrow> u32 \<Rightarrow> addr set" where
  "second_half d a = block (a + of_nat (size_a d div 2)) (size_a d - size_a d div 2)"


definition sample_step :: operands where
  "sample_step = \<lparr>a_l2 = 0x48000000, b_l2 = 0x48002000, bias_l2 = 0x48006000, out_l2 = 0x48007000,
     a_l1 = (0x40801000, 0x40801100), b_l1 = (0x40801400, 0x40801500), bias_l1 = 0x40802000, out_l1 = (0x40801A00, 0x40801B00)\<rparr>"

definition sample_hand_over :: hand_over where
  "sample_hand_over = \<lparr>prev_l2 = 0, prev_l1 = 0, prev_size = 0, next_l2 = 0x48003000, next_l1 = 0x40801600, next_size = 16\<rparr>"


end
