(* ===== verification/Spec2Isabelle.thy ===== *)
theory Spec2Isabelle
  imports Alloc Clint Hyperbus Uart Fll Offload Device Putc Htif Padframe TestCluster HtifRefines TestHost Dma ItaUtils ItaMatmul ItaHead
begin

text \<open>
  Verification library for chimera-sdk, the bare-metal SDK of the Chimera SoCs: a RISC-V host
  (64 bits on chimera-open, 32 on chimera-convolve) and five Snitch clusters of RV32 cores that
  share one 32-bit physical address space.

  \<^bold>\<open>The program.\<close> The host runtime (\<open>host/runtime\<close>) offers memory allocation, time and sleep, a
  console and frequency switching; they rest on the drivers of \<open>host/drivers\<close>. The offload driver
  places function, argument and stack pointer of each core in the shared region
  (\<open>shared.h\<close>), sets the boot address and raises software interrupts. A cluster core enters
  through the trampoline (\<open>targets/*/devices/snitch_cluster\<close>), sets the cluster's busy flag,
  initialises its runtime (\<open>devices/snitch_cluster/runtime\<close>), prints through a request that the
  host serves, and leaves an exit code that the host waits for.

  \<^bold>\<open>The theories.\<close>
  \<^item> \<open>Prelude\<close>: machine types, C faults as values, word lemmas. \<open>Loops\<close>: a C loop as a partial
    function to an option, where None is a loop that never ends, with the rules for its value,
    its invariants and its end (\<open>loop_returns\<close>, \<open>loop_SomeD\<close>, \<open>loop_diverges\<close>).
  \<^item> \<open>Mmio\<close>: \<open>util.h\<close> on a machine of byte memory, control registers and an access trace; the
    hardware is an arbitrary function \<open>env\<close> that acts before every access. \<open>Bus\<close>: the locale
    \<open>reg_bus\<close> of register files with its two interpretations (plain memory, and a machine whose
    environment leaves the registers alone), and the busy-wait loop \<open>poll32\<close> with exact
    conditions for its return. \<open>SocMap\<close>: address map, register offsets, cluster geometry.
  \<^item> \<open>WordMem\<close>, \<open>Alloc\<close>: \<open>alloc.c\<close>, with the C structure \<open>MemoryBlock\<close> laid out in bytes for both
    pointer widths; an abstract heap of spans and a first-fit specification; the locale of heap
    clients, interpreted on \<open>region_malloc\<close> and \<open>region_free\<close>.
  \<^item> \<open>Clint\<close>: \<open>clint32.c\<close>, \<open>clint64.c\<close> and the trap vector; time is what the environment
    makes of the two counter words. The locale \<open>mtime_driver\<close> holds what both drivers share.
    \<open>Hyperbus\<close>: \<open>hyperbus.h\<close> and \<open>hyperbus.c\<close>.
  \<^item> \<open>Uart\<close>: the HAL interface, the APB UART driver, \<open>uart.c\<close> and the four back ends of
    \<open>putc.c\<close>; the locale \<open>serial_driver\<close> is what the console needs of a driver.
    \<open>Fll\<close>: both \<open>fll.c\<close>, the measuring function and the GPIO write being parameters.
  \<^item> \<open>Offload\<close>: \<open>offload_snitchCluster.c\<close>. \<open>Device\<close>: busy flag, trampoline, \<open>snrt_init\<close> and
    \<open>snrt_exit\<close>. \<open>Putc\<close>: \<open>snrt_putchar\<close> of one core on the machine. \<open>Htif\<close>: the same function and the
    host's polling loop as a step relation with any number of cores, where the order of the
    accesses of different cores is free. \<open>Padframe\<close>: the pad drivers of chimera-convolve.
  \<^item> \<open>TestCluster\<close>: the test runner \<open>test_cluster\<close> of chimera-convolve, phase by phase, as actions on
    the machine, the input still to be read and the bytes printed; it calls the FLL, CLINT, offload and
    busy-flag models above. \<open>Console\<close>: a line from \<open>snrt_putchar\<close> of a core through the mailbox to
    the console of the polling loop. \<open>HtifRefines\<close>: \<open>snrt_putchar\<close> and the polling loop, on the machine,
    take the steps of \<open>Htif\<close> (a simulation by the relation \<open>represents\<close>). \<open>TestHost\<close>: the host program of
    a cluster test (\<open>tests/snitchCluster/snrt\<close>), whose loop answers in \<open>host_to_device\<close>, on either target.
  \<^item> \<open>Dma\<close>: the contract of an asynchronous DMA engine. \<open>ItaUtils\<close>: the double-buffered comparison
    \<open>check\<close> of the ITA library. \<open>Ita\<close>, \<open>ItaMatmul\<close>: the control functions of the accelerator, and its two
    matrix products as lists of calls with their runs on the machine. \<open>ItaAttention\<close>, \<open>ItaHead\<close>: the five
    steps of an attention head, their order in the application \<open>ITA_SHA_L2\<close>, and what holds of them.
  \<^item> This theory: what holds of the host's offload and the device's code together.

  \<^bold>\<open>Correspondence.\<close> A definition has the name of the C function it translates (a leading
  underscore is dropped; functions of the two CLINT drivers carry 32 or 64). Machine integers
  are words of the C width, so wrap-around is that of the code. A function that can loop returns
  an option; undefined behaviour is the outcome \<open>Fault\<close>; a NULL pointer is \<open>None\<close> or the word 0.
  Code outside the repository (OpenTitan's GPIO and \<open>bitfield.h\<close>, the Snitch SDK's DMA, L1 allocator
  and mutex, the linker's symbols) is a parameter, and a property that needs its documented
  behaviour states it as a hypothesis (\<open>bitfield_spec\<close>, \<open>dma_queues\<close>, \<open>dma_async\<close>, \<open>lock_leaves\<close>) with an
  instance in its witness. A property that needs registers to keep their value says so with
  \<open>env_holds\<close>.

  \<^bold>\<open>What is shown.\<close> Allocations of a proper client never overlap, keep their data, and the walk of
  the free list ends (\<open>Alloc\<close>, by refinement); the time functions return consistent times and wait
  long enough (\<open>Clint\<close>); configurations read back as written (\<open>Hyperbus\<close>, \<open>Padframe\<close>);
  the UART sends exactly the given bytes and each only when the device is ready (\<open>Uart\<close>); the FLL
  parameters are within bounds and nearest (\<open>Fll\<close>); an offload starts every core with the right
  words, in the right order, and returns exactly when the cluster is idle (\<open>Offload\<close>); the cores'
  stacks are disjoint; every complete line a core prints appears on the console exactly once
  and in order (\<open>Htif\<close>, by an invariant of all interleavings), where the steps are those the code
  takes (\<open>HtifRefines\<close>), up to a line's whole way to the console and back (\<open>TestHost\<close>). The test runner's
  polling ends, at the latest after its deadline, and a test leaves every cluster's clock gated
  (\<open>TestCluster\<close>). The double-buffered products and comparison of the ITA library use no buffer before its copy has
  arrived and refill none that is in use (the bias of the matrix product excepted), whatever the
  speed of the DMA engine (\<open>ItaUtils\<close>, \<open>ItaMatmul\<close>); the steps of an attention head hand their weights
  over to each other (\<open>ItaHead\<close>). Lemmas on defects of the code (a timeout
  reported as 0, a request served twice, a frequency out of range that is asked for without end, a
  wrapping size, a torn time, a mailbox answered in the wrong direction, an exit code of 0, tiles of which half is copied) state
  what the code does there.

  \<^bold>\<open>Bounds.\<close> No fuel is used anywhere: loops are partial functions to an option, and a claim that a
  loop ends is proved as such. Hart and cluster numbers are those of the two targets.

  \<^bold>\<open>Not modelled.\<close> Start-up assembly and linker scripts (no C code); the texts that
  \<open>printf\<close> produces (what is read only to be printed included), and \<open>log.c\<close> and \<open>stdio.c\<close>,
  which only call picolibc; generated register headers that no modelled driver uses;
  the test programs beside \<open>test_cluster\<close>, \<open>TestHost\<close> and the attention head; Python and CMake
  scripts. Instruction timing, caches and the hardware barrier of the clusters are below the
  level of the model.
\<close>

section \<open>Properties across components\<close>

text \<open>What a core finds when it runs the trampoline: the words the offload left for it.\<close>

lemma trampoline_words:
  assumes "1 \<le> h"
  shows "shared_data + of_nat (off_trampoline_stack t) + push_bit 2 (of_nat h - of_nat CLUSTER_HART_BASE) = stack_word t h"
    and "shared_data + of_nat (off_trampoline_function t) + push_bit 2 (of_nat h - of_nat CLUSTER_HART_BASE) = fn_word t h"
    and "shared_data + of_nat (off_trampoline_args t) + push_bit 2 (of_nat h - of_nat CLUSTER_HART_BASE) = args_word t h"
  by (simp_all add: stack_word_def fn_word_def args_word_def shared_elem_def push_bit_eq_mult mult.commute)

definition tls_bytes :: "link_syms \<Rightarrow> u32" where
  "tls_bytes l = (tdata_end l - tdata_start l) + (tbss_end l - tbss_start l)"

lemma trampoline_ready:
  assumes "core_ready t h f a sp s" and "env_holds env {fn_word t h, args_word t h, stack_word t h}" and "1 \<le> h"
  shows "fst (trampoline t env l (of_nat h) s) =
    \<lparr>gp_reg = global_pointer l, sp_reg = (sp - tls_bytes l) AND - 0xF, tp_reg = sp - tls_bytes l, a0_reg = a, pc_reg = f\<rparr>"
  using assms(1) rd32_held [OF assms(2)]
  by (simp add: trampoline_def Let_def split_beta core_ready_def tls_bytes_def diff_diff_eq
      trampoline_words [OF assms(3), simplified] trampoline_words [OF assms(3)] del: fst_rd32)

lemma offload_ready:
  assumes "unat c < 5"
    and "env_holds env (launch_words t [cluster_hart t c..<cluster_hart t c + cluster_size t c])"
    and "cluster_size t c \<le> length sps" and "i < cluster_size t c"
    and "offload_snitchCluster t env f tr args sps c s = Some (r, s')"
  defines "h \<equiv> cluster_hart t c + i"
  shows "fst (trampoline t env l (of_nat h) s') =
    \<lparr>gp_reg = global_pointer l, sp_reg = (ucast (sps ! i) - tls_bytes l) AND - 0xF,
     tp_reg = ucast (sps ! i) - tls_bytes l, a0_reg = ucast args, pc_reg = ucast f\<rparr>"
proof (rule trampoline_ready)
  show "core_ready t h (ucast f) (ucast args) (ucast (sps ! i)) s'"
    using offload_words [OF assms(1-3,5)] assms(4) by (simp add: h_def)
  show "env_holds env {fn_word t h, args_word t h, stack_word t h}"
    by (rule env_holds_mono [OF assms(2)]) (use launch_words_in [OF assms(4)] in \<open>simp add: h_def\<close>)
  show "1 \<le> h"
    using cluster_geometry(4) [OF assms(1), of t] by (simp add: h_def)
qed

text \<open>C2: the hand-over of an offload: once the host's call has returned, every core of the cluster that
  runs the trampoline jumps to the offloaded function with the caller's argument, its own stack
  (below the thread-local block) and the device's global pointer.\<close>

theorem offload_reaches_function:
  fixes l :: link_syms
  assumes "unat c < 5"
    and "env_holds env (launch_words t [cluster_hart t c..<cluster_hart t c + cluster_size t c])"
    and "cluster_size t c \<le> length sps" and "i < cluster_size t c"
    and "offload_snitchCluster t env f tr args sps c s = Some (r, s')"
  defines "regs \<equiv> fst (trampoline t env l (of_nat (cluster_hart t c + i)) s')"
  shows "pc_reg regs = ucast f \<and> a0_reg regs = ucast args \<and> gp_reg regs = global_pointer l
    \<and> tp_reg regs = ucast (sps ! i) - (tdata_end l - tdata_start l) - (tbss_end l - tbss_start l)
    \<and> sp_reg regs \<le> tp_reg regs"
  unfolding regs_def offload_ready [OF assms(1-5)]
  by (simp add: tls_bytes_def diff_diff_eq word_and_le2)

lemma quiet_offload:
  assumes "unat c < 5" and "cluster_size t c \<le> length sps" and "peek32 s (cluster_busy_word c) \<noteq> 1"
  shows "\<exists>s'. offload_snitchCluster t quiet_env f tr args sps c s = Some (Ret (), s')"
proof -
  have "busy_reg c = Some (cluster_busy_word c)"
    using assms(1) by (simp add: busy_reg_cases cluster_busy_word_def)
  from offload_eq [OF assms(1,2) this] show ?thesis
    using poll32_held [OF env_holds_quiet [of "{cluster_busy_word c}"], of "cluster_busy_word c" "\<lambda>v. v \<noteq> 1" s] assms(3) by simp
qed

lemma boot_idle: "peek32 boot a = 0"
  by (simp add: peek32_def boot_def load32_def)

definition sample_link :: link_syms where
  "sample_link = \<lparr>global_pointer = 0x40800800, tdata_start = 0x100, tdata_end = 0x108, tbss_start = 0x108, tbss_end = 0x118\<rparr>"

theorem offload_reaches_function_witness:
  "\<exists>s'. offload_snitchCluster ChimeraConvolve quiet_env (0x48010000 :: u32) 0x48000400 0x1234 [0x40201F00, 0x40201E00] 1 boot = Some (Ret (), s')
     \<and> (let regs = fst (trampoline ChimeraConvolve quiet_env sample_link 4 s') in
          pc_reg regs = 0x48010000 \<and> a0_reg regs = 0x1234 \<and> tp_reg regs = 0x40201DE8)"
proof -
  obtain s' where s': "offload_snitchCluster ChimeraConvolve quiet_env (0x48010000 :: u32) 0x48000400 0x1234
      [0x40201F00, 0x40201E00] 1 boot = Some (Ret (), s')"
    using quiet_offload [where c = 1 and t = ChimeraConvolve and sps = "[0x40201F00, 0x40201E00]" and s = boot
        and f = "0x48010000 :: u32" and tr = "0x48000400" and args = "0x1234"]
    by (auto simp: cluster_size_def chimera_numCores_def boot_idle)
  from offload_reaches_function [OF _ _ _ _ this, where i = 1 and l = sample_link] s' show ?thesis
    by (simp add: cluster_size_def chimera_numCores_def cluster_hart_def chimera_hartBase_values sample_link_def)
qed

text \<open>C11: the busy flag serialises offloads: as long as a core of the cluster has set the flag and
  nobody clears it, an offload to that cluster never returns; after the core has cleared
  it the offload returns.\<close>

theorem offload_waits_for_cluster:
  assumes "unat c < 5" and "i < cluster_size t c" and "cluster_size t c \<le> length sps"
    and "env_holds env {cluster_busy_word c}"
  shows "offload_snitchCluster t env f tr args sps c (SET_CLUSTER_BUSY t env (of_nat (cluster_hart t c + i)) s) = None \<and>
    (\<exists>s'. offload_snitchCluster t env f tr args sps c
      (CLEAR_CLUSTER_BUSY t env (of_nat (cluster_hart t c + i)) s) = Some (Ret (), s'))"
proof -
  have "busy_reg c = Some (cluster_busy_word c)"
    using assms(1) by (simp add: busy_reg_cases cluster_busy_word_def)
  note off = offload_eq [OF assms(1,3) this] and poll = poll32_held [OF assms(4) singletonI]
  show ?thesis
    unfolding SET_CLUSTER_BUSY_def CLEAR_CLUSTER_BUSY_def cluster_id_asm_values [OF assms(1,2)] Let_def busy_word_asm
      off poll peek32_wr32_same by simp
qed

theorem offload_waits_for_cluster_witness:
  "offload_snitchCluster ChimeraConvolve quiet_env (1 :: u32) 2 3 [4, 8] 2 (SET_CLUSTER_BUSY ChimeraConvolve quiet_env 6 boot) = None"
  using offload_waits_for_cluster [of 2 1 ChimeraConvolve "[4, 8]" quiet_env "1 :: u32" 2 3 boot]
  by (simp add: cluster_size_def chimera_numCores_def cluster_hart_def chimera_hartBase_values)

text \<open>C38: the exit code of a device program on cluster 0 reaches the host unless it is zero: a
  non-zero code is the result of the host's wait, which then clears the register, but a program
  that exits with 0 leaves the host waiting for ever.\<close>

theorem exit_reaches_host:
  assumes "env_holds env {cluster_return_word 0}"
  shows "if code = 0 then wait_snitchCluster_return env 0 (snrt_exit env 0 code s) = None
    else (\<exists>s'. wait_snitchCluster_return env 0 (snrt_exit env 0 code s) = Some (Ret code, s')
      \<and> peek32 s' (cluster_return_word 0) = 0)"
proof -
  have r: "return_reg 0 = Some (cluster_return_word 0)"
    by (simp add: return_reg_cases cluster_return_word_def)
  have w: "snrt_exit env 0 code s = wr32 env (cluster_return_word 0) code s"
    by (simp add: snrt_exit_def reg32_def cluster_return_word_def)
  show ?thesis
    unfolding wait_snitchCluster_return_def r w option.case poll32_held [OF assms singletonI] peek32_wr32_same
    by (simp add: split_beta rd32_held [OF assms singletonI] peek32_wr32_same del: fst_rd32 wr32_sel snd_rd32_sel)
qed

theorem exit_reaches_host_witness:
  "wait_snitchCluster_return quiet_env 0 (snrt_exit quiet_env 0 0 boot) = None \<and>
   (\<exists>s'. wait_snitchCluster_return quiet_env 0 (snrt_exit quiet_env 0 7 boot) = Some (Ret 7, s'))"
  using exit_reaches_host [of quiet_env 0 boot] exit_reaches_host [of quiet_env 7 boot] by auto



end
